theory Spec2Isabelle
  imports Main "HOL-Library.Multiset"
begin

section \<open>Data model\<close>

text \<open>
  The TypeScript interfaces of \<^verbatim>\<open>glossary.generated.ts\<close>. JavaScript strings are modelled
  as HOL strings, one \<^typ>\<open>char\<close> per code unit, so \<^const>\<open>length\<close> is \<^verbatim>\<open>.length\<close>; the
  model covers the strings whose code units are below 256. A field name shared by two
  interfaces is prefixed (\<^verbatim>\<open>id\<close> is \<open>term_id\<close> in a term and \<open>entry_id\<close> in a manifest
  entry, \<^verbatim>\<open>createdAt\<close> of a term is \<open>term_createdAt\<close>, \<^verbatim>\<open>type\<close> is \<open>rel_type\<close>, and the
  \<^verbatim>\<open>termCount\<close> and \<^verbatim>\<open>categories\<close> of a validation result carry the prefix \<open>vr\<close>). The
  \<^verbatim>\<open>sections\<close> object is kept as its entries in key order, which is what
  \<^verbatim>\<open>Object.entries\<close> enumerates.
\<close>

record GlossarySection =
  content :: string

record SemanticRelationship =
  termId :: string
  rel_type :: string
  description :: "string option"

record GlossaryTerm =
  term_id :: string
  title :: string
  category :: string
  sections :: "(string \<times> GlossarySection) list"
  synonyms :: "string list"
  tags :: "string list"
  relationships :: "SemanticRelationship list"
  term_createdAt :: string
  updatedAt :: string

record GlossaryBatch =
  terms :: "GlossaryTerm list"

record BatchManifestEntry =
  entry_id :: string
  path :: string
  createdAt :: string
  termCount :: nat
  categories :: "string list"

record BatchManifest =
  batches :: "BatchManifestEntry list"

record ValidationResult =
  valid :: bool
  errors :: "string list"
  warnings :: "string list"
  vr_termCount :: nat
  vr_categories :: "string list"


section \<open>JavaScript library functions used by the scripts\<close>

text \<open>Decimal rendering of a non-negative integer, as a template literal prints it.\<close>

definition digitChar :: "nat \<Rightarrow> char" where
  "digitChar d = char_of (48 + d)"

fun showNat :: "nat \<Rightarrow> string" where
  "showNat n = (if n < 10 then [digitChar n] else showNat (n div 10) @ [digitChar (n mod 10)])"

declare showNat.simps [simp del]

text \<open>
  \<^verbatim>\<open>new Set(xs)\<close> keeps the first occurrence of every value, in insertion order;
  \<^verbatim>\<open>[...new Set(xs)]\<close> is that sequence.
\<close>

definition setAdd :: "'a list \<Rightarrow> 'a \<Rightarrow> 'a list" where
  "setAdd s x = (if x \<in> set s then s else s @ [x])"

definition newSet :: "'a list \<Rightarrow> 'a list" where
  "newSet xs = foldl setAdd [] xs"

text \<open>
  A \<^verbatim>\<open>Map\<close> keeps its keys in insertion order; \<^verbatim>\<open>set\<close> on a key that is present
  overwrites the value where it stands.
\<close>

fun mapSet :: "('k \<times> 'v) list \<Rightarrow> 'k \<Rightarrow> 'v \<Rightarrow> ('k \<times> 'v) list" where
  "mapSet [] k v = [(k, v)]"
| "mapSet ((k', v') # m) k v = (if k' = k then (k, v) # m else (k', v') # mapSet m k v)"

definition mapGet :: "('k \<times> 'v) list \<Rightarrow> 'k \<Rightarrow> 'v option" where
  "mapGet m k = map_of m k"

text \<open>\<^verbatim>\<open>Array.prototype.findIndex\<close>; \<open>None\<close> stands for the result \<open>-1\<close>.\<close>

fun findIndex :: "('a \<Rightarrow> bool) \<Rightarrow> 'a list \<Rightarrow> nat option" where
  "findIndex p [] = None"
| "findIndex p (x # xs) = (if p x then Some 0 else map_option Suc (findIndex p xs))"

text \<open>
  \<^verbatim>\<open>Array.prototype.sort(comparefn)\<close> is a stable sort. A comparator result of \<open>NaN\<close>
  (here \<open>None\<close>) is read as \<open>+0\<close>. The model is the stable insertion sort: with a
  consistent comparator every stable sort returns the same sequence.
\<close>

definition sortCompare :: "('a \<Rightarrow> 'a \<Rightarrow> int option) \<Rightarrow> 'a \<Rightarrow> 'a \<Rightarrow> int" where
  "sortCompare comparefn x y = (case comparefn x y of None \<Rightarrow> 0 | Some v \<Rightarrow> v)"

fun sortInsert :: "('a \<Rightarrow> 'a \<Rightarrow> int option) \<Rightarrow> 'a \<Rightarrow> 'a list \<Rightarrow> 'a list" where
  "sortInsert comparefn x [] = [x]"
| "sortInsert comparefn x (y # ys) =
     (if sortCompare comparefn x y \<le> 0 then x # y # ys else y # sortInsert comparefn x ys)"

fun arraySort :: "('a \<Rightarrow> 'a \<Rightarrow> int option) \<Rightarrow> 'a list \<Rightarrow> 'a list" where
  "arraySort comparefn [] = []"
| "arraySort comparefn (x # xs) = sortInsert comparefn x (arraySort comparefn xs)"


subsection \<open>Dates\<close>

text \<open>
  \<^verbatim>\<open>new Date(s).getTime()\<close> for the date-time strings the scripts write
  (\<^verbatim>\<open>toISOString\<close>: \<^verbatim>\<open>YYYY-MM-DDTHH:mm:ss.sssZ\<close>) and the schema accepts
  (\<^verbatim>\<open>YYYY-MM-DDTHH:mm:ssZ\<close>, milliseconds optional): milliseconds since the epoch, and
  \<open>None\<close> for \<open>NaN\<close>. As in Node, a day up to 31 is accepted in every month and runs
  over into the next one, and the hour 24 is accepted at \<^verbatim>\<open>24:00:00.000\<close>, the next
  midnight. Strings of any other shape are parsed by implementation-defined rules in
  JavaScript; the model answers \<open>None\<close> for them and the theorems about dates assume
  timestamps of this shape.
\<close>

definition digitVal :: "char \<Rightarrow> nat option" where
  "digitVal c = (let n = of_char c in if (48::nat) \<le> n \<and> n \<le> 57 then Some (n - 48) else None)"

fun digitsVal :: "nat \<Rightarrow> string \<Rightarrow> nat option" where
  "digitsVal acc [] = Some acc"
| "digitsVal acc (c # cs) =
     (case digitVal c of None \<Rightarrow> None | Some d \<Rightarrow> digitsVal (10 * acc + d) cs)"

definition numField :: "string \<Rightarrow> nat \<Rightarrow> nat \<Rightarrow> nat option" where
  "numField s i n = digitsVal 0 (take n (drop i s))"

definition daysFromCivil :: "nat \<Rightarrow> nat \<Rightarrow> nat \<Rightarrow> int" where
  "daysFromCivil y m d =
     (let y' = (if m \<le> 2 then int y - 1 else int y);
          era = y' div 400;
          yoe = y' - era * 400;
          mp = (if m > 2 then int m - 3 else int m + 9);
          doy = (153 * mp + 2) div 5 + int d - 1;
          doe = yoe * 365 + yoe div 4 - yoe div 100 + doy
      in era * 146097 + doe - 719468)"

definition dateGetTime :: "string \<Rightarrow> int option" where
  "dateGetTime s =
     (if (length s = 20 \<or> length s = 24)
         \<and> s ! 4 = CHR ''-'' \<and> s ! 7 = CHR ''-'' \<and> s ! 10 = CHR ''T''
         \<and> s ! 13 = CHR '':'' \<and> s ! 16 = CHR '':'' \<and> last s = CHR ''Z''
         \<and> (length s = 24 \<longrightarrow> s ! 19 = CHR ''.'')
      then
        (case (numField s 0 4, numField s 5 2, numField s 8 2,
               numField s 11 2, numField s 14 2, numField s 17 2,
               if length s = 24 then numField s 20 3 else Some 0) of
           (Some y, Some m, Some d, Some hh, Some mm, Some ss, Some ms) \<Rightarrow>
             if 1 \<le> m \<and> m \<le> 12 \<and> 1 \<le> d \<and> d \<le> 31
                \<and> (hh \<le> 23 \<or> hh = 24 \<and> mm = 0 \<and> ss = 0 \<and> ms = 0)
                \<and> mm \<le> 59 \<and> ss \<le> 59
             then Some ((((daysFromCivil y m d * 24 + int hh) * 60 + int mm) * 60 + int ss) * 1000
                        + int ms)
             else None
         | _ \<Rightarrow> None)
      else None)"


section \<open>Manifest merger (update-manifest script)\<close>

text \<open>
  \<^verbatim>\<open>path.basename(path, suffix)\<close> of Node on POSIX paths. Without a suffix that fits
  (\<open>lastComponent\<close>) the trailing slashes are dropped and the last component is taken.
  With one, a path that is the suffix itself gives the empty string; otherwise
  \<open>basenameScan\<close> is the loop of Node from the last character down: it skips the trailing
  slashes, compares the component with the suffix from its end, and stops at the slash
  before the component. An index of the loop is an integer, \<open>-1\<close> when it is not set.
  For a file name that ends with the suffix and is longer, the result is the name without
  the suffix.
\<close>

definition stripTrailingSlashes :: "string \<Rightarrow> string" where
  "stripTrailingSlashes p = rev (dropWhile (\<lambda>c. c = CHR ''/'') (rev p))"

definition lastComponent :: "string \<Rightarrow> string" where
  "lastComponent p = rev (takeWhile (\<lambda>c. c \<noteq> CHR ''/'') (rev (stripTrailingSlashes p)))"

fun basenameScan ::
  "string \<Rightarrow> string \<Rightarrow> nat \<Rightarrow> int \<Rightarrow> bool \<Rightarrow> int \<Rightarrow> int \<Rightarrow> int \<times> int \<times> int" where
  "basenameScan p suffix 0 endIdx matchedSlash extIdx firstNonSlashEnd = (0, endIdx, firstNonSlashEnd)"
| "basenameScan p suffix (Suc i) endIdx matchedSlash extIdx firstNonSlashEnd =
     (if p ! i = CHR ''/''
      then if \<not> matchedSlash then (int i + 1, endIdx, firstNonSlashEnd)
           else basenameScan p suffix i endIdx matchedSlash extIdx firstNonSlashEnd
      else
        (let matchedSlash' = (if firstNonSlashEnd = - 1 then False else matchedSlash);
             firstNonSlashEnd' = (if firstNonSlashEnd = - 1 then int i + 1 else firstNonSlashEnd)
         in if 0 \<le> extIdx
            then if p ! i = suffix ! nat extIdx
                 then if extIdx - 1 = - 1
                      then basenameScan p suffix i (int i) matchedSlash' (- 1) firstNonSlashEnd'
                      else basenameScan p suffix i endIdx matchedSlash' (extIdx - 1) firstNonSlashEnd'
                 else basenameScan p suffix i firstNonSlashEnd' matchedSlash' (- 1)
                        firstNonSlashEnd'
            else basenameScan p suffix i endIdx matchedSlash' extIdx firstNonSlashEnd'))"

definition basename :: "string \<Rightarrow> string \<Rightarrow> string" where
  "basename p suffix =
     (if suffix \<noteq> [] \<and> length suffix \<le> length p
      then if suffix = p then []
           else (case basenameScan p suffix (length p) (- 1) True (int (length suffix) - 1) (- 1) of
                   (start, endIdx, firstNonSlashEnd) \<Rightarrow>
                     (let endIdx' = (if start = endIdx then firstNonSlashEnd
                                     else if endIdx = - 1 then int (length p) else endIdx)
                      in take (nat (endIdx' - start)) (drop (nat start) p)))
      else lastComponent p)"

definition extractBatchId :: "string \<Rightarrow> string" where
  "extractBatchId filePath = basename filePath ''.json''"

text \<open>
  \<open>createManifestEntry\<close> reads the working directory and the clock. Both enter the model
  as arguments: \<open>relPath\<close> is \<^verbatim>\<open>path.relative(process.cwd(), batchPath)\<close> with
  backslashes replaced, \<open>now\<close> is \<^verbatim>\<open>new Date().toISOString()\<close>.
\<close>

definition createManifestEntry ::
  "string \<Rightarrow> string \<Rightarrow> string \<Rightarrow> GlossaryBatch \<Rightarrow> BatchManifestEntry" where
  "createManifestEntry relPath now batchPath batch =
     (let batchId = extractBatchId batchPath;
          categories = newSet (map category (terms batch))
      in \<lparr> entry_id = batchId, path = relPath, createdAt = now,
           termCount = length (terms batch), categories = categories \<rparr>)"

definition compareCreatedAt :: "BatchManifestEntry \<Rightarrow> BatchManifestEntry \<Rightarrow> int option" where
  "compareCreatedAt a b =
     (case (dateGetTime (createdAt b), dateGetTime (createdAt a)) of
        (Some tb, Some ta) \<Rightarrow> Some (tb - ta)
      | _ \<Rightarrow> None)"

definition sortManifest :: "BatchManifest \<Rightarrow> BatchManifest" where
  "sortManifest manifest = \<lparr> batches = arraySort compareCreatedAt (batches manifest) \<rparr>"

text \<open>The upsert of \<open>updateManifest\<close>: replace at \<open>existingIndex\<close>, or push.\<close>

definition upsertEntry :: "BatchManifest \<Rightarrow> BatchManifestEntry \<Rightarrow> BatchManifest" where
  "upsertEntry manifest entry =
     (case findIndex (\<lambda>b. entry_id b = entry_id entry) (batches manifest) of
        Some existingIndex \<Rightarrow> \<lparr> batches = (batches manifest)[existingIndex := entry] \<rparr>
      | None \<Rightarrow> \<lparr> batches = batches manifest @ [entry] \<rparr>)"

text \<open>
  \<open>updateManifest\<close>: the manifest file is \<open>None\<close> when \<^verbatim>\<open>data/manifest.json\<close> does not
  exist; the result is the manifest that is saved.
\<close>

definition loadManifest :: "BatchManifest option \<Rightarrow> BatchManifest" where
  "loadManifest file = (case file of Some m \<Rightarrow> m | None \<Rightarrow> \<lparr> batches = [] \<rparr>)"

definition updateManifest ::
  "string \<Rightarrow> string \<Rightarrow> string \<Rightarrow> GlossaryBatch \<Rightarrow> BatchManifest option \<Rightarrow> BatchManifest" where
  "updateManifest relPath now batchPath batch file =
     (let manifest = loadManifest file;
          entry = createManifestEntry relPath now batchPath batch
      in sortManifest (upsertEntry manifest entry))"


section \<open>Cross-reference resolver and quiz-readiness auditor (validate-batch script)\<close>

definition crossRefMessage :: "string \<Rightarrow> string \<Rightarrow> string" where
  "crossRefMessage tid target =
     ''Term '' @ [CHR 0x22] @ tid @ [CHR 0x22] @ '' references unknown term '' @ [CHR 0x22]
       @ target @ [CHR 0x22] @ '' in relationships''"

definition validateCrossReferences :: "GlossaryBatch \<Rightarrow> GlossaryTerm list \<Rightarrow> string list" where
  "validateCrossReferences batch existingTerms =
     (let batchTermIds = newSet (map term_id (terms batch));
          existingTermIds = newSet (map term_id existingTerms);
          allTermIds = newSet (batchTermIds @ existingTermIds);
          errors = concat (map (\<lambda>term. concat (map (\<lambda>rel.
                      if termId rel \<notin> set allTermIds
                      then [crossRefMessage (term_id term) (termId rel)] else [])
                    (relationships term))) (terms batch));
          warnings = []
      in errors @ warnings)"

definition countCategory :: "(string \<times> nat) list \<Rightarrow> GlossaryTerm \<Rightarrow> (string \<times> nat) list" where
  "countCategory categoryCounts term =
     mapSet categoryCounts (category term)
       ((case mapGet categoryCounts (category term) of None \<Rightarrow> 0 | Some n \<Rightarrow> n) + 1)"

definition quizMessage :: "string \<Rightarrow> nat \<Rightarrow> string" where
  "quizMessage cat cnt =
     ''Category '' @ [CHR 0x22] @ cat @ [CHR 0x22] @ '' has only '' @ showNat cnt
       @ '' term(s) - need 4+ for quiz generation. '' @ ''Add '' @ showNat (4 - cnt)
       @ '' more term(s).''"

definition newCategoryMessage :: "string \<Rightarrow> nat \<Rightarrow> string" where
  "newCategoryMessage cat newCategoryCount =
     ''NEW category '' @ [CHR 0x22] @ cat @ [CHR 0x22] @ '' introduced with only ''
       @ showNat newCategoryCount @ '' term(s) - '' @ ''add '' @ showNat (4 - newCategoryCount)
       @ '' more in this batch or next.''"

definition checkQuizRequirements :: "GlossaryBatch \<Rightarrow> GlossaryTerm list \<Rightarrow> string list" where
  "checkQuizRequirements batch existingTerms =
     (let categoryCounts = foldl countCategory (foldl countCategory [] existingTerms) (terms batch);
          generic = concat (map (\<lambda>(cat, cnt).
                      if cnt < 4 then [quizMessage cat cnt] else []) categoryCounts);
          newCategories = filter (\<lambda>cat. \<not> list_ex (\<lambda>t. category t = cat) existingTerms)
                            (map category (terms batch));
          uniqueNewCategories = newSet newCategories;
          fresh = concat (map (\<lambda>cat.
                    let newCategoryCount = length (filter (\<lambda>t. category t = cat) (terms batch))
                    in if newCategoryCount < 4 then [newCategoryMessage cat newCategoryCount]
                       else []) uniqueNewCategories)
      in generic @ fresh)"


section \<open>Regular expressions\<close>

text \<open>
  The regular expressions of the scripts use literals, character classes, \<^verbatim>\<open>.\<close>,
  concatenation, \<^verbatim>\<open>*\<close>, \<^verbatim>\<open>+\<close>, bounded repetition and groups, with or without the
  anchors \<^verbatim>\<open>^\<close> and \<^verbatim>\<open>$\<close>; none has a flag. \<open>rmatch r s\<close> lists what remains of \<open>s\<close>
  after each way of matching \<open>r\<close> at its start. \<^verbatim>\<open>RegExp.prototype.test\<close> only asks
  whether a match exists, so a lazy quantifier (\<^verbatim>\<open>.*?\<close>) is a \<open>Star\<close>: laziness changes
  which match is found first, not whether there is one. An iteration of \<open>Star\<close> that
  consumes nothing is dropped, as in JavaScript.
\<close>

datatype rx =
    Eps
  | Atom "char \<Rightarrow> bool"
  | Seq rx rx
  | Alt rx rx
  | Star rx

fun rmatch :: "rx \<Rightarrow> string \<Rightarrow> string list" where
  "rmatch Eps s = [s]"
| "rmatch (Atom p) [] = []"
| "rmatch (Atom p) (c # cs) = (if p c then [cs] else [])"
| "rmatch (Seq a b) s = concat (map (rmatch b) (rmatch a s))"
| "rmatch (Alt a b) s = rmatch a s @ rmatch b s"
| "rmatch (Star a) s =
     s # concat (map (rmatch (Star a)) (filter (\<lambda>t. length t < length s) (rmatch a s)))"

definition Lit :: "char \<Rightarrow> rx" where
  "Lit c = Atom (\<lambda>x. x = c)"

definition Plus :: "rx \<Rightarrow> rx" where
  "Plus r = Seq r (Star r)"

definition Opt :: "rx \<Rightarrow> rx" where
  "Opt r = Alt r Eps"

fun Lits :: "string \<Rightarrow> rx" where
  "Lits [] = Eps"
| "Lits (c # cs) = Seq (Lit c) (Lits cs)"

fun Times :: "nat \<Rightarrow> rx \<Rightarrow> rx" where
  "Times 0 r = Eps"
| "Times (Suc n) r = Seq r (Times n r)"

text \<open>\<open>UpTo n r\<close> is \<^verbatim>\<open>r{0,n}\<close>.\<close>

fun UpTo :: "nat \<Rightarrow> rx \<Rightarrow> rx" where
  "UpTo 0 r = Eps"
| "UpTo (Suc n) r = Opt (Seq r (UpTo n r))"

definition inRange :: "char \<Rightarrow> char \<Rightarrow> char \<Rightarrow> bool" where
  "inRange lo hi c = ((of_char lo :: nat) \<le> of_char c \<and> (of_char c :: nat) \<le> of_char hi)"

text \<open>\<^verbatim>\<open>[a-z0-9]\<close>, \<^verbatim>\<open>[a-z0-9-]\<close>, \<^verbatim>\<open>\d\<close>.\<close>

definition lowerDigit :: "char \<Rightarrow> bool" where
  "lowerDigit c = (inRange CHR ''a'' CHR ''z'' c \<or> inRange CHR ''0'' CHR ''9'' c)"

definition lowerDigitHyphen :: "char \<Rightarrow> bool" where
  "lowerDigitHyphen c = (lowerDigit c \<or> c = CHR ''-'')"

definition digit :: "char \<Rightarrow> bool" where
  "digit c = inRange CHR ''0'' CHR ''9'' c"

text \<open>
  \<^verbatim>\<open>.\<close> matches everything but a line terminator; \<^verbatim>\<open>\s\<close> matches white space and line
  terminators; \<^verbatim>\<open>[\s\S]\<close> matches every character. (Among the 256 characters of
  \<^typ>\<open>char\<close>: line feed and carriage return; tab, line feed, vertical tab, form feed,
  carriage return, space and no-break space.)
\<close>

definition dot :: "char \<Rightarrow> bool" where
  "dot c = (c \<noteq> CHR 0x0A \<and> c \<noteq> CHR 0x0D)"

definition whiteSpace :: "char \<Rightarrow> bool" where
  "whiteSpace c = (c \<in> set [CHR 0x09, CHR 0x0A, CHR 0x0B, CHR 0x0C, CHR 0x0D, CHR 0x20, CHR 0xA0])"

definition anyChar :: "char \<Rightarrow> bool" where
  "anyChar c = True"

text \<open>
  A regular expression literal is either anchored at both ends (\<^verbatim>\<open>/^r$/\<close>) or not
  anchored (\<^verbatim>\<open>/r/\<close>); \<open>regexTest\<close> is \<^verbatim>\<open>RegExp.prototype.test\<close>.
\<close>

datatype regex = Anchored rx | Search rx

fun searchAt :: "rx \<Rightarrow> string \<Rightarrow> bool" where
  "searchAt r [] = (rmatch r [] \<noteq> [])"
| "searchAt r (c # cs) = (rmatch r (c # cs) \<noteq> [] \<or> searchAt r cs)"

fun regexTest :: "regex \<Rightarrow> string \<Rightarrow> bool" where
  "regexTest (Anchored r) s = ([] \<in> set (rmatch r s))"
| "regexTest (Search r) s = searchAt r s"


fun Seqs :: "rx list \<Rightarrow> rx" where
  "Seqs [] = Eps"
| "Seqs (r # rs) = Seq r (Seqs rs)"


section \<open>Zod validators (glossaryBatch.zod)\<close>

subsection \<open>Constants\<close>

definition VALID_CATEGORIES :: "string list" where
  "VALID_CATEGORIES =
     [''Navigation'', ''Weather'', ''Communication'', ''Safety'', ''Performance'',
      ''Flight Controls'', ''Navigation Systems'', ''Equipment'', ''Procedures'',
      ''Electrical Systems'', ''Electrical'', ''Pneumatic Systems'', ''Environmental Systems'',
      ''Ice Protection Systems'', ''Cargo Systems'', ''Hydraulic Systems'',
      ''Communication Systems'', ''Lighting Systems'', ''Cabin Systems'',
      ''Fire Protection Systems'', ''Flight Instruments'', ''Engine Systems'',
      ''System Controls'', ''Safety Equipment'', ''Communications'', ''Landing Gear'']"

definition RELATIONSHIP_TYPES :: "string list" where
  "RELATIONSHIP_TYPES = [''broader'', ''narrower'', ''related'', ''seeAlso'']"

text \<open>\<^verbatim>\<open>/^[a-z0-9]+(-[a-z0-9]+)*$/\<close>\<close>

definition KEBAB_CASE_REGEX :: regex where
  "KEBAB_CASE_REGEX =
     Anchored (Seq (Plus (Atom lowerDigit)) (Star (Seq (Lit CHR ''-'') (Plus (Atom lowerDigit)))))"

text \<open>\<^verbatim>\<open>/^[a-z0-9-]+$/\<close>\<close>

definition TAG_PATTERN :: regex where
  "TAG_PATTERN = Anchored (Plus (Atom lowerDigitHyphen))"

text \<open>\<^verbatim>\<open>/^\d{4}-\d{2}-\d{2}T\d{2}:\d{2}:\d{2}(\.\d{3})?Z$/\<close>\<close>

definition ISO_DATE_REGEX :: regex where
  "ISO_DATE_REGEX =
     Anchored (Seqs [Times 4 (Atom digit), Lit CHR ''-'', Times 2 (Atom digit), Lit CHR ''-'',
                     Times 2 (Atom digit), Lit CHR ''T'', Times 2 (Atom digit), Lit CHR '':'',
                     Times 2 (Atom digit), Lit CHR '':'', Times 2 (Atom digit),
                     Opt (Seq (Lit CHR ''.'') (Times 3 (Atom digit))), Lit CHR ''Z''])"

text \<open>
  The eight \<open>MARKDOWN_PATTERNS\<close>, in the order of the source: bold, italic, italic
  underscore, headers (\<^verbatim>\<open>#{1,6}\s\<close>), links, images, code blocks, inline code.
\<close>

definition boldPattern :: regex where
  "boldPattern = Search (Seqs [Lits ''**'', Star (Atom dot), Lits ''**''])"

definition italicPattern :: regex where
  "italicPattern = Search (Seqs [Lit CHR ''*'', Star (Atom dot), Lit CHR ''*''])"

definition underscorePattern :: regex where
  "underscorePattern = Search (Seqs [Lit CHR ''_'', Star (Atom dot), Lit CHR ''_''])"

definition headerPattern :: regex where
  "headerPattern = Search (Seqs [Lit CHR ''#'', UpTo 5 (Lit CHR ''#''), Atom whiteSpace])"

definition linkPattern :: regex where
  "linkPattern =
     Search (Seqs [Lit CHR ''['', Star (Atom dot), Lits '']('', Star (Atom dot), Lit CHR '')''])"

definition imagePattern :: regex where
  "imagePattern =
     Search (Seqs [Lits ''!['', Star (Atom dot), Lits '']('', Star (Atom dot), Lit CHR '')''])"

definition codeBlockPattern :: regex where
  "codeBlockPattern = Search (Seqs [Lits ''```'', Star (Atom anyChar), Lits ''```''])"

definition inlineCodePattern :: regex where
  "inlineCodePattern = Search (Seqs [Lit CHR ''`'', Star (Atom dot), Lit CHR ''`''])"

definition MARKDOWN_PATTERNS :: "regex list" where
  "MARKDOWN_PATTERNS =
     [boldPattern, italicPattern, underscorePattern, headerPattern, linkPattern, imagePattern,
      codeBlockPattern, inlineCodePattern]"

definition containsMarkdown :: "string \<Rightarrow> bool" where
  "containsMarkdown text = list_ex (\<lambda>pattern. regexTest pattern text) MARKDOWN_PATTERNS"


subsection \<open>Payloads and parse results\<close>

text \<open>
  The payload is what \<^verbatim>\<open>JSON.parse\<close> returns: any JSON value. An object is the list of
  its own properties in the order JavaScript enumerates them; an object never has the
  same key twice, which \<open>wellFormed\<close> records. A number is kept as an integer: the
  validators compare no number of the payload.
\<close>

datatype json =
    JNull
  | JBool bool
  | JNum int
  | JStr string
  | JArr "json list"
  | JObj "(string \<times> json) list"

fun wellFormed :: "json \<Rightarrow> bool" where
  "wellFormed (JArr xs) = list_all wellFormed xs"
| "wellFormed (JObj kvs) = (distinct (map fst kvs) \<and> list_all (\<lambda>kv. wellFormed (snd kv)) kvs)"
| "wellFormed _ = True"

text \<open>Property access \<^verbatim>\<open>obj[key]\<close>: \<open>None\<close> is \<^verbatim>\<open>undefined\<close>.\<close>

fun field :: "json \<Rightarrow> string \<Rightarrow> json option" where
  "field (JObj kvs) k = map_of kvs k"
| "field _ k = None"

text \<open>
  The schema module chains \<^verbatim>\<open>.min\<close> and \<^verbatim>\<open>.max\<close> after \<^verbatim>\<open>.refine\<close>, which is the
  interface of Zod 4; the combinators below follow that version. A parse collects issues
  (a path and a message) and a status. \<open>aborted\<close> is the status after an issue that does
  not let the parse continue (a value of the wrong type, a value outside an enumeration,
  an unrecognized key): the checks of the enclosing schemas do not run on top of it. A
  failed check (a pattern, a length, a refinement) only adds its issue. The messages that
  the source gives are those of the source; the others are the library's.
\<close>

datatype ZodIssue = ZodIssue (zpath: "string list") (zmessage: string)

datatype ZodResult = ZodResult (aborted: bool) (issues: "ZodIssue list")

type_synonym schema = "string list \<Rightarrow> json option \<Rightarrow> ZodResult"

definition mergeResults :: "ZodResult list \<Rightarrow> ZodResult" where
  "mergeResults rs = ZodResult (list_ex aborted rs) (concat (map issues rs))"

definition parsedType :: "json option \<Rightarrow> string" where
  "parsedType inp =
     (case inp of
        None \<Rightarrow> ''undefined''
      | Some JNull \<Rightarrow> ''null''
      | Some (JBool b) \<Rightarrow> ''boolean''
      | Some (JNum n) \<Rightarrow> ''number''
      | Some (JStr s) \<Rightarrow> ''string''
      | Some (JArr xs) \<Rightarrow> ''array''
      | Some (JObj kvs) \<Rightarrow> ''object'')"

definition invalidType :: "string \<Rightarrow> string list \<Rightarrow> json option \<Rightarrow> ZodResult" where
  "invalidType expected p inp =
     ZodResult True
       [ZodIssue p (''Invalid input: expected '' @ expected @ '', received '' @ parsedType inp)]"

fun joinWith :: "string \<Rightarrow> string list \<Rightarrow> string" where
  "joinWith sep [] = []"
| "joinWith sep [x] = x"
| "joinWith sep (x # y # ys) = x @ sep @ joinWith sep (y # ys)"

text \<open>A string between double quotes, as the library prints the values and keys it names.\<close>

definition quoted :: "string \<Rightarrow> string" where
  "quoted s = [CHR 0x22] @ s @ [CHR 0x22]"


subsection \<open>Schema combinators\<close>

text \<open>
  The checks of a string schema run in the order they are chained, each adding its issue;
  a check without a message of its own has the library's. A pattern and a refinement do
  not run on a value that is not a string. A length check of Zod 4 runs on every value
  that has a \<^verbatim>\<open>length\<close>, also after the issue of the wrong type: \<open>lengthIssue\<close> is the
  check on a length, with the words of the library for a string (\<^verbatim>\<open>characters\<close>) or an
  array (\<^verbatim>\<open>items\<close>). An object with a property named \<^verbatim>\<open>length\<close> in the place of a
  string or an array is outside the model: JavaScript would compare the value of that
  property with the bound, after the issue of the wrong type that the model records.
\<close>

datatype stringCheck =
    RegexCheck regex string
  | MinCheck nat "string option"
  | MaxCheck nat "string option"
  | RefineCheck "string \<Rightarrow> bool" string

fun lengthIssue :: "string \<Rightarrow> string \<Rightarrow> nat \<Rightarrow> stringCheck \<Rightarrow> string list" where
  "lengthIssue origin unit len (MinCheck n msg) =
     (if len < n
      then [case msg of Some m \<Rightarrow> m
            | None \<Rightarrow> ''Too small: expected '' @ origin @ '' to have >='' @ showNat n
                       @ '' '' @ unit]
      else [])"
| "lengthIssue origin unit len (MaxCheck n msg) =
     (if len > n
      then [case msg of Some m \<Rightarrow> m
            | None \<Rightarrow> ''Too big: expected '' @ origin @ '' to have <='' @ showNat n
                       @ '' '' @ unit]
      else [])"
| "lengthIssue origin unit len (RegexCheck r msg) = []"
| "lengthIssue origin unit len (RefineCheck ok msg) = []"

fun checkIssue :: "string \<Rightarrow> stringCheck \<Rightarrow> string list" where
  "checkIssue s (RegexCheck r msg) = (if regexTest r s then [] else [msg])"
| "checkIssue s (MinCheck n msg) = lengthIssue ''string'' ''characters'' (length s) (MinCheck n msg)"
| "checkIssue s (MaxCheck n msg) = lengthIssue ''string'' ''characters'' (length s) (MaxCheck n msg)"
| "checkIssue s (RefineCheck ok msg) = (if ok s then [] else [msg])"

definition zString :: "stringCheck list \<Rightarrow> schema" where
  "zString checks p inp =
     (case inp of
        Some (JStr s) \<Rightarrow> ZodResult False (map (ZodIssue p) (concat (map (checkIssue s) checks)))
      | Some (JArr xs) \<Rightarrow>
          ZodResult True
            (issues (invalidType ''string'' p inp)
             @ map (ZodIssue p)
                 (concat (map (lengthIssue ''array'' ''items'' (length xs)) checks)))
      | _ \<Rightarrow> invalidType ''string'' p inp)"

text \<open>An enumeration: every input that is not one of the values gets the same issue.\<close>

definition invalidOption :: "string list \<Rightarrow> string list \<Rightarrow> ZodResult" where
  "invalidOption values p =
     ZodResult True
       [ZodIssue p (''Invalid option: expected one of '' @ joinWith ''|'' (map quoted values))]"

definition zEnum :: "string list \<Rightarrow> schema" where
  "zEnum values p inp =
     (case inp of
        Some (JStr s) \<Rightarrow> if s \<in> set values then ZodResult False [] else invalidOption values p
      | _ \<Rightarrow> invalidOption values p)"

definition zOptional :: "schema \<Rightarrow> schema" where
  "zOptional inner p inp = (case inp of None \<Rightarrow> ZodResult False [] | Some v \<Rightarrow> inner p inp)"

definition zDefault :: "json \<Rightarrow> schema \<Rightarrow> schema" where
  "zDefault dflt inner p inp = (case inp of None \<Rightarrow> inner p (Some dflt) | Some v \<Rightarrow> inner p inp)"

text \<open>
  An array schema with an optional minimum length (\<open>Some (n, message)\<close>): the elements
  are parsed at the paths \<open>p.0\<close>, \<open>p.1\<close>, ... (an index is written in decimal); the
  length check runs after them, and also on a string in the place of the array.
\<close>

definition minLengthIssue :: "(nat \<times> string) option \<Rightarrow> string list \<Rightarrow> nat \<Rightarrow> ZodIssue list" where
  "minLengthIssue minLength p len =
     (case minLength of
        Some (n, msg) \<Rightarrow> if len < n then [ZodIssue p msg] else []
      | None \<Rightarrow> [])"

definition zArray :: "(nat \<times> string) option \<Rightarrow> schema \<Rightarrow> schema" where
  "zArray minLength element p inp =
     (case inp of
        Some (JArr xs) \<Rightarrow>
          (let r = mergeResults (map (\<lambda>(i, x). element (p @ [showNat i]) (Some x))
                                  (enumerate 0 xs))
           in ZodResult (aborted r) (issues r @ minLengthIssue minLength p (length xs)))
      | Some (JStr s) \<Rightarrow>
          ZodResult True
            (issues (invalidType ''array'' p inp) @ minLengthIssue minLength p (length s))
      | _ \<Rightarrow> invalidType ''array'' p inp)"

text \<open>
  A strict object schema: every key of the shape is parsed, in the order of the shape,
  with the value found under it (or \<^verbatim>\<open>undefined\<close>); then the keys that the shape does
  not have are reported in one issue, which aborts the parse.
\<close>

definition unrecognizedKeys :: "string list \<Rightarrow> string list \<Rightarrow> ZodResult" where
  "unrecognizedKeys extraKeys p =
     (if extraKeys \<noteq> []
      then ZodResult True
             [ZodIssue p ((if length extraKeys > 1 then ''Unrecognized keys: ''
                           else ''Unrecognized key: '')
                          @ joinWith '', '' (map quoted extraKeys))]
      else ZodResult False [])"

definition zObjectStrict :: "(string \<times> schema) list \<Rightarrow> schema" where
  "zObjectStrict shape p inp =
     (case inp of
        Some (JObj kvs) \<Rightarrow>
          (let extraKeys = filter (\<lambda>k. k \<notin> set (map fst shape)) (map fst kvs)
           in mergeResults
                (map (\<lambda>(k, s). s (p @ [k]) (map_of kvs k)) shape
                 @ [unrecognizedKeys extraKeys p]))
      | _ \<Rightarrow> invalidType ''object'' p inp)"

text \<open>
  A plain \<^verbatim>\<open>z.object\<close> strips unknown keys without an issue.
\<close>

definition zObject :: "(string \<times> schema) list \<Rightarrow> schema" where
  "zObject shape p inp =
     (case inp of
        Some (JObj kvs) \<Rightarrow> mergeResults (map (\<lambda>(k, s). s (p @ [k]) (map_of kvs k)) shape)
      | _ \<Rightarrow> invalidType ''object'' p inp)"

text \<open>
  \<^verbatim>\<open>.refine(check, {message})\<close> on a schema: the check runs on the parsed value unless
  the parse was aborted.
\<close>

definition zRefine :: "(json \<Rightarrow> bool) \<Rightarrow> string \<Rightarrow> schema \<Rightarrow> schema" where
  "zRefine ok msg inner p inp =
     (let r = inner p inp
      in case inp of
           Some v \<Rightarrow>
             if aborted r \<or> ok v then r
             else ZodResult False (issues r @ [ZodIssue p msg])
         | None \<Rightarrow> r)"


subsection \<open>The schemas\<close>

text \<open>
  \<open>plainTextRefinement\<close> is the refinement of \<^verbatim>\<open>z.string()\<close> by \<open>containsMarkdown\<close>; the
  section schema chains \<^verbatim>\<open>.min(10)\<close> and \<^verbatim>\<open>.max(2000)\<close> after it.
\<close>

definition plainTextRefinement :: stringCheck where
  "plainTextRefinement =
     RefineCheck (\<lambda>text. \<not> containsMarkdown text)
       ''Content must be plain text only - no markdown or HTML formatting allowed''"

definition GlossarySectionSchema :: schema where
  "GlossarySectionSchema =
     zObject
       [(''content'',
         zString [plainTextRefinement,
                  MinCheck 10 (Some ''Content must be at least 10 characters''),
                  MaxCheck 2000 (Some ''Content must not exceed 2000 characters'')])]"

definition SemanticRelationshipSchema :: schema where
  "SemanticRelationshipSchema =
     zObject
       [(''termId'',
         zString [RegexCheck KEBAB_CASE_REGEX ''termId must be in kebab-case format'',
                  MinCheck 1 (Some ''termId cannot be empty''),
                  MaxCheck 100 (Some ''termId must not exceed 100 characters'')]),
        (''type'', zEnum RELATIONSHIP_TYPES),
        (''description'',
         zOptional
           (zString [MinCheck 10 (Some ''Description must be at least 10 characters if provided''),
                     MaxCheck 500 (Some ''Description must not exceed 500 characters'')]))]"

definition sectionsSchema :: schema where
  "sectionsSchema =
     zObjectStrict
       [(''whatItIs'', GlossarySectionSchema),
        (''location'', zOptional GlossarySectionSchema),
        (''howItWorks'', zOptional GlossarySectionSchema),
        (''whatYouShouldDo'', zOptional GlossarySectionSchema),
        (''troubleshooting'', zOptional GlossarySectionSchema)]"

definition GlossaryTermSchema :: schema where
  "GlossaryTermSchema =
     zObjectStrict
       [(''id'',
         zString [RegexCheck KEBAB_CASE_REGEX
                    (''ID must be in kebab-case format (e.g., '' @ [CHR 0x22] @ ''flight-level''
                     @ [CHR 0x22] @ '')''),
                  MinCheck 1 (Some ''ID cannot be empty''),
                  MaxCheck 100 (Some ''ID must not exceed 100 characters'')]),
        (''title'',
         zString [MinCheck 1 (Some ''Title cannot be empty''),
                  MaxCheck 200 (Some ''Title must not exceed 200 characters'')]),
        (''category'', zEnum VALID_CATEGORIES),
        (''sections'', sectionsSchema),
        (''synonyms'', zDefault (JArr []) (zArray None (zString [MinCheck 1 None, MaxCheck 100 None]))),
        (''tags'',
         zDefault (JArr [])
           (zArray None
              (zString [RegexCheck TAG_PATTERN ''Tags must be lowercase with hyphens only'',
                        MinCheck 1 None, MaxCheck 50 None]))),
        (''relationships'', zDefault (JArr []) (zArray None SemanticRelationshipSchema)),
        (''createdAt'',
         zString [RegexCheck ISO_DATE_REGEX
                    (''createdAt must be in ISO 8601 format (e.g., '' @ [CHR 0x22]
                     @ ''2024-01-01T00:00:00Z'' @ [CHR 0x22] @ '')'')]),
        (''updatedAt'',
         zString [RegexCheck ISO_DATE_REGEX
                    (''updatedAt must be in ISO 8601 format (e.g., '' @ [CHR 0x22]
                     @ ''2024-01-01T00:00:00Z'' @ [CHR 0x22] @ '')'')])]"

text \<open>
  The refinement of the \<^verbatim>\<open>terms\<close> array:
  \<^verbatim>\<open>ids.length === new Set(terms.map(t => t.id)).size\<close>.
\<close>

definition uniqueTermIds :: "json \<Rightarrow> bool" where
  "uniqueTermIds v =
     (case v of
        JArr ts \<Rightarrow>
          (let ids = map (\<lambda>t. field t ''id'') ts;
               uniqueIds = newSet ids
           in length ids = length uniqueIds)
      | _ \<Rightarrow> True)"

definition GlossaryBatchSchema :: schema where
  "GlossaryBatchSchema =
     zObjectStrict
       [(''terms'',
         zRefine uniqueTermIds ''All term IDs must be unique within a batch''
           (zArray (Some (1, ''Batch must contain at least 1 term'')) GlossaryTermSchema))]"


section \<open>Batch validation (validate-batch script)\<close>

text \<open>
  \<open>validateZodSchema\<close>: \<^verbatim>\<open>GlossaryBatchSchema.parse(data)\<close> throws when the parse has
  issues. The error of Zod 4 has no property \<^verbatim>\<open>errors\<close>, so the handler takes its second
  branch and reports one line with \<^verbatim>\<open>error.message\<close>, which is the library's JSON text
  of the issues. That rendering is the parameter \<open>errorMessage\<close>.
\<close>

definition validateZodSchema :: "(ZodIssue list \<Rightarrow> string) \<Rightarrow> json \<Rightarrow> string list" where
  "validateZodSchema errorMessage data =
     (let errs = issues (GlossaryBatchSchema [] (Some data))
      in if errs = [] then []
         else [''Zod validation failed: ''
               @ (if errorMessage errs \<noteq> [] then errorMessage errs else ''Unknown error'')])"

text \<open>
  The cast \<^verbatim>\<open>data as GlossaryBatch\<close> converts nothing: the later phases read the payload
  itself. \<open>asGlossaryBatch\<close> is the batch they read, and \<open>None\<close> when a property they
  read is not there. On a payload that has passed the Zod pass this happens only for a
  term without the key \<^verbatim>\<open>relationships\<close> (Zod fills in its default, the payload keeps
  \<^verbatim>\<open>undefined\<close>), where \<^verbatim>\<open>term.relationships.forEach\<close> throws a \<^verbatim>\<open>TypeError\<close>.
  \<^verbatim>\<open>synonyms\<close> and \<^verbatim>\<open>tags\<close> are read by no phase.
\<close>

definition asString :: "json option \<Rightarrow> string option" where
  "asString v = (case v of Some (JStr s) \<Rightarrow> Some s | _ \<Rightarrow> None)"

definition asArray :: "(json \<Rightarrow> 'a option) \<Rightarrow> json option \<Rightarrow> 'a list option" where
  "asArray element v = (case v of Some (JArr xs) \<Rightarrow> those (map element xs) | _ \<Rightarrow> None)"

definition asSection :: "json \<Rightarrow> GlossarySection option" where
  "asSection v = map_option (\<lambda>s. \<lparr> content = s \<rparr>) (asString (field v ''content''))"

definition asSections :: "json option \<Rightarrow> (string \<times> GlossarySection) list option" where
  "asSections v =
     (case v of
        Some (JObj kvs) \<Rightarrow> those (map (\<lambda>(k, x). map_option (Pair k) (asSection x)) kvs)
      | _ \<Rightarrow> None)"

definition asRelationship :: "json \<Rightarrow> SemanticRelationship option" where
  "asRelationship v =
     (case (asString (field v ''termId''), asString (field v ''type'')) of
        (Some t, Some ty) \<Rightarrow>
          Some \<lparr> termId = t, rel_type = ty, description = asString (field v ''description'') \<rparr>
      | _ \<Rightarrow> None)"

definition stringsOrEmpty :: "json option \<Rightarrow> string list" where
  "stringsOrEmpty v = (case asArray (\<lambda>x. asString (Some x)) v of Some xs \<Rightarrow> xs | None \<Rightarrow> [])"

definition asTerm :: "json \<Rightarrow> GlossaryTerm option" where
  "asTerm v =
     (case (asString (field v ''id''), asString (field v ''title''),
            asString (field v ''category''), asSections (field v ''sections''),
            asArray asRelationship (field v ''relationships''),
            asString (field v ''createdAt''), asString (field v ''updatedAt'')) of
        (Some i, Some t, Some c, Some ss, Some rs, Some ca, Some ua) \<Rightarrow>
          Some \<lparr> term_id = i, title = t, category = c, sections = ss,
                 synonyms = stringsOrEmpty (field v ''synonyms''),
                 tags = stringsOrEmpty (field v ''tags''),
                 relationships = rs, term_createdAt = ca, updatedAt = ua \<rparr>
      | _ \<Rightarrow> None)"

definition asGlossaryBatch :: "json \<Rightarrow> GlossaryBatch option" where
  "asGlossaryBatch data = map_option (\<lambda>ts. \<lparr> terms = ts \<rparr>) (asArray asTerm (field data ''terms''))"

text \<open>The six patterns of \<open>checkForMarkdown\<close>, each with its name.\<close>

definition markdownPatterns :: "(regex \<times> string) list" where
  "markdownPatterns =
     [(boldPattern, ''bold (**text**)''),
      (italicPattern, ''italic (*text*)''),
      (underscorePattern, ''italic (_text_)''),
      (headerPattern, ''headers (#)''),
      (linkPattern, ''links ([text](url))''),
      (imagePattern, ''images (![alt](url))'')]"

definition markdownMessage :: "string \<Rightarrow> string \<Rightarrow> string \<Rightarrow> string" where
  "markdownMessage tid sectionName name =
     ''Term '' @ [CHR 0x22] @ tid @ [CHR 0x22] @ '' section '' @ [CHR 0x22] @ sectionName
       @ [CHR 0x22] @ '' contains '' @ name @ '' - plain text only!''"

definition checkForMarkdown :: "GlossaryBatch \<Rightarrow> string list" where
  "checkForMarkdown batch =
     concat (map (\<lambda>term.
       concat (map (\<lambda>(sectionName, section).
         if content section \<noteq> []
         then concat (map (\<lambda>(pattern, name).
                if regexTest pattern (content section)
                then [markdownMessage (term_id term) sectionName name] else [])
              markdownPatterns)
         else [])
       (sections term)))
     (terms batch))"

text \<open>
  What \<open>validateBatch\<close> reads from the file system: the batch files (by path, each the
  result of \<open>loadJsonFile\<close>: the parsed payload, or the message of the error thrown), the
  terms of \<^verbatim>\<open>glossaryData.json\<close> (\<open>None\<close> when the file is missing or cannot be loaded),
  and the manifest, the one file the scripts write (\<open>None\<close> when it does not exist).
\<close>

record world =
  batchFile :: "string \<Rightarrow> string + json"
  glossaryData :: "GlossaryTerm list option"
  manifestFile :: "BatchManifest option"

definition loadExistingTerms :: "world \<Rightarrow> GlossaryTerm list" where
  "loadExistingTerms w = (case glossaryData w of None \<Rightarrow> [] | Some ts \<Rightarrow> ts)"

text \<open>
  The numbered steps that \<open>validateBatch\<close> announces on the console, in the order they
  are printed: the record of which phases ran.
\<close>

datatype phase = JsonSchemaPhase | ZodPhase | MarkdownPhase | CrossRefPhase | QuizPhase

datatype failure = TypeError

text \<open>
  \<open>validateBatch\<close>. The JSON Schema file \<^verbatim>\<open>schemas/batch.schema.json\<close> is not part of
  the sources, so the first pass is the parameter \<open>validateJsonSchema\<close>: the error lines
  that Ajv reports for a payload.
\<close>

definition validateBatch ::
  "(json \<Rightarrow> string list) \<Rightarrow> (ZodIssue list \<Rightarrow> string) \<Rightarrow> world \<Rightarrow> string
     \<Rightarrow> failure + (ValidationResult \<times> phase list)" where
  "validateBatch validateJsonSchema errorMessage w filePath =
     (case batchFile w filePath of
        Inl message \<Rightarrow>
          Inr (\<lparr> valid = False, errors = [''Failed to load file: '' @ message], warnings = [],
                 vr_termCount = 0, vr_categories = [] \<rparr>, [])
      | Inr data \<Rightarrow>
          (let jsonSchemaErrors = validateJsonSchema data;
               zodErrors = validateZodSchema errorMessage data;
               errors = jsonSchemaErrors @ zodErrors
           in if length errors > 0
              then Inr (\<lparr> valid = False, errors = errors, warnings = [],
                          vr_termCount = 0, vr_categories = [] \<rparr>, [JsonSchemaPhase, ZodPhase])
              else
                (case asGlossaryBatch data of
                   None \<Rightarrow> Inl TypeError
                 | Some batch \<Rightarrow>
                     (let markdownWarnings = checkForMarkdown batch;
                          existingTerms = loadExistingTerms w;
                          crossRefErrors = validateCrossReferences batch existingTerms;
                          errors' = errors @ crossRefErrors;
                          quizWarnings = checkQuizRequirements batch existingTerms;
                          warnings = markdownWarnings @ quizWarnings
                      in Inr (\<lparr> valid = (length errors' = 0), errors = errors',
                                 warnings = warnings,
                                 vr_termCount = length (terms batch),
                                 vr_categories = newSet (map category (terms batch)) \<rparr>,
                              [JsonSchemaPhase, ZodPhase, MarkdownPhase, CrossRefPhase,
                               QuizPhase])))))"

text \<open>
  \<open>main\<close> of the validation script, called with a path: the exit code and the file
  system it leaves. The script only reads files; a file that does not exist
  (\<open>existsSync\<close> is \<^verbatim>\<open>fs.existsSync\<close>), an invalid batch and an uncaught exception exit
  with 1, a valid batch exits with 0 whether or not it has warnings.
\<close>

definition validateMain ::
  "(json \<Rightarrow> string list) \<Rightarrow> (ZodIssue list \<Rightarrow> string) \<Rightarrow> (string \<Rightarrow> bool) \<Rightarrow> world
     \<Rightarrow> string \<Rightarrow> nat \<times> world" where
  "validateMain validateJsonSchema errorMessage existsSync w filePath =
     (if \<not> existsSync filePath then (1, w)
      else case validateBatch validateJsonSchema errorMessage w filePath of
             Inl exn \<Rightarrow> (1, w)
           | Inr (result, steps) \<Rightarrow> (if \<not> valid result then (1, w) else (0, w)))"

text \<open>
  \<open>main\<close> of the manifest script on a batch that has been loaded: the manifest file is
  rewritten with the result of \<open>updateManifest\<close>.
\<close>

definition updateManifestMain ::
  "string \<Rightarrow> string \<Rightarrow> string \<Rightarrow> GlossaryBatch \<Rightarrow> world \<Rightarrow> world" where
  "updateManifestMain relPath now batchPath batch w =
     w \<lparr> manifestFile := Some (updateManifest relPath now batchPath batch (manifestFile w)) \<rparr>"


section \<open>Vocabulary of the properties\<close>

text \<open>
  \<open>newestFirst a b\<close>: both timestamps are dates, and \<open>a\<close> is not older than \<open>b\<close>. A
  manifest is in its canonical order when \<open>newestFirst\<close> holds from every entry to every
  later one.
\<close>

definition newestFirst :: "BatchManifestEntry \<Rightarrow> BatchManifestEntry \<Rightarrow> bool" where
  "newestFirst a b =
     (case (dateGetTime (createdAt a), dateGetTime (createdAt b)) of
        (Some ta, Some tb) \<Rightarrow> tb \<le> ta
      | _ \<Rightarrow> False)"

text \<open>
  \<open>unresolved batch existingTerms rel\<close>: the target of the relationship is the id of no
  term of the batch and of no term of the corpus.
\<close>

definition unresolved :: "GlossaryBatch \<Rightarrow> GlossaryTerm list \<Rightarrow> SemanticRelationship \<Rightarrow> bool" where
  "unresolved batch existingTerms rel =
     (termId rel \<notin> set (map term_id (terms batch)) \<union> set (map term_id existingTerms))"

text \<open>The batch without the relationships that point to the term that carries them.\<close>

definition dropSelfReferences :: "GlossaryBatch \<Rightarrow> GlossaryBatch" where
  "dropSelfReferences batch =
     \<lparr> terms = map (\<lambda>t. t \<lparr> relationships :=
                         filter (\<lambda>rel. termId rel \<noteq> term_id t) (relationships t) \<rparr>)
                 (terms batch) \<rparr>"

text \<open>
  The number of terms of a category in a list of terms, and the combined count of a
  category over the corpus and the batch. \<open>tally\<close> reads a table of counts, with 0 for a
  category that has no row.
\<close>

definition countIn :: "string \<Rightarrow> GlossaryTerm list \<Rightarrow> nat" where
  "countIn cat ts = length (filter (\<lambda>t. category t = cat) ts)"

definition combinedCount :: "GlossaryBatch \<Rightarrow> GlossaryTerm list \<Rightarrow> string \<Rightarrow> nat" where
  "combinedCount batch existingTerms cat = countIn cat existingTerms + countIn cat (terms batch)"

definition tally :: "(string \<times> nat) list \<Rightarrow> string \<Rightarrow> nat" where
  "tally m c = (case map_of m c of None \<Rightarrow> 0 | Some n \<Rightarrow> n)"

text \<open>The message of the kebab-case check on the id of a term.\<close>

definition kebabMessage :: string where
  "kebabMessage = ''ID must be in kebab-case format (e.g., '' @ [CHR 0x22] @ ''flight-level''
                     @ [CHR 0x22] @ '')''"

text \<open>The five keys that the schema of \<^verbatim>\<open>sections\<close> knows.\<close>

definition sectionNames :: "string list" where
  "sectionNames = [''whatItIs'', ''location'', ''howItWorks'', ''whatYouShouldDo'', ''troubleshooting'']"

text \<open>A schema \<open>reports\<close> when every aborted parse has recorded an issue.\<close>

definition reports :: "schema \<Rightarrow> bool" where
  "reports sch = (\<forall>p inp. aborted (sch p inp) \<longrightarrow> issues (sch p inp) \<noteq> [])"


section \<open>Sample data\<close>

text \<open>
  The JSON document of a batch, as a batch file holds it, and the data of the instances
  below: a manifest entry, a term with one section, a relationship, a file system in which
  every batch path holds the same payload, and a JSON-Schema pass that reports nothing.
\<close>

definition relationshipJson :: "SemanticRelationship \<Rightarrow> json" where
  "relationshipJson r =
     JObj ([(''termId'', JStr (termId r)), (''type'', JStr (rel_type r))]
           @ (case description r of None \<Rightarrow> [] | Some d \<Rightarrow> [(''description'', JStr d)]))"

definition termJson :: "GlossaryTerm \<Rightarrow> json" where
  "termJson t =
     JObj [(''id'', JStr (term_id t)), (''title'', JStr (title t)),
           (''category'', JStr (category t)),
           (''sections'', JObj (map (\<lambda>(k, s). (k, JObj [(''content'', JStr (content s))]))
                                 (sections t))),
           (''synonyms'', JArr (map JStr (synonyms t))),
           (''tags'', JArr (map JStr (tags t))),
           (''relationships'', JArr (map relationshipJson (relationships t))),
           (''createdAt'', JStr (term_createdAt t)), (''updatedAt'', JStr (updatedAt t))]"

definition batchJson :: "GlossaryBatch \<Rightarrow> json" where
  "batchJson b = JObj [(''terms'', JArr (map termJson (terms b)))]"

definition entryAt :: "string \<Rightarrow> string \<Rightarrow> BatchManifestEntry" where
  "entryAt i t = \<lparr> entry_id = i, path = ''data/batches/'' @ i @ ''.json'', createdAt = t,
                   termCount = 1, categories = [''Navigation''] \<rparr>"

definition sampleTerm :: "string \<Rightarrow> string \<Rightarrow> string \<Rightarrow> SemanticRelationship list \<Rightarrow> GlossaryTerm" where
  "sampleTerm i cat text rels =
     \<lparr> term_id = i, title = ''Sample term'', category = cat,
       sections = [(''whatItIs'', \<lparr> content = text \<rparr>)], synonyms = [], tags = [],
       relationships = rels, term_createdAt = ''2025-10-30T00:00:00Z'',
       updatedAt = ''2025-10-30T00:00:00Z'' \<rparr>"

definition related :: "string \<Rightarrow> SemanticRelationship" where
  "related target = \<lparr> termId = target, rel_type = ''related'', description = None \<rparr>"

definition sampleWorld :: "json \<Rightarrow> GlossaryTerm list \<Rightarrow> world" where
  "sampleWorld data corpus =
     \<lparr> batchFile = (\<lambda>p. Inr data), glossaryData = Some corpus, manifestFile = None \<rparr>"

definition noSchemaErrors :: "json \<Rightarrow> string list" where
  "noSchemaErrors data = []"

definition fileExists :: "string \<Rightarrow> bool" where
  "fileExists p = True"

definition navigationCorpus :: "GlossaryTerm list" where
  "navigationCorpus =
     [sampleTerm ''altimeter'' ''Navigation'' ''A sample definition.'' [],
      sampleTerm ''vor-receiver'' ''Navigation'' ''A sample definition.'' [],
      sampleTerm ''glide-slope'' ''Navigation'' ''A sample definition.'' [],
      sampleTerm ''localizer'' ''Navigation'' ''A sample definition.'' [],
      sampleTerm ''marker-beacon'' ''Navigation'' ''A sample definition.'' []]"


section \<open>Properties of the library functions\<close>


lemma set_foldl_setAdd: "set (foldl setAdd acc xs) = set acc \<union> set xs"
  by (induction xs arbitrary: acc) (auto simp: setAdd_def)

lemma distinct_foldl_setAdd: "distinct acc \<Longrightarrow> distinct (foldl setAdd acc xs)"
  by (induction xs arbitrary: acc) (auto simp: setAdd_def)

lemma set_newSet: "set (newSet xs) = set xs"
  by (simp add: newSet_def set_foldl_setAdd)

lemma distinct_newSet: "distinct (newSet xs)"
  by (simp add: newSet_def distinct_foldl_setAdd)

lemma findIndex_None: "findIndex p xs = None \<longleftrightarrow> (\<forall>x\<in>set xs. \<not> p x)"
  by (induction xs) auto

lemma findIndex_Some:
  "findIndex p xs = Some i \<Longrightarrow> i < length xs \<and> p (xs ! i) \<and> (\<forall>j<i. \<not> p (xs ! j))"
proof (induction xs arbitrary: i)
  case Nil
  then show ?case by simp
next
  case (Cons x xs)
  show ?case
  proof (cases "p x")
    case True
    with Cons.prems show ?thesis by simp
  next
    case False
    with Cons.prems obtain k where k: "findIndex p xs = Some k" "i = Suc k"
      by auto
    from Cons.IH [OF k(1)] False k(2) show ?thesis
      by (auto simp: less_Suc_eq_0_disj)
  qed
qed

lemma mset_sortInsert: "mset (sortInsert f x xs) = add_mset x (mset xs)"
  by (induction xs) auto

lemma mset_arraySort: "mset (arraySort f xs) = mset xs"
  by (induction xs) (auto simp: mset_sortInsert)

lemma set_arraySort: "set (arraySort f xs) = set xs"
  by (metis mset_arraySort set_mset_mset)

lemma length_arraySort: "length (arraySort f xs) = length xs"
  by (metis mset_arraySort size_mset)

lemma set_sortInsert: "set (sortInsert f x xs) = insert x (set xs)"
  by (metis mset_sortInsert set_mset_add_mset_insert set_mset_mset)

lemma sorted_sortInsert:
  assumes "dateGetTime (createdAt x) \<noteq> None"
    and "\<forall>e\<in>set xs. dateGetTime (createdAt e) \<noteq> None"
    and "sorted_wrt newestFirst xs"
  shows "sorted_wrt newestFirst (sortInsert compareCreatedAt x xs)"
  using assms
proof (induction xs)
  case Nil
  then show ?case by simp
next
  case (Cons y ys)
  from Cons.prems obtain tx ty where t: "dateGetTime (createdAt x) = Some tx"
      "dateGetTime (createdAt y) = Some ty"
    by auto
  show ?case
  proof (cases "sortCompare compareCreatedAt x y \<le> 0")
    case True
    with t have xy: "newestFirst x y"
      by (simp add: sortCompare_def compareCreatedAt_def newestFirst_def)
    have "\<forall>z\<in>set ys. newestFirst x z"
    proof
      fix z assume z: "z \<in> set ys"
      with Cons.prems have yz: "newestFirst y z" by simp
      from z Cons.prems obtain tz where "dateGetTime (createdAt z) = Some tz" by auto
      with xy yz t show "newestFirst x z" by (simp add: newestFirst_def)
    qed
    with True xy Cons.prems show ?thesis by simp
  next
    case False
    with t have yx: "newestFirst y x"
      by (simp add: sortCompare_def compareCreatedAt_def newestFirst_def)
    from Cons.prems have "sorted_wrt newestFirst (sortInsert compareCreatedAt x ys)"
      by (intro Cons.IH) auto
    with False yx Cons.prems show ?thesis
      by (auto simp: set_sortInsert)
  qed
qed

lemma sorted_arraySort:
  "\<forall>e\<in>set xs. dateGetTime (createdAt e) \<noteq> None \<Longrightarrow>
   sorted_wrt newestFirst (arraySort compareCreatedAt xs)"
  by (induction xs) (auto intro!: sorted_sortInsert simp: set_arraySort)

lemma filter_sortInsert:
  assumes "dateGetTime (createdAt x) \<noteq> None"
    and "\<forall>e\<in>set xs. dateGetTime (createdAt e) \<noteq> None"
  shows "filter (\<lambda>e. dateGetTime (createdAt e) = t) (sortInsert compareCreatedAt x xs)
       = filter (\<lambda>e. dateGetTime (createdAt e) = t) (x # xs)"
  using assms
  by (induction xs) (auto simp: sortCompare_def compareCreatedAt_def)

lemma filter_arraySort:
  "\<forall>e\<in>set xs. dateGetTime (createdAt e) \<noteq> None \<Longrightarrow>
   filter (\<lambda>e. dateGetTime (createdAt e) = t) (arraySort compareCreatedAt xs)
     = filter (\<lambda>e. dateGetTime (createdAt e) = t) xs"
  by (induction xs) (auto simp: filter_sortInsert set_arraySort)

section \<open>Properties of the manifest merger\<close>

lemma set_upsertEntry: "set (batches (upsertEntry m e)) \<subseteq> insert e (set (batches m))"
  by (auto simp: upsertEntry_def split: option.splits dest: set_update_subset_insert [THEN subsetD])


lemma upsertEntry_found:
  assumes "findIndex (\<lambda>b. entry_id b = entry_id e) (batches m) = Some i"
  shows "i < length (batches m) \<and> entry_id (batches m ! i) = entry_id e
         \<and> (\<forall>j<i. entry_id (batches m ! j) \<noteq> entry_id e)
         \<and> batches (upsertEntry m e) = (batches m)[i := e]"
  using findIndex_Some [OF assms] assms by (simp add: upsertEntry_def)

lemma upsertEntry_absent:
  assumes "\<forall>b\<in>set (batches m). entry_id b \<noteq> entry_id e"
  shows "batches (upsertEntry m e) = batches m @ [e]"
proof -
  from assms have "findIndex (\<lambda>b. entry_id b = entry_id e) (batches m) = None"
    by (simp add: findIndex_None)
  then show ?thesis by (simp add: upsertEntry_def)
qed

lemma upsertEntry_ids_present:
  assumes "\<exists>b\<in>set (batches m). entry_id b = entry_id e"
  shows "map entry_id (batches (upsertEntry m e)) = map entry_id (batches m)"
proof -
  from assms obtain i where i: "findIndex (\<lambda>b. entry_id b = entry_id e) (batches m) = Some i"
    by (cases "findIndex (\<lambda>b. entry_id b = entry_id e) (batches m)") (auto simp: findIndex_None)
  from upsertEntry_found [OF i] show ?thesis
    by (simp add: map_update list_update_same_conv)
qed

lemma upsertEntry_ids_absent:
  assumes "\<forall>b\<in>set (batches m). entry_id b \<noteq> entry_id e"
  shows "map entry_id (batches (upsertEntry m e)) = map entry_id (batches m) @ [entry_id e]"
  by (simp add: upsertEntry_absent [OF assms])

lemma upsertEntry_member: "\<exists>b\<in>set (batches (upsertEntry m e)). entry_id b = entry_id e"
proof (cases "findIndex (\<lambda>b. entry_id b = entry_id e) (batches m)")
  case None
  then show ?thesis by (simp add: upsertEntry_def)
next
  case (Some i)
  from upsertEntry_found [OF Some] show ?thesis
    by (auto simp: set_update_memI)
qed

lemma upsertEntry_distinct:
  assumes "distinct (map entry_id (batches m))"
  shows "distinct (map entry_id (batches (upsertEntry m e)))"
proof (cases "\<exists>b\<in>set (batches m). entry_id b = entry_id e")
  case True
  with assms show ?thesis by (simp add: upsertEntry_ids_present)
next
  case False
  then have "\<forall>b\<in>set (batches m). entry_id b \<noteq> entry_id e" by simp
  from upsertEntry_ids_absent [OF this] assms False show ?thesis by auto
qed

lemma sortManifest_ids:
  "mset (map entry_id (batches (sortManifest m))) = mset (map entry_id (batches m))"
  by (simp add: sortManifest_def mset_arraySort)

lemma entry_id_createManifestEntry [simp]:
  "entry_id (createManifestEntry relPath now batchPath batch) = extractBatchId batchPath"
  by (simp add: createManifestEntry_def Let_def)

lemma distinct_one_match:
  "distinct (map f xs) \<Longrightarrow> \<exists>x\<in>set xs. f x = k \<Longrightarrow> length (filter (\<lambda>x. f x = k) xs) = 1"
proof (induction xs)
  case Nil
  then show ?case by simp
next
  case (Cons x xs)
  show ?case
  proof (cases "f x = k")
    case True
    with Cons.prems have "\<forall>y\<in>set xs. f y \<noteq> k" by (auto simp: image_iff)
    then have "filter (\<lambda>x. f x = k) xs = []" by (simp add: filter_empty_conv)
    with True show ?thesis by simp
  next
    case False
    with Cons show ?thesis by simp
  qed
qed

lemma filter_update_other:
  assumes "i < length xs" and "\<not> P (xs ! i)" and "\<not> P e"
  shows "filter P (xs[i := e]) = filter P xs"
  using assms
proof (induction xs arbitrary: i)
  case Nil
  then show ?case by simp
next
  case (Cons x xs)
  then show ?case by (cases i) auto
qed

lemma updateManifest_sorted_upsert:
  "updateManifest relPath now batchPath batch mf
     = sortManifest (upsertEntry (loadManifest mf) (createManifestEntry relPath now batchPath batch))"
  by (simp add: updateManifest_def Let_def)

text \<open>
  Claim C2. Merging a batch into the manifest is an idempotent upsert keyed by the batch id.
  If the loaded manifest has an entry with the id of the batch, the merge replaces the
  first such entry where it stands and reorders: the saved manifest is \<open>sortManifest\<close> of
  the loaded list updated at that one index, and has as many entries as before. If no
  entry has the id, the saved manifest is \<open>sortManifest\<close> of the loaded list with the new
  entry appended, one entry more. In both cases the new entry is in the saved manifest
  and the entries with another id are those of the loaded manifest. Hence merging the
  same batch file twice in succession, starting from no manifest, yields a manifest with
  exactly one entry, the entry of the second merge. More generally a second merge of the
  same file leaves the ids of the manifest as the first merge left them, and a manifest
  whose ids were distinct has distinct ids after the merge, exactly one of them the id of
  the batch.
\<close>

theorem updateManifest_idempotent_upsert:
  "((\<exists>b\<in>set (batches (loadManifest mf)). entry_id b = extractBatchId batchPath) \<longrightarrow>
      (\<exists>i<length (batches (loadManifest mf)).
         entry_id (batches (loadManifest mf) ! i) = extractBatchId batchPath
         \<and> (\<forall>j<i. entry_id (batches (loadManifest mf) ! j) \<noteq> extractBatchId batchPath)
         \<and> updateManifest relPath now batchPath batch mf
             = sortManifest \<lparr> batches = (batches (loadManifest mf))
                                [i := createManifestEntry relPath now batchPath batch] \<rparr>)
      \<and> length (batches (updateManifest relPath now batchPath batch mf))
          = length (batches (loadManifest mf)))
   \<and> ((\<forall>b\<in>set (batches (loadManifest mf)). entry_id b \<noteq> extractBatchId batchPath) \<longrightarrow>
        updateManifest relPath now batchPath batch mf
          = sortManifest \<lparr> batches = batches (loadManifest mf)
                             @ [createManifestEntry relPath now batchPath batch] \<rparr>
        \<and> length (batches (updateManifest relPath now batchPath batch mf))
            = Suc (length (batches (loadManifest mf))))
   \<and> createManifestEntry relPath now batchPath batch
       \<in> set (batches (updateManifest relPath now batchPath batch mf))
   \<and> mset (filter (\<lambda>b. entry_id b \<noteq> extractBatchId batchPath)
              (batches (updateManifest relPath now batchPath batch mf)))
       = mset (filter (\<lambda>b. entry_id b \<noteq> extractBatchId batchPath) (batches (loadManifest mf)))
   \<and> batches (updateManifest relPath2 now2 batchPath batch2
               (Some (updateManifest relPath now batchPath batch None)))
       = [createManifestEntry relPath2 now2 batchPath batch2]
   \<and> mset (map entry_id (batches (updateManifest relPath2 now2 batchPath batch2
               (Some (updateManifest relPath now batchPath batch mf)))))
       = mset (map entry_id (batches (updateManifest relPath now batchPath batch mf)))
   \<and> (distinct (map entry_id (batches (loadManifest mf))) \<longrightarrow>
        distinct (map entry_id (batches (updateManifest relPath now batchPath batch mf)))
        \<and> length (filter (\<lambda>b. entry_id b = extractBatchId batchPath)
                     (batches (updateManifest relPath now batchPath batch mf))) = 1)"
proof -
  let ?bs = "batches (loadManifest mf)"
  let ?e = "createManifestEntry relPath now batchPath batch"
  let ?k = "extractBatchId batchPath"
  let ?u = "upsertEntry (loadManifest mf) ?e"
  let ?o = "updateManifest relPath now batchPath batch mf"
  note upd = updateManifest_sorted_upsert [of relPath now batchPath batch mf]
  have len: "length (batches ?o) = length (batches ?u)"
    by (simp add: upd sortManifest_def length_arraySort)
  have c1: "(\<exists>b\<in>set ?bs. entry_id b = ?k) \<longrightarrow>
      (\<exists>i<length ?bs. entry_id (?bs ! i) = ?k \<and> (\<forall>j<i. entry_id (?bs ! j) \<noteq> ?k)
         \<and> ?o = sortManifest \<lparr> batches = ?bs[i := ?e] \<rparr>)
      \<and> length (batches ?o) = length ?bs"
  proof
    assume "\<exists>b\<in>set ?bs. entry_id b = ?k"
    then obtain i where i: "findIndex (\<lambda>b. entry_id b = entry_id ?e) ?bs = Some i"
      by (cases "findIndex (\<lambda>b. entry_id b = entry_id ?e) ?bs") (auto simp: findIndex_None)
    from upsertEntry_found [OF i]
    have f: "i < length ?bs" "entry_id (?bs ! i) = ?k" "\<forall>j<i. entry_id (?bs ! j) \<noteq> ?k"
      "batches ?u = ?bs[i := ?e]"
      by simp_all
    from i have "?u = \<lparr> batches = ?bs[i := ?e] \<rparr>"
      by (simp add: upsertEntry_def)
    then have "?o = sortManifest \<lparr> batches = ?bs[i := ?e] \<rparr>"
      by (simp only: upd)
    moreover from f(4) have "length (batches ?o) = length ?bs"
      by (simp add: len)
    ultimately show "(\<exists>i<length ?bs. entry_id (?bs ! i) = ?k
         \<and> (\<forall>j<i. entry_id (?bs ! j) \<noteq> ?k)
         \<and> ?o = sortManifest \<lparr> batches = ?bs[i := ?e] \<rparr>)
      \<and> length (batches ?o) = length ?bs"
      using f(1,2,3) by blast
  qed
  have c2: "(\<forall>b\<in>set ?bs. entry_id b \<noteq> ?k) \<longrightarrow>
        ?o = sortManifest \<lparr> batches = ?bs @ [?e] \<rparr>
        \<and> length (batches ?o) = Suc (length ?bs)"
  proof
    assume "\<forall>b\<in>set ?bs. entry_id b \<noteq> ?k"
    then have "findIndex (\<lambda>b. entry_id b = entry_id ?e) ?bs = None"
      by (simp add: findIndex_None)
    then have u: "?u = \<lparr> batches = ?bs @ [?e] \<rparr>"
      by (simp add: upsertEntry_def)
    then have "?o = sortManifest \<lparr> batches = ?bs @ [?e] \<rparr>"
      by (simp only: upd)
    moreover from u have "length (batches ?o) = Suc (length ?bs)"
      by (simp add: len)
    ultimately show "?o = sortManifest \<lparr> batches = ?bs @ [?e] \<rparr>
        \<and> length (batches ?o) = Suc (length ?bs)"
      by simp
  qed
  have inu: "?e \<in> set (batches ?u)"
  proof (cases "findIndex (\<lambda>b. entry_id b = entry_id ?e) ?bs")
    case None
    then show ?thesis by (simp add: upsertEntry_def)
  next
    case (Some i)
    from upsertEntry_found [OF Some] show ?thesis
      by (simp add: set_update_memI)
  qed
  then have c3: "?e \<in> set (batches ?o)"
    by (simp add: upd sortManifest_def set_arraySort)
  have others: "filter (\<lambda>b. entry_id b \<noteq> ?k) (batches ?u) = filter (\<lambda>b. entry_id b \<noteq> ?k) ?bs"
  proof (cases "findIndex (\<lambda>b. entry_id b = entry_id ?e) ?bs")
    case None
    then show ?thesis by (simp add: upsertEntry_def)
  next
    case (Some i)
    from upsertEntry_found [OF Some] show ?thesis
      by (simp add: filter_update_other)
  qed
  have "mset (filter (\<lambda>b. entry_id b \<noteq> ?k) (batches ?o))
          = filter_mset (\<lambda>b. entry_id b \<noteq> ?k) (mset (arraySort compareCreatedAt (batches ?u)))"
    by (simp add: upd sortManifest_def)
  also have "\<dots> = mset (filter (\<lambda>b. entry_id b \<noteq> ?k) (batches ?u))"
    by (simp add: mset_arraySort)
  finally have c4: "mset (filter (\<lambda>b. entry_id b \<noteq> ?k) (batches ?o))
                      = mset (filter (\<lambda>b. entry_id b \<noteq> ?k) ?bs)"
    by (simp only: others)
  have c5: "batches (updateManifest relPath2 now2 batchPath batch2
               (Some (updateManifest relPath now batchPath batch None)))
       = [createManifestEntry relPath2 now2 batchPath batch2]"
    by (simp add: updateManifest_def loadManifest_def sortManifest_def upsertEntry_def Let_def)
  have c6: "mset (map entry_id (batches (updateManifest relPath2 now2 batchPath batch2 (Some ?o))))
       = mset (map entry_id (batches ?o))"
  proof -
    let ?e2 = "createManifestEntry relPath2 now2 batchPath batch2"
    from c3 have "\<exists>b\<in>set (batches ?o). entry_id b = entry_id ?e2"
      by (intro bexI [of _ ?e]) simp_all
    then have eq: "map entry_id (batches (upsertEntry ?o ?e2)) = map entry_id (batches ?o)"
      by (rule upsertEntry_ids_present)
    have step: "updateManifest relPath2 now2 batchPath batch2 (Some ?o)
                  = sortManifest (upsertEntry ?o ?e2)"
      by (simp add: updateManifest_def [of relPath2] loadManifest_def Let_def)
    have "mset (map entry_id (batches (sortManifest (upsertEntry ?o ?e2))))
            = mset (map entry_id (batches (upsertEntry ?o ?e2)))"
      by (rule sortManifest_ids)
    also have "\<dots> = mset (map entry_id (batches ?o))"
      by (simp only: eq)
    finally show ?thesis
      by (simp only: step)
  qed
  have c7: "distinct (map entry_id ?bs) \<longrightarrow>
        distinct (map entry_id (batches ?o))
        \<and> length (filter (\<lambda>b. entry_id b = ?k) (batches ?o)) = 1"
  proof
    assume d: "distinct (map entry_id ?bs)"
    then have du: "distinct (map entry_id (batches ?u))"
      by (rule upsertEntry_distinct)
    have "mset (map entry_id (batches ?o)) = mset (map entry_id (batches ?u))"
      by (simp add: upd sortManifest_def mset_arraySort)
    with du have dist: "distinct (map entry_id (batches ?o))"
      by (metis mset_eq_imp_distinct_iff)
    from c3 have mem: "\<exists>b\<in>set (batches ?o). entry_id b = ?k"
      by (intro bexI [of _ ?e]) simp_all
    from distinct_one_match [OF dist mem] dist
    show "distinct (map entry_id (batches ?o))
        \<and> length (filter (\<lambda>b. entry_id b = ?k) (batches ?o)) = 1"
      by simp
  qed
  from c1 c2 c3 c4 c5 c6 c7 show ?thesis
    by (intro conjI)
qed

text \<open>
  A manifest holds the entries of two batches. Merging the file of the older one again
  replaces its entry, keeps the other and leaves two entries, one of them with the id of
  the batch; merging the file of a third batch appends its entry, and the reordering
  moves it to the front. The same batch file merged twice into an absent manifest leaves
  one entry.
\<close>

theorem updateManifest_idempotent_upsert_witness:
  "batches (updateManifest ''data/batches/2025-01-01-batch-001.json'' ''2025-04-01T00:00:00.000Z''
              ''data/batches/2025-01-01-batch-001.json'' \<lparr> terms = [] \<rparr>
              (Some \<lparr> batches = [entryAt ''2025-03-01-batch-001'' ''2025-03-01T00:00:00.000Z'',
                                 entryAt ''2025-01-01-batch-001'' ''2025-01-01T00:00:00.000Z''] \<rparr>))
     = [\<lparr> entry_id = ''2025-01-01-batch-001'', path = ''data/batches/2025-01-01-batch-001.json'',
          createdAt = ''2025-04-01T00:00:00.000Z'', termCount = 0, categories = [] \<rparr>,
        entryAt ''2025-03-01-batch-001'' ''2025-03-01T00:00:00.000Z'']
   \<and> length (batches (updateManifest ''data/batches/2025-01-01-batch-001.json''
                        ''2025-04-01T00:00:00.000Z'' ''data/batches/2025-01-01-batch-001.json''
                        \<lparr> terms = [] \<rparr>
                        (Some \<lparr> batches = [entryAt ''2025-03-01-batch-001'' ''2025-03-01T00:00:00.000Z'',
                                           entryAt ''2025-01-01-batch-001'' ''2025-01-01T00:00:00.000Z''] \<rparr>)))
       = 2
   \<and> length (filter (\<lambda>b. entry_id b = ''2025-01-01-batch-001'')
        (batches (updateManifest ''data/batches/2025-01-01-batch-001.json''
                    ''2025-04-01T00:00:00.000Z'' ''data/batches/2025-01-01-batch-001.json''
                    \<lparr> terms = [] \<rparr>
                    (Some \<lparr> batches = [entryAt ''2025-03-01-batch-001'' ''2025-03-01T00:00:00.000Z'',
                                       entryAt ''2025-01-01-batch-001'' ''2025-01-01T00:00:00.000Z''] \<rparr>))))
       = 1
   \<and> batches (updateManifest ''data/batches/2025-04-01-batch-001.json'' ''2025-04-01T00:00:00.000Z''
              ''data/batches/2025-04-01-batch-001.json'' \<lparr> terms = [] \<rparr>
              (Some \<lparr> batches = [entryAt ''2025-03-01-batch-001'' ''2025-03-01T00:00:00.000Z'',
                                 entryAt ''2025-01-01-batch-001'' ''2025-01-01T00:00:00.000Z''] \<rparr>))
     = [\<lparr> entry_id = ''2025-04-01-batch-001'', path = ''data/batches/2025-04-01-batch-001.json'',
          createdAt = ''2025-04-01T00:00:00.000Z'', termCount = 0, categories = [] \<rparr>,
        entryAt ''2025-03-01-batch-001'' ''2025-03-01T00:00:00.000Z'',
        entryAt ''2025-01-01-batch-001'' ''2025-01-01T00:00:00.000Z'']
   \<and> batches (updateManifest ''data/batches/2025-10-30-batch-001.json'' ''2025-10-31T08:00:00.000Z''
              ''data/batches/2025-10-30-batch-001.json'' \<lparr> terms = [] \<rparr>
              (Some (updateManifest ''data/batches/2025-10-30-batch-001.json''
                       ''2025-10-30T12:00:00.000Z'' ''data/batches/2025-10-30-batch-001.json''
                       \<lparr> terms = [] \<rparr> None)))
     = [\<lparr> entry_id = ''2025-10-30-batch-001'', path = ''data/batches/2025-10-30-batch-001.json'',
          createdAt = ''2025-10-31T08:00:00.000Z'', termCount = 0, categories = [] \<rparr>]"
proof -
  let ?mf = "Some \<lparr> batches = [entryAt ''2025-03-01-batch-001'' ''2025-03-01T00:00:00.000Z'',
                                 entryAt ''2025-01-01-batch-001'' ''2025-01-01T00:00:00.000Z''] \<rparr>"
  let ?old = "''data/batches/2025-01-01-batch-001.json''"
  let ?new = "''data/batches/2025-04-01-batch-001.json''"
  let ?now = "''2025-04-01T00:00:00.000Z''"
  have present: "\<exists>b\<in>set (batches (loadManifest ?mf)). entry_id b = extractBatchId ?old"
    by code_simp
  have absent: "\<forall>b\<in>set (batches (loadManifest ?mf)). entry_id b \<noteq> extractBatchId ?new"
    by code_simp
  have two: "length (batches (loadManifest ?mf)) = 2"
    by (simp add: loadManifest_def)
  have c2: "length (batches (updateManifest ?old ?now ?old \<lparr> terms = [] \<rparr> ?mf)) = 2"
    using updateManifest_idempotent_upsert [of ?mf ?old ?old ?now "\<lparr> terms = [] \<rparr>",
        THEN conjunct1, THEN mp, OF present, THEN conjunct2]
    by (simp only: two)
  have c1: "batches (updateManifest ?old ?now ?old \<lparr> terms = [] \<rparr> ?mf)
     = [\<lparr> entry_id = ''2025-01-01-batch-001'', path = ''data/batches/2025-01-01-batch-001.json'',
          createdAt = ''2025-04-01T00:00:00.000Z'', termCount = 0, categories = [] \<rparr>,
        entryAt ''2025-03-01-batch-001'' ''2025-03-01T00:00:00.000Z'']"
    by code_simp
  have sorted3: "batches (sortManifest \<lparr> batches = batches (loadManifest ?mf)
                     @ [createManifestEntry ?new ?now ?new \<lparr> terms = [] \<rparr>] \<rparr>)
     = [\<lparr> entry_id = ''2025-04-01-batch-001'', path = ''data/batches/2025-04-01-batch-001.json'',
          createdAt = ''2025-04-01T00:00:00.000Z'', termCount = 0, categories = [] \<rparr>,
        entryAt ''2025-03-01-batch-001'' ''2025-03-01T00:00:00.000Z'',
        entryAt ''2025-01-01-batch-001'' ''2025-01-01T00:00:00.000Z'']"
    by code_simp
  have c3: "batches (updateManifest ?new ?now ?new \<lparr> terms = [] \<rparr> ?mf)
     = [\<lparr> entry_id = ''2025-04-01-batch-001'', path = ''data/batches/2025-04-01-batch-001.json'',
          createdAt = ''2025-04-01T00:00:00.000Z'', termCount = 0, categories = [] \<rparr>,
        entryAt ''2025-03-01-batch-001'' ''2025-03-01T00:00:00.000Z'',
        entryAt ''2025-01-01-batch-001'' ''2025-01-01T00:00:00.000Z'']"
    using updateManifest_idempotent_upsert [of ?mf ?new ?new ?now "\<lparr> terms = [] \<rparr>",
        THEN conjunct2, THEN conjunct1, THEN mp, OF absent, THEN conjunct1]
    by (simp only: sorted3)
  have e: "createManifestEntry ''data/batches/2025-10-30-batch-001.json'' ''2025-10-31T08:00:00.000Z''
              ''data/batches/2025-10-30-batch-001.json'' \<lparr> terms = [] \<rparr>
     = \<lparr> entry_id = ''2025-10-30-batch-001'', path = ''data/batches/2025-10-30-batch-001.json'',
          createdAt = ''2025-10-31T08:00:00.000Z'', termCount = 0, categories = [] \<rparr>"
    by code_simp
  have c4: "batches (updateManifest ''data/batches/2025-10-30-batch-001.json'' ''2025-10-31T08:00:00.000Z''
              ''data/batches/2025-10-30-batch-001.json'' \<lparr> terms = [] \<rparr>
              (Some (updateManifest ''data/batches/2025-10-30-batch-001.json''
                       ''2025-10-30T12:00:00.000Z'' ''data/batches/2025-10-30-batch-001.json''
                       \<lparr> terms = [] \<rparr> None)))
     = [\<lparr> entry_id = ''2025-10-30-batch-001'', path = ''data/batches/2025-10-30-batch-001.json'',
          createdAt = ''2025-10-31T08:00:00.000Z'', termCount = 0, categories = [] \<rparr>]"
    using updateManifest_idempotent_upsert [of "None" "''data/batches/2025-10-30-batch-001.json''"
        "''data/batches/2025-10-30-batch-001.json''" "''2025-10-30T12:00:00.000Z''"
        "\<lparr> terms = [] \<rparr>" "''data/batches/2025-10-30-batch-001.json''"
        "''2025-10-31T08:00:00.000Z''" "\<lparr> terms = [] \<rparr>",
        THEN conjunct2, THEN conjunct2, THEN conjunct2, THEN conjunct2, THEN conjunct1]
    by (simp only: e)
  have d: "distinct (map entry_id (batches (loadManifest ?mf)))"
    by (simp add: loadManifest_def entryAt_def)
  have k: "extractBatchId ?old = ''2025-01-01-batch-001''"
    by code_simp
  have c5: "length (filter (\<lambda>b. entry_id b = ''2025-01-01-batch-001'')
              (batches (updateManifest ?old ?now ?old \<lparr> terms = [] \<rparr> ?mf))) = 1"
    using updateManifest_idempotent_upsert [of ?mf ?old ?old ?now "\<lparr> terms = [] \<rparr>",
        THEN conjunct2, THEN conjunct2, THEN conjunct2, THEN conjunct2, THEN conjunct2,
        THEN conjunct2, THEN mp, OF d, THEN conjunct2]
    by (simp only: k)
  from c1 c2 c5 c3 c4 show ?thesis
    by (intro conjI)
qed

text \<open>
  Claim C6. After every merge the entries of the manifest are ordered descending by
  \<open>createdAt\<close>: when the timestamps of the manifest and of the new entry are dates,
  \<open>newestFirst\<close> holds from every entry of the result to every later one. The reordering
  keeps the entries of the upsert (as a multiset) and is stable: entries with the same
  time keep their order. The instance after the theorem is the example of the claim.
\<close>

theorem updateManifest_sorted_descending:
  assumes "\<forall>e\<in>set (batches (loadManifest mf)). dateGetTime (createdAt e) \<noteq> None"
    and "dateGetTime now \<noteq> None"
  shows "sorted_wrt newestFirst (batches (updateManifest relPath now batchPath batch mf))
       \<and> mset (batches (updateManifest relPath now batchPath batch mf))
           = mset (batches (upsertEntry (loadManifest mf)
                              (createManifestEntry relPath now batchPath batch)))
       \<and> filter (\<lambda>e. dateGetTime (createdAt e) = t)
             (batches (updateManifest relPath now batchPath batch mf))
           = filter (\<lambda>e. dateGetTime (createdAt e) = t)
               (batches (upsertEntry (loadManifest mf)
                          (createManifestEntry relPath now batchPath batch)))"
proof -
  let ?e = "createManifestEntry relPath now batchPath batch"
  let ?u = "batches (upsertEntry (loadManifest mf) ?e)"
  have "createdAt ?e = now"
    by (simp add: createManifestEntry_def Let_def)
  with assms set_upsertEntry [of "loadManifest mf" ?e]
  have ok: "\<forall>e\<in>set ?u. dateGetTime (createdAt e) \<noteq> None"
    by auto
  have eq: "batches (updateManifest relPath now batchPath batch mf) = arraySort compareCreatedAt ?u"
    by (simp add: updateManifest_def sortManifest_def Let_def)
  show ?thesis
    unfolding eq
    using sorted_arraySort [OF ok] filter_arraySort [OF ok] mset_arraySort
    by blast
qed

text \<open>
  Upserting an entry dated 2025-02-01 into a manifest holding entries dated 2025-01-01 and
  2025-03-01 yields the order 2025-03-01, 2025-02-01, 2025-01-01.
\<close>

theorem updateManifest_sorted_descending_witness:
  "map createdAt
     (batches (updateManifest ''data/batches/2025-02-01-batch-001.json'' ''2025-02-01T00:00:00.000Z''
                 ''data/batches/2025-02-01-batch-001.json'' \<lparr> terms = [] \<rparr>
                 (Some \<lparr> batches = [entryAt ''2025-01-01-batch-001'' ''2025-01-01T00:00:00.000Z'',
                                    entryAt ''2025-03-01-batch-001'' ''2025-03-01T00:00:00.000Z''] \<rparr>)))
     = [''2025-03-01T00:00:00.000Z'', ''2025-02-01T00:00:00.000Z'', ''2025-01-01T00:00:00.000Z'']
   \<and> sorted_wrt newestFirst
     (batches (updateManifest ''data/batches/2025-02-01-batch-001.json'' ''2025-02-01T00:00:00.000Z''
                 ''data/batches/2025-02-01-batch-001.json'' \<lparr> terms = [] \<rparr>
                 (Some \<lparr> batches = [entryAt ''2025-01-01-batch-001'' ''2025-01-01T00:00:00.000Z'',
                                    entryAt ''2025-03-01-batch-001'' ''2025-03-01T00:00:00.000Z''] \<rparr>)))"
proof -
  let ?mf = "Some \<lparr> batches = [entryAt ''2025-01-01-batch-001'' ''2025-01-01T00:00:00.000Z'',
                                    entryAt ''2025-03-01-batch-001'' ''2025-03-01T00:00:00.000Z''] \<rparr>"
  have h1: "\<forall>e\<in>set (batches (loadManifest ?mf)). dateGetTime (createdAt e) \<noteq> None"
    by code_simp
  have h2: "dateGetTime ''2025-02-01T00:00:00.000Z'' \<noteq> None"
    by code_simp
  have order: "map createdAt
     (batches (updateManifest ''data/batches/2025-02-01-batch-001.json'' ''2025-02-01T00:00:00.000Z''
                 ''data/batches/2025-02-01-batch-001.json'' \<lparr> terms = [] \<rparr> ?mf))
     = [''2025-03-01T00:00:00.000Z'', ''2025-02-01T00:00:00.000Z'', ''2025-01-01T00:00:00.000Z'']"
    by code_simp
  from updateManifest_sorted_descending [OF h1 h2] order show ?thesis
    by blast
qed


section \<open>Properties of the cross-reference resolver\<close>

lemma concat_map_if:
  "concat (map (\<lambda>x. if P x then [f x] else []) xs) = map f (filter P xs)"
  by (induction xs) auto

lemma validateCrossReferences_eq:
  "validateCrossReferences batch existingTerms =
     concat (map (\<lambda>term. map (\<lambda>rel. crossRefMessage (term_id term) (termId rel))
                          (filter (unresolved batch existingTerms) (relationships term)))
                 (terms batch))"
  by (simp add: validateCrossReferences_def Let_def set_newSet unresolved_def [abs_def]
      concat_map_if)

lemma validateZodSchema_empty:
  "(validateZodSchema errorMessage data = []) = (issues (GlossaryBatchSchema [] (Some data)) = [])"
  by (simp add: validateZodSchema_def Let_def)

lemma split_at_first:
  assumes "c \<notin> set xs" and "c \<notin> set ys" and "xs @ c # r = ys @ c # r'"
  shows "xs = ys \<and> r = r'"
  using assms
proof (induction xs arbitrary: ys)
  case Nil
  then show ?case by (cases ys) auto
next
  case (Cons x xs)
  then show ?case by (cases ys) auto
qed

lemma crossRefMessage_inject:
  assumes "CHR 0x22 \<notin> set tid" and "CHR 0x22 \<notin> set tid'"
    and "crossRefMessage tid target = crossRefMessage tid' target'"
  shows "tid = tid' \<and> target = target'"
proof -
  let ?mid = "'' references unknown term '' @ [CHR 0x22]"
  let ?post = "[CHR 0x22] @ '' in relationships''"
  from assms(3) have e: "tid @ CHR 0x22 # (?mid @ target @ ?post)
                    = tid' @ CHR 0x22 # (?mid @ target' @ ?post)"
    by (simp add: crossRefMessage_def)
  from split_at_first [OF assms(1) assms(2) e]
  have t: "tid = tid'" and r: "?mid @ target @ ?post = ?mid @ target' @ ?post"
    by (rule conjunct1, rule conjunct2)
  from r have "target @ ?post = target' @ ?post"
    by (simp only: same_append_eq)
  then have "target = target'"
    by (simp only: append_same_eq)
  with t show ?thesis by simp
qed

lemma validateBatch_passed:
  assumes "batchFile w filePath = Inr data"
    and "validateJsonSchema data = []"
    and "validateZodSchema errorMessage data = []"
    and "asGlossaryBatch data = Some batch"
  shows "validateBatch validateJsonSchema errorMessage w filePath =
           Inr (\<lparr> valid = (validateCrossReferences batch (loadExistingTerms w) = []),
                  errors = validateCrossReferences batch (loadExistingTerms w),
                  warnings = checkForMarkdown batch
                             @ checkQuizRequirements batch (loadExistingTerms w),
                  vr_termCount = length (terms batch),
                  vr_categories = newSet (map category (terms batch)) \<rparr>,
                [JsonSchemaPhase, ZodPhase, MarkdownPhase, CrossRefPhase, QuizPhase])"
  using assms by (simp add: validateBatch_def Let_def)

text \<open>
  Claim C3. For every batch and corpus, validation emits a cross-reference error for a
  relationship exactly when its \<open>termId\<close> is absent from the union of the ids of the batch
  and the ids of the corpus. The errors are, in order, one message for each \<open>unresolved\<close>
  relationship of each term; every such relationship has its message in the report and
  every message of the report comes from one. There is no error exactly when every target
  is in one of the two sets, so a relationship produces no error once its target is
  present in either. On a payload that has passed the structural passes the report
  carries these errors, and the batch is valid exactly when there is none. The message
  names the offending term and the missing target, each between double quotes, and
  tells them apart: two messages for term ids without a double quote (every id that the
  Zod pass accepts) are equal only if they name the same term and the same target.
\<close>

theorem validateCrossReferences_exact:
  "validateCrossReferences batch existingTerms =
     concat (map (\<lambda>term. map (\<lambda>rel. crossRefMessage (term_id term) (termId rel))
                          (filter (unresolved batch existingTerms) (relationships term)))
                 (terms batch))
   \<and> (\<forall>term\<in>set (terms batch). \<forall>rel\<in>set (relationships term).
         unresolved batch existingTerms rel \<longrightarrow>
           crossRefMessage (term_id term) (termId rel)
             \<in> set (validateCrossReferences batch existingTerms))
   \<and> (\<forall>e\<in>set (validateCrossReferences batch existingTerms).
         \<exists>term\<in>set (terms batch). \<exists>rel\<in>set (relationships term).
           unresolved batch existingTerms rel
           \<and> e = crossRefMessage (term_id term) (termId rel))
   \<and> ((validateCrossReferences batch existingTerms = []) =
        (\<forall>term\<in>set (terms batch). \<forall>rel\<in>set (relationships term).
           termId rel \<in> set (map term_id (terms batch)) \<union> set (map term_id existingTerms)))
   \<and> (batchFile w filePath = Inr data \<and> validateJsonSchema data = []
        \<and> validateZodSchema errorMessage data = [] \<and> asGlossaryBatch data = Some batch
        \<and> loadExistingTerms w = existingTerms \<longrightarrow>
        (\<exists>result steps. validateBatch validateJsonSchema errorMessage w filePath = Inr (result, steps)
           \<and> errors result = validateCrossReferences batch existingTerms
           \<and> valid result =
               (\<forall>term\<in>set (terms batch). \<forall>rel\<in>set (relationships term).
                  \<not> unresolved batch existingTerms rel)))
   \<and> crossRefMessage tid target
       = ''Term '' @ quoted tid @ '' references unknown term '' @ quoted target
         @ '' in relationships''
   \<and> (CHR 0x22 \<notin> set tid \<and> CHR 0x22 \<notin> set tid'
        \<and> crossRefMessage tid target = crossRefMessage tid' target' \<longrightarrow>
          tid = tid' \<and> target = target')"
proof (intro conjI)
  show "crossRefMessage tid target
       = ''Term '' @ quoted tid @ '' references unknown term '' @ quoted target
         @ '' in relationships''"
    by (simp add: crossRefMessage_def quoted_def)
  show "CHR 0x22 \<notin> set tid \<and> CHR 0x22 \<notin> set tid'
        \<and> crossRefMessage tid target = crossRefMessage tid' target' \<longrightarrow>
          tid = tid' \<and> target = target'"
    using crossRefMessage_inject [of tid tid' target target'] by blast
  show eq: "validateCrossReferences batch existingTerms =
     concat (map (\<lambda>term. map (\<lambda>rel. crossRefMessage (term_id term) (termId rel))
                          (filter (unresolved batch existingTerms) (relationships term)))
                 (terms batch))"
    by (rule validateCrossReferences_eq)
  show "\<forall>term\<in>set (terms batch). \<forall>rel\<in>set (relationships term).
         unresolved batch existingTerms rel \<longrightarrow>
           crossRefMessage (term_id term) (termId rel)
             \<in> set (validateCrossReferences batch existingTerms)"
    unfolding eq by auto
  show "\<forall>e\<in>set (validateCrossReferences batch existingTerms).
         \<exists>term\<in>set (terms batch). \<exists>rel\<in>set (relationships term).
           unresolved batch existingTerms rel
           \<and> e = crossRefMessage (term_id term) (termId rel)"
    unfolding eq by auto
  show empty: "(validateCrossReferences batch existingTerms = []) =
        (\<forall>term\<in>set (terms batch). \<forall>rel\<in>set (relationships term).
           termId rel \<in> set (map term_id (terms batch)) \<union> set (map term_id existingTerms))"
    unfolding eq by (auto simp: unresolved_def filter_empty_conv)
  show "batchFile w filePath = Inr data \<and> validateJsonSchema data = []
        \<and> validateZodSchema errorMessage data = [] \<and> asGlossaryBatch data = Some batch
        \<and> loadExistingTerms w = existingTerms \<longrightarrow>
        (\<exists>result steps. validateBatch validateJsonSchema errorMessage w filePath = Inr (result, steps)
           \<and> errors result = validateCrossReferences batch existingTerms
           \<and> valid result =
               (\<forall>term\<in>set (terms batch). \<forall>rel\<in>set (relationships term).
                  \<not> unresolved batch existingTerms rel))"
  proof
    assume a: "batchFile w filePath = Inr data \<and> validateJsonSchema data = []
        \<and> validateZodSchema errorMessage data = [] \<and> asGlossaryBatch data = Some batch
        \<and> loadExistingTerms w = existingTerms"
    then have "validateBatch validateJsonSchema errorMessage w filePath =
           Inr (\<lparr> valid = (validateCrossReferences batch (loadExistingTerms w) = []),
                  errors = validateCrossReferences batch (loadExistingTerms w),
                  warnings = checkForMarkdown batch
                             @ checkQuizRequirements batch (loadExistingTerms w),
                  vr_termCount = length (terms batch),
                  vr_categories = newSet (map category (terms batch)) \<rparr>,
                [JsonSchemaPhase, ZodPhase, MarkdownPhase, CrossRefPhase, QuizPhase])"
      by (intro validateBatch_passed) auto
    with a empty show "\<exists>result steps. validateBatch validateJsonSchema errorMessage w filePath = Inr (result, steps)
           \<and> errors result = validateCrossReferences batch existingTerms
           \<and> valid result =
               (\<forall>term\<in>set (terms batch). \<forall>rel\<in>set (relationships term).
                  \<not> unresolved batch existingTerms rel)"
      by (simp add: unresolved_def)
  qed
qed

text \<open>
  Claim C10. A relationship whose \<open>termId\<close> is the id of the term that carries it is never
  \<open>unresolved\<close>, because the ids of the batch are part of the identifier universe: the
  errors of a batch are those of the batch without its self-references, and a batch whose
  relationships are all self-references passes cross-reference resolution.
\<close>

theorem self_reference_resolves:
  "(term \<in> set (terms batch) \<and> termId rel = term_id term \<longrightarrow>
      \<not> unresolved batch existingTerms rel)
   \<and> validateCrossReferences batch existingTerms
       = validateCrossReferences (dropSelfReferences batch) existingTerms
   \<and> ((\<forall>term\<in>set (terms batch). \<forall>rel\<in>set (relationships term). termId rel = term_id term)
        \<longrightarrow> validateCrossReferences batch existingTerms = [])"
proof (intro conjI impI)
  assume "term \<in> set (terms batch) \<and> termId rel = term_id term"
  then show "\<not> unresolved batch existingTerms rel"
    by (auto simp: unresolved_def)
next
  have ids: "map term_id (terms (dropSelfReferences batch)) = map term_id (terms batch)"
    by (simp add: dropSelfReferences_def comp_def)
  have u: "unresolved (dropSelfReferences batch) existingTerms = unresolved batch existingTerms"
    by (simp add: unresolved_def fun_eq_iff ids)
  have "map (\<lambda>term. map (\<lambda>rel. crossRefMessage (term_id term) (termId rel))
                     (filter (unresolved batch existingTerms) (relationships term)))
          (terms (dropSelfReferences batch))
        = map (\<lambda>term. map (\<lambda>rel. crossRefMessage (term_id term) (termId rel))
                     (filter (unresolved batch existingTerms) (relationships term)))
          (terms batch)"
    unfolding dropSelfReferences_def
    by (auto simp: unresolved_def intro!: arg_cong [where f = "map _"] filter_cong)
  then show "validateCrossReferences batch existingTerms
       = validateCrossReferences (dropSelfReferences batch) existingTerms"
    unfolding validateCrossReferences_eq u by simp
next
  assume "\<forall>term\<in>set (terms batch). \<forall>rel\<in>set (relationships term). termId rel = term_id term"
  then show "validateCrossReferences batch existingTerms = []"
    unfolding validateCrossReferences_eq
    by (auto simp: unresolved_def filter_empty_conv)
qed


section \<open>Properties of the quiz-readiness auditor\<close>

lemma map_of_mapSet: "map_of (mapSet m k v) = (map_of m)(k \<mapsto> v)"
  by (induction m) (auto simp: fun_eq_iff)

lemma keys_mapSet:
  "map fst (mapSet m k v) = (if k \<in> set (map fst m) then map fst m else map fst m @ [k])"
  by (induction m) force+

lemma distinct_mapSet: "distinct (map fst m) \<Longrightarrow> distinct (map fst (mapSet m k v))"
  by (simp add: keys_mapSet)

lemma countCategory_props:
  "map_of (countCategory m t) =
     (map_of m)(category t \<mapsto> (case map_of m (category t) of None \<Rightarrow> 0 | Some n \<Rightarrow> n) + 1)"
  "set (map fst (countCategory m t)) = insert (category t) (set (map fst m))"
  "distinct (map fst m) \<Longrightarrow> distinct (map fst (countCategory m t))"
  by (auto simp: countCategory_def mapGet_def map_of_mapSet keys_mapSet)

lemma tally_countCategory:
  "tally (countCategory m t) c = tally m c + (if category t = c then 1 else 0)"
  by (simp add: tally_def countCategory_props(1))

lemma foldl_countCategory:
  "tally (foldl countCategory m ts) c = tally m c + countIn c ts"
  "set (map fst (foldl countCategory m ts)) = set (map fst m) \<union> set (map category ts)"
  "distinct (map fst m) \<Longrightarrow> distinct (map fst (foldl countCategory m ts))"
proof (induction ts arbitrary: m)
  case Nil
  {
    case 1 show ?case by (simp add: countIn_def)
  next
    case 2 show ?case by simp
  next
    case 3 then show ?case by simp
  }
next
  case (Cons t ts)
  {
    case 1 show ?case
      by (simp add: Cons.IH(1) tally_countCategory countIn_def)
  next
    case 2 show ?case
      by (simp add: Cons.IH(2) countCategory_props(2) del: set_map)
  next
    case 3 then show ?case
      by (simp add: Cons.IH(3) countCategory_props(3))
  }
qed

lemma keys_countCategory: "map fst (countCategory m t) = setAdd (map fst m) (category t)"
  by (simp add: countCategory_def keys_mapSet setAdd_def)

lemma keys_foldl_countCategory:
  "map fst (foldl countCategory m ts) = foldl setAdd (map fst m) (map category ts)"
  by (induction ts arbitrary: m) (simp_all add: keys_countCategory)

lemma categoryCounts_keys:
  "map fst (foldl countCategory (foldl countCategory [] existingTerms) ts)
     = newSet (map category existingTerms @ map category ts)"
  by (simp add: keys_foldl_countCategory newSet_def)

lemma categoryCounts_values:
  assumes "(c, n) \<in> set (foldl countCategory (foldl countCategory [] existingTerms) ts)"
  shows "n = countIn c existingTerms + countIn c ts"
proof -
  let ?cc = "foldl countCategory (foldl countCategory [] existingTerms) ts"
  have "distinct (map fst ?cc)"
    by (intro foldl_countCategory(3)) simp
  with assms have "map_of ?cc c = Some n" by simp
  then have "tally ?cc c = n" by (simp add: tally_def)
  moreover have "tally ([] :: (string \<times> nat) list) c = 0" by (simp add: tally_def)
  ultimately show ?thesis by (simp add: foldl_countCategory(1))
qed

lemma generic_by_category:
  assumes "\<forall>(c, n)\<in>set cc. n = g c"
  shows "concat (map (\<lambda>(cat, cnt). if cnt < (4::nat) then [quizMessage cat cnt] else []) cc)
       = map (\<lambda>c. quizMessage c (g c)) (filter (\<lambda>c. g c < 4) (map fst cc))"
  using assms by (induction cc) auto

lemma checkQuizRequirements_eq:
  "checkQuizRequirements batch existingTerms =
     map (\<lambda>c. quizMessage c (combinedCount batch existingTerms c))
       (filter (\<lambda>c. combinedCount batch existingTerms c < 4)
          (newSet (map category existingTerms @ map category (terms batch))))
     @ map (\<lambda>c. newCategoryMessage c (countIn c (terms batch)))
         (filter (\<lambda>c. countIn c (terms batch) < 4)
            (newSet (filter (\<lambda>c. c \<notin> set (map category existingTerms))
                       (map category (terms batch)))))"
proof -
  let ?cc = "foldl countCategory (foldl countCategory [] existingTerms) (terms batch)"
  have vals: "\<forall>(c, n)\<in>set ?cc. n = combinedCount batch existingTerms c"
    using categoryCounts_values by (auto simp: combinedCount_def)
  have ex: "(\<lambda>cat. \<not> list_ex (\<lambda>t. category t = cat) existingTerms)
              = (\<lambda>c. c \<notin> set (map category existingTerms))"
    by (auto simp: list_ex_iff fun_eq_iff)
  show ?thesis
    unfolding checkQuizRequirements_def Let_def generic_by_category [OF vals]
      categoryCounts_keys ex
    by (simp add: concat_map_if countIn_def)
qed

lemma quizMessage_neq_newCategoryMessage: "quizMessage c n \<noteq> newCategoryMessage c' n'"
  by (simp add: quizMessage_def newCategoryMessage_def)

text \<open>
  Claim C5, as the code has it. The audit counts the categories that occur in the corpus
  or the batch, and looks at all of them, not only at those of the batch. For every batch
  and corpus it warns, with \<open>quizMessage\<close>, about every category occurring in the corpus
  or the batch whose combined count is below 4, and, with the different message
  \<open>newCategoryMessage\<close>, about every category of the batch that the corpus does not have
  and whose count in the batch is below 4. Both messages name the category, state the
  count and state how many more terms are needed, which is 4 minus the count. The audit
  emits nothing else: every warning is one of these, and their number is the number of
  such categories. Hence there is no warning at all exactly when every category that
  occurs, in the corpus or in the batch, has a combined count of at least 4; a category
  with no term at all gets no warning. The warnings go to the warnings of the report; the
  errors and the validity of the report are those of the cross-reference resolver alone.
\<close>

theorem checkQuizRequirements_warnings:
  fixes batch :: GlossaryBatch and existingTerms :: "GlossaryTerm list"
  shows "(\<forall>c\<in>set (map category existingTerms) \<union> set (map category (terms batch)).
            combinedCount batch existingTerms c < 4 \<longrightarrow>
              quizMessage c (combinedCount batch existingTerms c)
                \<in> set (checkQuizRequirements batch existingTerms))
       \<and> (\<forall>c\<in>set (map category (terms batch)) - set (map category existingTerms).
            countIn c (terms batch) < 4 \<longrightarrow>
              newCategoryMessage c (countIn c (terms batch))
                \<in> set (checkQuizRequirements batch existingTerms))
       \<and> (\<forall>c n c' n'. quizMessage c n \<noteq> newCategoryMessage c' n')
       \<and> (\<forall>e\<in>set (checkQuizRequirements batch existingTerms).
            \<exists>c\<in>set (map category existingTerms) \<union> set (map category (terms batch)).
              (combinedCount batch existingTerms c < 4
               \<and> e = quizMessage c (combinedCount batch existingTerms c))
              \<or> (c \<notin> set (map category existingTerms) \<and> countIn c (terms batch) < 4
                  \<and> e = newCategoryMessage c (countIn c (terms batch))))
       \<and> length (checkQuizRequirements batch existingTerms)
           = card {c \<in> set (map category existingTerms) \<union> set (map category (terms batch)).
                     combinedCount batch existingTerms c < 4}
             + card {c \<in> set (map category (terms batch)) - set (map category existingTerms).
                       countIn c (terms batch) < 4}
       \<and> ((checkQuizRequirements batch existingTerms = []) =
            (\<forall>c\<in>set (map category existingTerms) \<union> set (map category (terms batch)).
               4 \<le> combinedCount batch existingTerms c))
       \<and> (batchFile w filePath = Inr data \<and> validateJsonSchema data = []
            \<and> validateZodSchema errorMessage data = [] \<and> asGlossaryBatch data = Some batch
            \<and> loadExistingTerms w = existingTerms \<longrightarrow>
            (\<exists>result steps. validateBatch validateJsonSchema errorMessage w filePath = Inr (result, steps)
               \<and> set (checkQuizRequirements batch existingTerms) \<subseteq> set (warnings result)
               \<and> errors result = validateCrossReferences batch existingTerms
               \<and> valid result = (validateCrossReferences batch existingTerms = [])))
       \<and> quizMessage cat cnt
           = ''Category '' @ quoted cat @ '' has only '' @ showNat cnt
             @ '' term(s) - need 4+ for quiz generation. Add '' @ showNat (4 - cnt)
             @ '' more term(s).''
       \<and> newCategoryMessage cat cnt
           = ''NEW category '' @ quoted cat @ '' introduced with only '' @ showNat cnt
             @ '' term(s) - add '' @ showNat (4 - cnt) @ '' more in this batch or next.''"
proof -
  let ?cats = "newSet (map category existingTerms @ map category (terms batch))"
  let ?news = "newSet (filter (\<lambda>c. c \<notin> set (map category existingTerms))
                       (map category (terms batch)))"
  let ?tot = "combinedCount batch existingTerms"
  let ?loc = "\<lambda>c. countIn c (terms batch)"
  note eq = checkQuizRequirements_eq [of batch existingTerms]
  have cats: "set ?cats = set (map category existingTerms) \<union> set (map category (terms batch))"
    by (simp add: set_newSet)
  have news: "set ?news = set (map category (terms batch)) - set (map category existingTerms)"
    by (auto simp: set_newSet)
  have c1: "\<forall>c\<in>set (map category existingTerms) \<union> set (map category (terms batch)).
            ?tot c < 4 \<longrightarrow> quizMessage c (?tot c) \<in> set (checkQuizRequirements batch existingTerms)"
    unfolding eq cats [symmetric] by auto
  have c2: "\<forall>c\<in>set (map category (terms batch)) - set (map category existingTerms).
            ?loc c < 4 \<longrightarrow> newCategoryMessage c (?loc c)
                \<in> set (checkQuizRequirements batch existingTerms)"
    unfolding eq news [symmetric] by auto
  have c3: "\<forall>c n c' n'. quizMessage c n \<noteq> newCategoryMessage c' n'"
    by (simp add: quizMessage_neq_newCategoryMessage)
  have c4: "\<forall>e\<in>set (checkQuizRequirements batch existingTerms).
            \<exists>c\<in>set (map category existingTerms) \<union> set (map category (terms batch)).
              (?tot c < 4 \<and> e = quizMessage c (?tot c))
              \<or> (c \<notin> set (map category existingTerms) \<and> ?loc c < 4
                  \<and> e = newCategoryMessage c (?loc c))"
  proof
    fix e assume "e \<in> set (checkQuizRequirements batch existingTerms)"
    then consider c where "c \<in> set ?cats" "?tot c < 4" "e = quizMessage c (?tot c)"
      | c where "c \<in> set ?news" "?loc c < 4" "e = newCategoryMessage c (?loc c)"
      unfolding eq by auto
    then show "\<exists>c\<in>set (map category existingTerms) \<union> set (map category (terms batch)).
              (?tot c < 4 \<and> e = quizMessage c (?tot c))
              \<or> (c \<notin> set (map category existingTerms) \<and> ?loc c < 4
                  \<and> e = newCategoryMessage c (?loc c))"
    proof cases
      case 1
      then show ?thesis unfolding cats by blast
    next
      case 2
      then show ?thesis unfolding news by blast
    qed
  qed
  have c5: "length (checkQuizRequirements batch existingTerms)
           = card {c \<in> set (map category existingTerms) \<union> set (map category (terms batch)).
                     ?tot c < 4}
             + card {c \<in> set (map category (terms batch)) - set (map category existingTerms).
                       ?loc c < 4}"
  proof -
    have "length (filter (\<lambda>c. ?tot c < 4) ?cats) = card {c \<in> set ?cats. ?tot c < 4}"
      using distinct_card [of "filter (\<lambda>c. ?tot c < 4) ?cats"] distinct_newSet [of "map category existingTerms @ map category (terms batch)"]
      by simp
    moreover have "length (filter (\<lambda>c. ?loc c < 4) ?news) = card {c \<in> set ?news. ?loc c < 4}"
      using distinct_card [of "filter (\<lambda>c. ?loc c < 4) ?news"]
        distinct_newSet [of "filter (\<lambda>c. c \<notin> set (map category existingTerms))
                       (map category (terms batch))"]
      by simp
    ultimately show ?thesis
      unfolding eq cats [symmetric] news [symmetric] by simp
  qed
  have c6: "(checkQuizRequirements batch existingTerms = []) =
            (\<forall>c\<in>set (map category existingTerms) \<union> set (map category (terms batch)).
               4 \<le> ?tot c)"
  proof
    assume "checkQuizRequirements batch existingTerms = []"
    then have "filter (\<lambda>c. ?tot c < 4) ?cats = []"
      unfolding eq by simp
    then show "\<forall>c\<in>set (map category existingTerms) \<union> set (map category (terms batch)).
               4 \<le> ?tot c"
      unfolding cats [symmetric] by (auto simp: filter_empty_conv)
  next
    assume a: "\<forall>c\<in>set (map category existingTerms) \<union> set (map category (terms batch)).
               4 \<le> ?tot c"
    then have g: "filter (\<lambda>c. ?tot c < 4) ?cats = []"
      unfolding cats [symmetric] by (auto simp: filter_empty_conv)
    have "\<not> ?loc c < 4" if "c \<in> set ?news" for c
    proof -
      from that have "c \<notin> set (map category existingTerms)" and "c \<in> set (map category (terms batch))"
        unfolding news by auto
      then have "\<forall>t\<in>set existingTerms. category t \<noteq> c"
        by (auto simp: image_iff)
      then have "countIn c existingTerms = 0"
        by (simp add: countIn_def filter_empty_conv)
      moreover from a \<open>c \<in> set (map category (terms batch))\<close> have "4 \<le> ?tot c"
        by blast
      ultimately show ?thesis
        by (simp add: combinedCount_def)
    qed
    then have "filter (\<lambda>c. ?loc c < 4) ?news = []"
      by (auto simp: filter_empty_conv)
    with g show "checkQuizRequirements batch existingTerms = []"
      unfolding eq by simp
  qed
  have c7: "batchFile w filePath = Inr data \<and> validateJsonSchema data = []
            \<and> validateZodSchema errorMessage data = [] \<and> asGlossaryBatch data = Some batch
            \<and> loadExistingTerms w = existingTerms \<longrightarrow>
            (\<exists>result steps. validateBatch validateJsonSchema errorMessage w filePath = Inr (result, steps)
               \<and> set (checkQuizRequirements batch existingTerms) \<subseteq> set (warnings result)
               \<and> errors result = validateCrossReferences batch existingTerms
               \<and> valid result = (validateCrossReferences batch existingTerms = []))"
    by (auto simp: validateBatch_def Let_def)
  have c8: "quizMessage cat cnt
           = ''Category '' @ quoted cat @ '' has only '' @ showNat cnt
             @ '' term(s) - need 4+ for quiz generation. Add '' @ showNat (4 - cnt)
             @ '' more term(s).''"
    by (simp add: quizMessage_def quoted_def)
  have c9: "newCategoryMessage cat cnt
           = ''NEW category '' @ quoted cat @ '' introduced with only '' @ showNat cnt
             @ '' term(s) - add '' @ showNat (4 - cnt) @ '' more in this batch or next.''"
    by (simp add: newCategoryMessage_def quoted_def)
  from c1 c2 c3 c4 c5 c6 c7 c8 c9 show ?thesis
    by (intro conjI)
qed


section \<open>Properties of the Zod schemas\<close>

lemma field_Some_obj: "field v k = Some x \<Longrightarrow> \<exists>kvs. v = JObj kvs \<and> map_of kvs k = Some x"
  by (cases v) auto

lemma issues_mergeResults [simp]: "issues (mergeResults rs) = concat (map issues rs)"
  by (simp add: mergeResults_def)

lemma aborted_mergeResults [simp]: "aborted (mergeResults rs) = (\<exists>r\<in>set rs. aborted r)"
  by (simp add: mergeResults_def list_ex_iff)

lemma issues_zObjectStrict_field:
  assumes "(k, s) \<in> set shape"
  shows "set (issues (s (p @ [k]) (map_of kvs k)))
           \<subseteq> set (issues (zObjectStrict shape p (Some (JObj kvs))))"
  using assms by (force simp: zObjectStrict_def Let_def)

lemma issues_zObject_field:
  assumes "(k, s) \<in> set shape"
  shows "set (issues (s (p @ [k]) (map_of kvs k)))
           \<subseteq> set (issues (zObject shape p (Some (JObj kvs))))"
  using assms by (force simp: zObject_def)

lemma issues_zArray_element:
  assumes "i < length xs"
  shows "set (issues (element (p @ [showNat i]) (Some (xs ! i))))
           \<subseteq> set (issues (zArray minLength element p (Some (JArr xs))))"
proof -
  from assms have "(i, xs ! i) \<in> set (enumerate 0 xs)"
    by (simp add: in_set_enumerate_eq)
  then show ?thesis
    by (force simp: zArray_def Let_def)
qed

lemma issues_zRefine: "set (issues (inner p inp)) \<subseteq> set (issues (zRefine ok msg inner p inp))"
  by (auto simp: zRefine_def Let_def split: option.splits)

lemma zDefault_Some [simp]: "zDefault d inner p (Some v) = inner p (Some v)"
  by (simp add: zDefault_def)

lemma zOptional_Some [simp]: "zOptional inner p (Some v) = inner p (Some v)"
  by (simp add: zOptional_def)

lemma zOptional_None [simp]: "zOptional inner p None = ZodResult False []"
  by (simp add: zOptional_def)

lemma issues_zString:
  "issues (zString checks p (Some (JStr s))) = map (ZodIssue p) (concat (map (checkIssue s) checks))"
  by (simp add: zString_def)

lemma term_issues_subset:
  assumes "field data ''terms'' = Some (JArr ts)" and "i < length ts"
  shows "set (issues (GlossaryTermSchema [''terms'', showNat i] (Some (ts ! i))))
           \<subseteq> set (issues (GlossaryBatchSchema [] (Some data)))"
proof -
  from assms(1) obtain kvs where d: "data = JObj kvs" "map_of kvs ''terms'' = Some (JArr ts)"
    by (auto dest: field_Some_obj)
  let ?arr = "zArray (Some (1, ''Batch must contain at least 1 term'')) GlossaryTermSchema"
  let ?ref = "zRefine uniqueTermIds ''All term IDs must be unique within a batch'' ?arr"
  have "set (issues (GlossaryTermSchema ([''terms''] @ [showNat i]) (Some (ts ! i))))
          \<subseteq> set (issues (?arr [''terms''] (Some (JArr ts))))"
    using assms(2) by (rule issues_zArray_element)
  also have "\<dots> \<subseteq> set (issues (?ref ([] @ [''terms'']) (map_of kvs ''terms'')))"
    using issues_zRefine [of ?arr "[''terms'']" "Some (JArr ts)"] by (simp add: d)
  also have "\<dots> \<subseteq> set (issues (GlossaryBatchSchema [] (Some (JObj kvs))))"
    unfolding GlossaryBatchSchema_def
    by (rule issues_zObjectStrict_field) simp
  finally show ?thesis by (simp add: d)
qed

lemma term_id_issue:
  assumes "field t ''id'' = Some (JStr s)" and "\<not> regexTest KEBAB_CASE_REGEX s"
  shows "ZodIssue (p @ [''id'']) kebabMessage \<in> set (issues (GlossaryTermSchema p (Some t)))"
proof -
  from assms(1) obtain kvs where t: "t = JObj kvs" "map_of kvs ''id'' = Some (JStr s)"
    by (auto dest: field_Some_obj)
  let ?ids = "zString [RegexCheck KEBAB_CASE_REGEX kebabMessage,
                  MinCheck 1 (Some ''ID cannot be empty''),
                  MaxCheck 100 (Some ''ID must not exceed 100 characters'')]"
  have "ZodIssue (p @ [''id'']) kebabMessage \<in> set (issues (?ids (p @ [''id'']) (map_of kvs ''id'')))"
    using assms(2) by (simp add: t issues_zString)
  moreover have "set (issues (?ids (p @ [''id'']) (map_of kvs ''id'')))
          \<subseteq> set (issues (GlossaryTermSchema p (Some (JObj kvs))))"
    unfolding GlossaryTermSchema_def kebabMessage_def
    by (rule issues_zObjectStrict_field) simp
  ultimately show ?thesis by (auto simp: t)
qed

lemma reportsD: "reports sch \<Longrightarrow> aborted (sch p inp) \<Longrightarrow> issues (sch p inp) \<noteq> []"
  by (simp add: reports_def)

lemma reports_invalidType [simp]: "issues (invalidType e p inp) \<noteq> []"
  by (simp add: invalidType_def)

lemma reports_zString: "reports (zString checks)"
  by (auto simp: reports_def zString_def split: option.splits json.splits)

lemma reports_zEnum: "reports (zEnum values)"
  by (auto simp: reports_def zEnum_def invalidOption_def split: option.splits json.splits)

lemma reports_zOptional: "reports s \<Longrightarrow> reports (zOptional s)"
  by (auto simp: reports_def zOptional_def split: option.splits)

lemma reports_zDefault: "reports s \<Longrightarrow> reports (zDefault d s)"
  by (auto simp: reports_def zDefault_def split: option.splits)

lemma reports_zArray:
  assumes "reports element"
  shows "reports (zArray minLength element)"
  unfolding reports_def
proof (intro allI impI)
  fix p inp assume a: "aborted (zArray minLength element p inp)"
  show "issues (zArray minLength element p inp) \<noteq> []"
  proof (cases "\<exists>xs. inp = Some (JArr xs)")
    case True
    then obtain xs where inp: "inp = Some (JArr xs)" by blast
    with a obtain i x where ix: "(i, x) \<in> set (enumerate 0 xs)"
        "aborted (element (p @ [showNat i]) (Some x))"
      by (auto simp: zArray_def Let_def)
    from reportsD [OF assms ix(2)] ix(1) show ?thesis
      by (force simp: zArray_def Let_def inp)
  next
    case False
    then show ?thesis
      by (auto simp: zArray_def split: option.splits json.splits)
  qed
qed

lemma reports_zObjectStrict:
  assumes "\<forall>(k, s)\<in>set shape. reports s"
  shows "reports (zObjectStrict shape)"
  unfolding reports_def
proof (intro allI impI)
  fix p inp assume a: "aborted (zObjectStrict shape p inp)"
  show "issues (zObjectStrict shape p inp) \<noteq> []"
  proof (cases "\<exists>kvs. inp = Some (JObj kvs)")
    case True
    then obtain kvs where inp: "inp = Some (JObj kvs)" by blast
    show ?thesis
    proof (cases "filter (\<lambda>k. k \<notin> set (map fst shape)) (map fst kvs) = []")
      case True
      with a inp obtain k s where ks: "(k, s) \<in> set shape"
          "aborted (s (p @ [k]) (map_of kvs k))"
        by (auto simp: zObjectStrict_def Let_def unrecognizedKeys_def)
      with assms have "issues (s (p @ [k]) (map_of kvs k)) \<noteq> []"
        by (auto dest: reportsD)
      with issues_zObjectStrict_field [OF ks(1), of p kvs] show ?thesis
        by (auto simp: inp)
    next
      case False
      then show ?thesis
        by (simp add: zObjectStrict_def Let_def unrecognizedKeys_def inp)
    qed
  next
    case False
    then show ?thesis
      by (auto simp: zObjectStrict_def split: option.splits json.splits)
  qed
qed

lemma reports_zObject:
  assumes "\<forall>(k, s)\<in>set shape. reports s"
  shows "reports (zObject shape)"
  unfolding reports_def
proof (intro allI impI)
  fix p inp assume a: "aborted (zObject shape p inp)"
  show "issues (zObject shape p inp) \<noteq> []"
  proof (cases "\<exists>kvs. inp = Some (JObj kvs)")
    case True
    then obtain kvs where inp: "inp = Some (JObj kvs)" by blast
    with a obtain k s where ks: "(k, s) \<in> set shape" "aborted (s (p @ [k]) (map_of kvs k))"
      by (auto simp: zObject_def)
    with assms have "issues (s (p @ [k]) (map_of kvs k)) \<noteq> []"
      by (auto dest: reportsD)
    with issues_zObject_field [OF ks(1), of p kvs] show ?thesis
      by (auto simp: inp)
  next
    case False
    then show ?thesis
      by (auto simp: zObject_def split: option.splits json.splits)
  qed
qed

lemma reports_GlossarySectionSchema: "reports GlossarySectionSchema"
  unfolding GlossarySectionSchema_def
  by (rule reports_zObject) (simp add: reports_zString)

lemma reports_SemanticRelationshipSchema: "reports SemanticRelationshipSchema"
  unfolding SemanticRelationshipSchema_def
  by (rule reports_zObject) (simp add: reports_zString reports_zEnum reports_zOptional)

lemma reports_sectionsSchema: "reports sectionsSchema"
  unfolding sectionsSchema_def
  by (rule reports_zObjectStrict) (simp add: reports_GlossarySectionSchema reports_zOptional)

lemma reports_GlossaryTermSchema: "reports GlossaryTermSchema"
  unfolding GlossaryTermSchema_def
  by (rule reports_zObjectStrict)
     (simp add: reports_zString reports_zEnum reports_zDefault reports_zArray
        reports_sectionsSchema reports_SemanticRelationshipSchema)

lemma length_newSet_distinct: "(length xs = length (newSet xs)) = distinct xs"
proof -
  have L: "length (newSet xs) = card (set xs)"
    using distinct_card [OF distinct_newSet [of xs]] by (simp add: set_newSet)
  show ?thesis
  proof
    assume "length xs = length (newSet xs)"
    with L have "card (set xs) = length xs" by simp
    then show "distinct xs" by (rule card_distinct)
  next
    assume "distinct xs"
    then have "card (set xs) = length xs" by (rule distinct_card)
    with L show "length xs = length (newSet xs)" by simp
  qed
qed

lemma uniqueTermIds_distinct: "uniqueTermIds (JArr ts) = distinct (map (\<lambda>t. field t ''id'') ts)"
  by (simp add: uniqueTermIds_def Let_def length_newSet_distinct)


section \<open>Properties of structural validation\<close>

lemma validateBatch_rejected:
  assumes "batchFile w filePath = Inr data"
    and "validateJsonSchema data \<noteq> [] \<or> validateZodSchema errorMessage data \<noteq> []"
  shows "validateBatch validateJsonSchema errorMessage w filePath =
           Inr (\<lparr> valid = False, errors = validateJsonSchema data @ validateZodSchema errorMessage data,
                  warnings = [], vr_termCount = 0, vr_categories = [] \<rparr>,
                [JsonSchemaPhase, ZodPhase])"
  using assms by (auto simp: validateBatch_def Let_def)

lemma validateMain_world: "snd (validateMain validateJsonSchema errorMessage existsSync w filePath) = w"
  by (simp add: validateMain_def split: sum.splits prod.splits)

lemma validateZodSchema_line:
  assumes "issues (GlossaryBatchSchema [] (Some data)) \<noteq> []"
  shows "\<exists>msg. validateZodSchema errorMessage data = [''Zod validation failed: '' @ msg]"
  using assms by (simp add: validateZodSchema_def Let_def)

text \<open>
  Claim C4. For every payload on which the JSON-Schema pass or the Zod pass reports a
  violation, validation returns an invalid report whose errors are the structural errors
  of the two passes. No later phase runs: only the two structural steps are announced,
  the report has no warnings, and the corpus is never consulted (the result is the same
  whatever \<^verbatim>\<open>glossaryData.json\<close> holds). The Zod pass reports exactly when the parse has
  an issue, and then with one line, which starts with \<^verbatim>\<open>Zod validation failed: \<close>.
\<close>

theorem structural_failure_stops_validation:
  "(batchFile w filePath = Inr data
    \<and> (validateJsonSchema data \<noteq> [] \<or> validateZodSchema errorMessage data \<noteq> []) \<longrightarrow>
     validateBatch validateJsonSchema errorMessage w filePath =
       Inr (\<lparr> valid = False, errors = validateJsonSchema data @ validateZodSchema errorMessage data,
              warnings = [], vr_termCount = 0, vr_categories = [] \<rparr>,
            [JsonSchemaPhase, ZodPhase])
     \<and> validateBatch validateJsonSchema errorMessage (w \<lparr> glossaryData := corpus \<rparr>) filePath
         = validateBatch validateJsonSchema errorMessage w filePath)
   \<and> (validateZodSchema errorMessage data \<noteq> [])
       = (issues (GlossaryBatchSchema [] (Some data)) \<noteq> [])
   \<and> (issues (GlossaryBatchSchema [] (Some data)) \<noteq> [] \<longrightarrow>
        (\<exists>msg. validateZodSchema errorMessage data = [''Zod validation failed: '' @ msg]))"
proof (intro conjI impI)
  assume a: "batchFile w filePath = Inr data
   \<and> (validateJsonSchema data \<noteq> [] \<or> validateZodSchema errorMessage data \<noteq> [])"
  then have "batchFile (w \<lparr> glossaryData := corpus \<rparr>) filePath = Inr data"
    by simp
  from validateBatch_rejected [where validateJsonSchema = validateJsonSchema
      and errorMessage = errorMessage, OF this] a
    validateBatch_rejected [of w filePath data validateJsonSchema errorMessage]
  show "validateBatch validateJsonSchema errorMessage w filePath =
       Inr (\<lparr> valid = False, errors = validateJsonSchema data @ validateZodSchema errorMessage data,
              warnings = [], vr_termCount = 0, vr_categories = [] \<rparr>,
            [JsonSchemaPhase, ZodPhase])"
    and "validateBatch validateJsonSchema errorMessage (w \<lparr> glossaryData := corpus \<rparr>) filePath
         = validateBatch validateJsonSchema errorMessage w filePath"
    by simp_all
next
  show "(validateZodSchema errorMessage data \<noteq> [])
       = (issues (GlossaryBatchSchema [] (Some data)) \<noteq> [])"
    by (simp add: validateZodSchema_empty)
next
  assume "issues (GlossaryBatchSchema [] (Some data)) \<noteq> []"
  then show "\<exists>msg. validateZodSchema errorMessage data = [''Zod validation failed: '' @ msg]"
    by (rule validateZodSchema_line)
qed

text \<open>
  Claim C8. For every batch with a term whose id fails the kebab-case pattern, the parse
  of the Zod pass has the kebab-case issue at the id of that term, so the pass reports its
  line, validation returns an invalid report with the structural errors and stops after
  the structural passes, and the script exits with 1. Validation never changes the file
  system, whatever its outcome: in particular the manifest is the one it was.
\<close>

theorem invalid_id_rejected_manifest_unchanged:
  "(field data ''terms'' = Some (JArr ts) \<and> i < length ts
    \<and> field (ts ! i) ''id'' = Some (JStr s) \<and> \<not> regexTest KEBAB_CASE_REGEX s
    \<and> batchFile w filePath = Inr data \<and> existsSync filePath \<longrightarrow>
      ZodIssue [''terms'', showNat i, ''id''] kebabMessage
        \<in> set (issues (GlossaryBatchSchema [] (Some data)))
      \<and> (\<exists>msg. validateZodSchema errorMessage data = [''Zod validation failed: '' @ msg])
      \<and> (\<exists>result. validateBatch validateJsonSchema errorMessage w filePath
                     = Inr (result, [JsonSchemaPhase, ZodPhase])
            \<and> \<not> valid result \<and> warnings result = []
            \<and> errors result = validateJsonSchema data @ validateZodSchema errorMessage data)
      \<and> validateMain validateJsonSchema errorMessage existsSync w filePath = (1, w))
   \<and> snd (validateMain validateJsonSchema errorMessage existsSync w filePath) = w
   \<and> manifestFile (snd (validateMain validateJsonSchema errorMessage existsSync w filePath))
       = manifestFile w"
proof (intro conjI impI)
  assume a: "field data ''terms'' = Some (JArr ts) \<and> i < length ts
    \<and> field (ts ! i) ''id'' = Some (JStr s) \<and> \<not> regexTest KEBAB_CASE_REGEX s
    \<and> batchFile w filePath = Inr data \<and> existsSync filePath"
  then have "ZodIssue ([''terms'', showNat i] @ [''id'']) kebabMessage
               \<in> set (issues (GlossaryTermSchema [''terms'', showNat i] (Some (ts ! i))))"
    by (intro term_id_issue) auto
  with term_issues_subset [of data ts i] a
  show iss: "ZodIssue [''terms'', showNat i, ''id''] kebabMessage
          \<in> set (issues (GlossaryBatchSchema [] (Some data)))"
    by auto
  then have ne: "issues (GlossaryBatchSchema [] (Some data)) \<noteq> []"
    by auto
  then show "\<exists>msg. validateZodSchema errorMessage data = [''Zod validation failed: '' @ msg]"
    by (rule validateZodSchema_line)
  from ne have "validateJsonSchema data \<noteq> [] \<or> validateZodSchema errorMessage data \<noteq> []"
    by (simp add: validateZodSchema_empty)
  with a have rej: "validateBatch validateJsonSchema errorMessage w filePath =
           Inr (\<lparr> valid = False, errors = validateJsonSchema data @ validateZodSchema errorMessage data,
                  warnings = [], vr_termCount = 0, vr_categories = [] \<rparr>,
                [JsonSchemaPhase, ZodPhase])"
    by (intro validateBatch_rejected) auto
  then show "\<exists>result. validateBatch validateJsonSchema errorMessage w filePath
                     = Inr (result, [JsonSchemaPhase, ZodPhase])
            \<and> \<not> valid result \<and> warnings result = []
            \<and> errors result = validateJsonSchema data @ validateZodSchema errorMessage data"
    by simp
  from a rej show "validateMain validateJsonSchema errorMessage existsSync w filePath = (1, w)"
    by (simp add: validateMain_def)
next
  show "snd (validateMain validateJsonSchema errorMessage existsSync w filePath) = w"
    by (rule validateMain_world)
  then show "manifestFile (snd (validateMain validateJsonSchema errorMessage existsSync w filePath))
               = manifestFile w"
    by simp
qed

lemma refine_issue:
  assumes "reports inner" and "\<not> ok v"
  shows "issues (zRefine ok msg inner p (Some v)) \<noteq> []"
  using assms by (auto simp: zRefine_def Let_def dest: reportsD)

lemma terms_field_issues_subset:
  assumes "field data ''terms'' = Some v"
  shows "set (issues (zRefine uniqueTermIds ''All term IDs must be unique within a batch''
                       (zArray (Some (1, ''Batch must contain at least 1 term''))
                          GlossaryTermSchema) [''terms''] (Some v)))
           \<subseteq> set (issues (GlossaryBatchSchema [] (Some data)))"
proof -
  from assms obtain kvs where d: "data = JObj kvs" "map_of kvs ''terms'' = Some v"
    by (auto dest: field_Some_obj)
  have "set (issues (zRefine uniqueTermIds ''All term IDs must be unique within a batch''
                       (zArray (Some (1, ''Batch must contain at least 1 term''))
                          GlossaryTermSchema) ([] @ [''terms'']) (map_of kvs ''terms'')))
           \<subseteq> set (issues (GlossaryBatchSchema [] (Some (JObj kvs))))"
    unfolding GlossaryBatchSchema_def
    by (rule issues_zObjectStrict_field) simp
  then show ?thesis by (simp add: d)
qed

text \<open>
  Claim C9. Structural validation fails for a batch with no term (the parse has the issue
  of the minimum length) and for a batch in which two terms have the same id. The
  uniqueness check is also what fails when every term on its own passes the term schema:
  the parse then has the uniqueness issue alone. The check looks at the batch only: the
  schema takes no corpus, and the report of a batch that the Zod pass rejects is the same
  whatever the corpus holds.
\<close>

theorem batch_needs_terms_with_unique_ids:
  "(field data ''terms'' = Some (JArr []) \<longrightarrow>
      ZodIssue [''terms''] ''Batch must contain at least 1 term''
        \<in> set (issues (GlossaryBatchSchema [] (Some data)))
      \<and> validateZodSchema errorMessage data \<noteq> [])
   \<and> (field data ''terms'' = Some (JArr ts)
       \<and> \<not> distinct (map (\<lambda>t. field t ''id'') ts) \<longrightarrow>
         issues (GlossaryBatchSchema [] (Some data)) \<noteq> []
         \<and> validateZodSchema errorMessage data \<noteq> [])
   \<and> (ts \<noteq> [] \<and> \<not> distinct (map (\<lambda>t. field t ''id'') ts)
       \<and> (\<forall>i<length ts. issues (GlossaryTermSchema [''terms'', showNat i] (Some (ts ! i))) = [])
       \<longrightarrow> issues (GlossaryBatchSchema [] (Some (JObj [(''terms'', JArr ts)])))
             = [ZodIssue [''terms''] ''All term IDs must be unique within a batch''])
   \<and> (batchFile w filePath = Inr data \<and> validateZodSchema errorMessage data \<noteq> [] \<longrightarrow>
         validateBatch validateJsonSchema errorMessage w filePath =
           Inr (\<lparr> valid = False, errors = validateJsonSchema data @ validateZodSchema errorMessage data,
                  warnings = [], vr_termCount = 0, vr_categories = [] \<rparr>,
                [JsonSchemaPhase, ZodPhase])
         \<and> validateBatch validateJsonSchema errorMessage (w \<lparr> glossaryData := corpus \<rparr>) filePath
             = validateBatch validateJsonSchema errorMessage w filePath)"
proof (intro conjI impI)
  assume a: "field data ''terms'' = Some (JArr [])"
  have "ZodIssue [''terms''] ''Batch must contain at least 1 term''
          \<in> set (issues (zRefine uniqueTermIds ''All term IDs must be unique within a batch''
                       (zArray (Some (1, ''Batch must contain at least 1 term''))
                          GlossaryTermSchema) [''terms''] (Some (JArr []))))"
    by (simp add: zRefine_def zArray_def Let_def minLengthIssue_def uniqueTermIds_distinct)
  with terms_field_issues_subset [OF a]
  show iss: "ZodIssue [''terms''] ''Batch must contain at least 1 term''
          \<in> set (issues (GlossaryBatchSchema [] (Some data)))"
    by blast
  then have "issues (GlossaryBatchSchema [] (Some data)) \<noteq> []"
    by auto
  then show "validateZodSchema errorMessage data \<noteq> []"
    by (simp add: validateZodSchema_empty)
next
  assume a: "field data ''terms'' = Some (JArr ts)
       \<and> \<not> distinct (map (\<lambda>t. field t ''id'') ts)"
  then have "\<not> uniqueTermIds (JArr ts)"
    by (simp add: uniqueTermIds_distinct)
  let ?ref = "zRefine uniqueTermIds ''All term IDs must be unique within a batch''
                (zArray (Some (1, ''Batch must contain at least 1 term'')) GlossaryTermSchema)"
  have "reports (zArray (Some (1, ''Batch must contain at least 1 term'')) GlossaryTermSchema)"
    by (rule reports_zArray) (rule reports_GlossaryTermSchema)
  then have "issues (?ref [''terms''] (Some (JArr ts))) \<noteq> []"
    using \<open>\<not> uniqueTermIds (JArr ts)\<close> by (rule refine_issue)
  then obtain x where "x \<in> set (issues (?ref [''terms''] (Some (JArr ts))))"
    by (cases "issues (?ref [''terms''] (Some (JArr ts)))") auto
  moreover from a have "set (issues (?ref [''terms''] (Some (JArr ts))))
                          \<subseteq> set (issues (GlossaryBatchSchema [] (Some data)))"
    by (intro terms_field_issues_subset) simp
  ultimately show ne: "issues (GlossaryBatchSchema [] (Some data)) \<noteq> []"
    by auto
  then show "validateZodSchema errorMessage data \<noteq> []"
    by (simp add: validateZodSchema_empty)
next
  assume a: "ts \<noteq> [] \<and> \<not> distinct (map (\<lambda>t. field t ''id'') ts)
       \<and> (\<forall>i<length ts. issues (GlossaryTermSchema [''terms'', showNat i] (Some (ts ! i))) = [])"
  let ?arr = "zArray (Some (1, ''Batch must contain at least 1 term'')) GlossaryTermSchema"
  have el: "issues (GlossaryTermSchema ([''terms''] @ [showNat i]) (Some x)) = []
            \<and> \<not> aborted (GlossaryTermSchema ([''terms''] @ [showNat i]) (Some x))"
    if "(i, x) \<in> set (enumerate 0 ts)" for i x
  proof -
    from that have "i < length ts" "x = ts ! i"
      by (auto simp: in_set_enumerate_eq)
    with a have "issues (GlossaryTermSchema ([''terms''] @ [showNat i]) (Some x)) = []"
      by simp
    with reportsD [OF reports_GlossaryTermSchema] show ?thesis by blast
  qed
  from a have len: "\<not> length ts < 1" by (cases ts) auto
  have arr: "issues (?arr [''terms''] (Some (JArr ts))) = []
             \<and> \<not> aborted (?arr [''terms''] (Some (JArr ts)))"
    using el len by (auto simp: zArray_def Let_def minLengthIssue_def)
  from a have "\<not> uniqueTermIds (JArr ts)"
    by (simp add: uniqueTermIds_distinct)
  with arr have "issues (zRefine uniqueTermIds ''All term IDs must be unique within a batch''
                   ?arr [''terms''] (Some (JArr ts)))
                 = [ZodIssue [''terms''] ''All term IDs must be unique within a batch'']"
    by (simp add: zRefine_def Let_def)
  then show "issues (GlossaryBatchSchema [] (Some (JObj [(''terms'', JArr ts)])))
             = [ZodIssue [''terms''] ''All term IDs must be unique within a batch'']"
    by (simp add: GlossaryBatchSchema_def zObjectStrict_def Let_def unrecognizedKeys_def)
next
  assume a: "batchFile w filePath = Inr data \<and> validateZodSchema errorMessage data \<noteq> []"
  then have "batchFile (w \<lparr> glossaryData := corpus \<rparr>) filePath = Inr data"
    by simp
  from validateBatch_rejected [where validateJsonSchema = validateJsonSchema
      and errorMessage = errorMessage, OF this] a
    validateBatch_rejected [of w filePath data validateJsonSchema errorMessage]
  show "validateBatch validateJsonSchema errorMessage w filePath =
           Inr (\<lparr> valid = False, errors = validateJsonSchema data @ validateZodSchema errorMessage data,
                  warnings = [], vr_termCount = 0, vr_categories = [] \<rparr>,
                [JsonSchemaPhase, ZodPhase])"
    and "validateBatch validateJsonSchema errorMessage (w \<lparr> glossaryData := corpus \<rparr>) filePath
             = validateBatch validateJsonSchema errorMessage w filePath"
    by simp_all
qed


section \<open>The plain-text sweep on accepted batches\<close>

lemma wellFormed_field: "wellFormed v \<Longrightarrow> field v k = Some x \<Longrightarrow> wellFormed x"
  by (cases v) (auto simp: list_all_iff dest!: map_of_SomeD)

lemma wellFormed_element: "wellFormed (JArr xs) \<Longrightarrow> x \<in> set xs \<Longrightarrow> wellFormed x"
  by (simp add: list_all_iff)

lemma those_map_Some:
  "those (map f xs) = Some ys \<Longrightarrow> list_all2 (\<lambda>x y. f x = Some y) xs ys"
  by (induction xs arbitrary: ys) (auto split: option.splits)

lemma asArray_Some:
  "asArray f v = Some ys \<Longrightarrow> \<exists>xs. v = Some (JArr xs) \<and> list_all2 (\<lambda>x y. f x = Some y) xs ys"
  by (auto simp: asArray_def split: option.splits json.splits dest: those_map_Some)

lemma list_all2_right:
  "list_all2 P xs ys \<Longrightarrow> y \<in> set ys \<Longrightarrow> \<exists>x\<in>set xs. P x y"
  by (induction rule: list_all2_induct) auto

lemma key_has_entry:
  assumes "k \<in> set (map fst xs)"
  obtains s where "(k, s) \<in> set xs"
  using assms by auto

lemma asString_Some: "asString v = Some s \<Longrightarrow> v = Some (JStr s)"
  by (auto simp: asString_def split: option.splits json.splits)

lemma section_clean:
  assumes "issues (GlossarySectionSchema p (Some v)) = []" and "asSection v = Some sec"
  shows "\<not> containsMarkdown (content sec) \<and> 10 \<le> length (content sec)
         \<and> length (content sec) \<le> 2000"
proof -
  from assms(2) obtain s where s: "field v ''content'' = Some (JStr s)" "sec = \<lparr> content = s \<rparr>"
    by (auto simp: asSection_def dest: asString_Some)
  then obtain kvs where v: "v = JObj kvs" "map_of kvs ''content'' = Some (JStr s)"
    by (auto dest: field_Some_obj)
  from assms(1) have "concat (map (checkIssue s)
            [plainTextRefinement,
             MinCheck 10 (Some ''Content must be at least 10 characters''),
             MaxCheck 2000 (Some ''Content must not exceed 2000 characters'')]) = []"
    by (simp add: GlossarySectionSchema_def zObject_def v issues_zString)
  then show ?thesis
    by (simp add: s plainTextRefinement_def split: if_splits)
qed

lemma sections_clean:
  assumes "issues (sectionsSchema p (Some (JObj kvs))) = []"
    and "distinct (map fst kvs)" and "(k, v) \<in> set kvs"
  shows "issues (GlossarySectionSchema (p @ [k]) (Some v)) = []"
proof -
  let ?shape = "[(''whatItIs'', GlossarySectionSchema),
        (''location'', zOptional GlossarySectionSchema),
        (''howItWorks'', zOptional GlossarySectionSchema),
        (''whatYouShouldDo'', zOptional GlossarySectionSchema),
        (''troubleshooting'', zOptional GlossarySectionSchema)]"
  from assms(2,3) have m: "map_of kvs k = Some v" by simp
  have "filter (\<lambda>k. k \<notin> set (map fst ?shape)) (map fst kvs) = []"
  proof (rule ccontr)
    assume "filter (\<lambda>k. k \<notin> set (map fst ?shape)) (map fst kvs) \<noteq> []"
    then have "issues (zObjectStrict ?shape p (Some (JObj kvs))) \<noteq> []"
      unfolding zObjectStrict_def Let_def unrecognizedKeys_def by simp
    with assms(1) show False by (simp add: sectionsSchema_def)
  qed
  then have "\<forall>k'\<in>set (map fst kvs). k' \<in> set (map fst ?shape)"
    unfolding filter_empty_conv by blast
  moreover from assms(3) have "k \<in> set (map fst kvs)" by force
  ultimately have "k \<in> set (map fst ?shape)" by blast
  then obtain s where s: "(k, s) \<in> set ?shape"
    by (rule key_has_entry)
  from issues_zObjectStrict_field [OF s, of p kvs] assms(1)
  have "issues (s (p @ [k]) (Some v)) = []"
    by (simp add: sectionsSchema_def m)
  moreover have "\<forall>(k', s')\<in>set ?shape.
                    s' (p @ [k]) (Some v) = GlossarySectionSchema (p @ [k]) (Some v)"
    by simp
  from bspec [OF this s] have "s (p @ [k]) (Some v) = GlossarySectionSchema (p @ [k]) (Some v)"
    by simp
  ultimately show ?thesis by simp
qed

lemma asSections_Some:
  assumes "asSections sv = Some ss"
  shows "\<exists>kvs. sv = Some (JObj kvs)
           \<and> list_all2 (\<lambda>(k, x) (n, sec). n = k \<and> asSection x = Some sec) kvs ss"
proof -
  from assms obtain kvs where kvs: "sv = Some (JObj kvs)"
      "those (map (\<lambda>(k, x). map_option (Pair k) (asSection x)) kvs) = Some ss"
    by (auto simp: asSections_def split: option.splits json.splits)
  from those_map_Some [OF kvs(2)]
  have "list_all2 (\<lambda>(k, x) (n, sec). n = k \<and> asSection x = Some sec) kvs ss"
    by (rule list_all2_mono) auto
  with kvs(1) show ?thesis by blast
qed

lemma term_clean:
  assumes "issues (GlossaryTermSchema p (Some t)) = []" and "wellFormed t"
    and "asTerm t = Some term" and "(n, sec) \<in> set (sections term)"
  shows "\<not> containsMarkdown (content sec)"
proof -
  from assms(3) obtain ss where ss: "asSections (field t ''sections'') = Some ss"
      "sections term = ss"
    by (auto simp: asTerm_def split: option.splits)
  from asSections_Some [OF ss(1)] obtain skvs where sk: "field t ''sections'' = Some (JObj skvs)"
      "list_all2 (\<lambda>(k, x) (n, sec). n = k \<and> asSection x = Some sec) skvs ss"
    by blast
  from sk(1) obtain kvs where t: "t = JObj kvs" "map_of kvs ''sections'' = Some (JObj skvs)"
    by (auto dest: field_Some_obj)
  have "set (issues (sectionsSchema (p @ [''sections'']) (map_of kvs ''sections'')))
          \<subseteq> set (issues (GlossaryTermSchema p (Some (JObj kvs))))"
    unfolding GlossaryTermSchema_def
    by (rule issues_zObjectStrict_field) simp
  with assms(1) have si: "issues (sectionsSchema (p @ [''sections'']) (Some (JObj skvs))) = []"
    by (simp add: t)
  from wellFormed_field [OF assms(2) sk(1)] have d: "distinct (map fst skvs)"
    by simp
  from list_all2_right [OF sk(2), of "(n, sec)"] assms(4) ss(2)
  obtain x where x: "(n, x) \<in> set skvs" "asSection x = Some sec"
    by auto
  from sections_clean [OF si d x(1)] x(2) show ?thesis
    by (auto dest: section_clean)
qed

lemma sweep_patterns_subset: "fst ` set markdownPatterns \<subseteq> set MARKDOWN_PATTERNS"
  by (simp add: markdownPatterns_def MARKDOWN_PATTERNS_def)

lemma sweep_silent:
  assumes "\<not> containsMarkdown s" and "(pattern, name) \<in> set markdownPatterns"
  shows "\<not> regexTest pattern s"
proof -
  from assms(2) have "pattern \<in> fst ` set markdownPatterns" by force
  with sweep_patterns_subset have "pattern \<in> set MARKDOWN_PATTERNS" by blast
  with assms(1) show ?thesis
    by (auto simp: containsMarkdown_def list_ex_iff)
qed

lemma concat_map_empty: "(\<And>x. x \<in> set xs \<Longrightarrow> f x = []) \<Longrightarrow> concat (map f xs) = []"
  by (induction xs) auto

lemma checkForMarkdown_clean:
  assumes "\<And>term n sec. term \<in> set (terms batch) \<Longrightarrow> (n, sec) \<in> set (sections term)
             \<Longrightarrow> \<not> containsMarkdown (content sec)"
  shows "checkForMarkdown batch = []"
  unfolding checkForMarkdown_def
proof (rule concat_map_empty)
  fix trm assume t: "trm \<in> set (terms batch)"
  show "concat (map (\<lambda>(sectionName, section).
         if content section \<noteq> []
         then concat (map (\<lambda>(pattern, name).
                if regexTest pattern (content section)
                then [markdownMessage (term_id trm) sectionName name] else [])
              markdownPatterns)
         else [])
       (sections trm)) = []"
  proof (rule concat_map_empty)
    fix ns assume mem: "ns \<in> set (sections trm)"
    obtain n sec where ns: "ns = (n, sec)"
      by (cases ns)
    with mem have "(n, sec) \<in> set (sections trm)"
      by simp
    from assms [OF t this] have "concat (map (\<lambda>(pattern, name).
                if regexTest pattern (content sec)
                then [markdownMessage (term_id trm) n name] else [])
              markdownPatterns) = []"
      by (intro concat_map_empty) (auto dest: sweep_silent)
    then show "(case ns of (sectionName, section) \<Rightarrow>
         if content section \<noteq> []
         then concat (map (\<lambda>(pattern, name).
                if regexTest pattern (content section)
                then [markdownMessage (term_id trm) sectionName name] else [])
              markdownPatterns)
         else []) = []"
      by (simp add: ns)
  qed
qed

lemma accepted_batch_clean:
  assumes "validateZodSchema errorMessage data = []" and "wellFormed data"
    and "asGlossaryBatch data = Some batch"
  shows "checkForMarkdown batch = []"
proof (rule checkForMarkdown_clean)
  fix trm n sec
  assume t: "trm \<in> set (terms batch)" and s: "(n, sec) \<in> set (sections trm)"
  from assms(3) obtain ts where ts: "field data ''terms'' = Some (JArr ts)"
      "list_all2 (\<lambda>x y. asTerm x = Some y) ts (terms batch)"
    by (auto simp: asGlossaryBatch_def dest: asArray_Some)
  from list_all2_right [OF ts(2) t] obtain x where x: "x \<in> set ts" "asTerm x = Some trm"
    by blast
  then obtain i where i: "i < length ts" "ts ! i = x"
    by (auto simp: in_set_conv_nth)
  from assms(1) have "issues (GlossaryBatchSchema [] (Some data)) = []"
    by (simp add: validateZodSchema_empty)
  with term_issues_subset [OF ts(1) i(1)]
  have ok: "issues (GlossaryTermSchema [''terms'', showNat i] (Some x)) = []"
    by (simp add: i(2))
  from wellFormed_field [OF assms(2) ts(1)] x(1) have "wellFormed x"
    by (rule wellFormed_element)
  from term_clean [OF ok this x(2) s] show "\<not> containsMarkdown (content sec)" .
qed

lemma section_too_long:
  assumes "field sec ''content'' = Some (JStr s)" and "2000 < length s"
  shows "ZodIssue (p @ [''content'']) ''Content must not exceed 2000 characters''
           \<in> set (issues (GlossarySectionSchema p (Some sec)))"
proof -
  from assms(1) obtain kvs where v: "sec = JObj kvs" "map_of kvs ''content'' = Some (JStr s)"
    by (auto dest: field_Some_obj)
  with assms(2) show ?thesis
    by (simp add: GlossarySectionSchema_def zObject_def issues_zString)
qed

lemma sections_issue_subset:
  assumes "field secs k = Some sec" and "k \<in> set sectionNames"
  shows "set (issues (GlossarySectionSchema (p @ [k]) (Some sec)))
           \<subseteq> set (issues (sectionsSchema p (Some secs)))"
proof -
  let ?shape = "[(''whatItIs'', GlossarySectionSchema),
        (''location'', zOptional GlossarySectionSchema),
        (''howItWorks'', zOptional GlossarySectionSchema),
        (''whatYouShouldDo'', zOptional GlossarySectionSchema),
        (''troubleshooting'', zOptional GlossarySectionSchema)]"
  from assms(1) obtain kvs where v: "secs = JObj kvs" "map_of kvs k = Some sec"
    by (auto dest: field_Some_obj)
  from assms(2) have "k \<in> set (map fst ?shape)"
    by (simp add: sectionNames_def)
  then obtain s where s: "(k, s) \<in> set ?shape"
    by (rule key_has_entry)
  have "\<forall>(k', s')\<in>set ?shape.
          s' (p @ [k]) (Some sec) = GlossarySectionSchema (p @ [k]) (Some sec)"
    by simp
  from bspec [OF this s] have "s (p @ [k]) (Some sec) = GlossarySectionSchema (p @ [k]) (Some sec)"
    by simp
  with issues_zObjectStrict_field [OF s, of p kvs] show ?thesis
    by (simp add: sectionsSchema_def v)
qed

lemma term_sections_issue_subset:
  assumes "field t ''sections'' = Some secs"
  shows "set (issues (sectionsSchema (p @ [''sections'']) (Some secs)))
           \<subseteq> set (issues (GlossaryTermSchema p (Some t)))"
proof -
  from assms obtain kvs where t: "t = JObj kvs" "map_of kvs ''sections'' = Some secs"
    by (auto dest: field_Some_obj)
  have "set (issues (sectionsSchema (p @ [''sections'']) (map_of kvs ''sections'')))
          \<subseteq> set (issues (GlossaryTermSchema p (Some (JObj kvs))))"
    unfolding GlossaryTermSchema_def
    by (rule issues_zObjectStrict_field) simp
  then show ?thesis by (simp add: t)
qed


section \<open>The cast after the structural passes\<close>

text \<open>
  A well-formed payload that the Zod pass accepts, and in which every term has the key
  \<^verbatim>\<open>relationships\<close>, is a batch that the later phases can read: on such a payload
  \<open>validateBatch\<close> returns a report.
\<close>

lemma those_all_Some:
  "(\<And>x. x \<in> set xs \<Longrightarrow> \<exists>y. f x = Some y) \<Longrightarrow> \<exists>ys. those (map f xs) = Some ys"
  by (induction xs) (auto split: option.splits)

lemma zString_accepts: "issues (zString checks p inp) = [] \<Longrightarrow> \<exists>s. inp = Some (JStr s)"
  by (auto simp: zString_def invalidType_def split: option.splits json.splits)

lemma zEnum_accepts: "issues (zEnum values p inp) = [] \<Longrightarrow> \<exists>s. inp = Some (JStr s)"
  by (auto simp: zEnum_def invalidOption_def split: option.splits json.splits if_splits)

lemma zObject_accepts:
  assumes "issues (zObject shape p inp) = []"
  obtains kvs where "inp = Some (JObj kvs)"
    and "\<And>k s. (k, s) \<in> set shape \<Longrightarrow> issues (s (p @ [k]) (map_of kvs k)) = []"
proof -
  from assms obtain kvs where inp: "inp = Some (JObj kvs)"
    by (auto simp: zObject_def invalidType_def split: option.splits json.splits)
  have "issues (s (p @ [k]) (map_of kvs k)) = []" if "(k, s) \<in> set shape" for k s
    using issues_zObject_field [OF that, of p kvs] assms by (simp add: inp)
  with inp that show thesis by blast
qed

lemma zObjectStrict_accepts:
  assumes "issues (zObjectStrict shape p inp) = []"
  obtains kvs where "inp = Some (JObj kvs)"
    and "\<And>k s. (k, s) \<in> set shape \<Longrightarrow> issues (s (p @ [k]) (map_of kvs k)) = []"
proof -
  from assms obtain kvs where inp: "inp = Some (JObj kvs)"
    by (auto simp: zObjectStrict_def invalidType_def split: option.splits json.splits)
  have "issues (s (p @ [k]) (map_of kvs k)) = []" if "(k, s) \<in> set shape" for k s
    using issues_zObjectStrict_field [OF that, of p kvs] assms by (simp add: inp)
  with inp that show thesis by blast
qed

lemma zArray_accepts:
  assumes "issues (zArray minLength element p inp) = []"
  obtains xs where "inp = Some (JArr xs)"
    and "\<And>i. i < length xs \<Longrightarrow> issues (element (p @ [showNat i]) (Some (xs ! i))) = []"
proof -
  from assms obtain xs where inp: "inp = Some (JArr xs)"
    by (auto simp: zArray_def invalidType_def split: option.splits json.splits)
  have "issues (element (p @ [showNat i]) (Some (xs ! i))) = []" if "i < length xs" for i
    using issues_zArray_element [OF that, of element p minLength] assms by (simp add: inp)
  with inp that show thesis by blast
qed

lemma section_decodes:
  assumes "issues (GlossarySectionSchema p (Some v)) = []"
  shows "\<exists>sec. asSection v = Some sec"
proof -
  from assms obtain kvs where v: "v = JObj kvs"
      and f: "\<And>k s. (k, s) \<in> set [(''content'',
         zString [plainTextRefinement,
                  MinCheck 10 (Some ''Content must be at least 10 characters''),
                  MaxCheck 2000 (Some ''Content must not exceed 2000 characters'')])]
             \<Longrightarrow> issues (s (p @ [k]) (map_of kvs k)) = []"
    unfolding GlossarySectionSchema_def by (elim zObject_accepts) auto
  from f [of "''content''"] obtain s where "map_of kvs ''content'' = Some (JStr s)"
    by (auto dest: zString_accepts)
  then show ?thesis
    by (simp add: asSection_def asString_def v)
qed

lemma relationship_decodes:
  assumes "issues (SemanticRelationshipSchema p (Some v)) = []"
  shows "\<exists>r. asRelationship v = Some r"
proof -
  let ?shape = "[(''termId'',
         zString [RegexCheck KEBAB_CASE_REGEX ''termId must be in kebab-case format'',
                  MinCheck 1 (Some ''termId cannot be empty''),
                  MaxCheck 100 (Some ''termId must not exceed 100 characters'')]),
        (''type'', zEnum RELATIONSHIP_TYPES),
        (''description'',
         zOptional
           (zString [MinCheck 10 (Some ''Description must be at least 10 characters if provided''),
                     MaxCheck 500 (Some ''Description must not exceed 500 characters'')]))]"
  from assms obtain kvs where v: "v = JObj kvs"
      and f: "\<And>k s. (k, s) \<in> set ?shape \<Longrightarrow> issues (s (p @ [k]) (map_of kvs k)) = []"
    unfolding SemanticRelationshipSchema_def by (elim zObject_accepts) auto
  have "issues (zString [RegexCheck KEBAB_CASE_REGEX ''termId must be in kebab-case format'',
                  MinCheck 1 (Some ''termId cannot be empty''),
                  MaxCheck 100 (Some ''termId must not exceed 100 characters'')]
          (p @ [''termId'']) (map_of kvs ''termId'')) = []"
    by (rule f) simp
  then obtain t where t: "map_of kvs ''termId'' = Some (JStr t)"
    by (auto dest: zString_accepts)
  have "issues (zEnum RELATIONSHIP_TYPES (p @ [''type'']) (map_of kvs ''type'')) = []"
    by (rule f) simp
  then obtain ty where ty: "map_of kvs ''type'' = Some (JStr ty)"
    by (auto dest: zEnum_accepts)
  from t ty show ?thesis
    by (simp add: asRelationship_def asString_def v)
qed

lemma sections_decode:
  assumes "issues (sectionsSchema p (Some v)) = []" and "wellFormed v"
  shows "\<exists>ss. asSections (Some v) = Some ss"
proof -
  from assms(1) obtain kvs where v: "v = JObj kvs"
    unfolding sectionsSchema_def by (elim zObjectStrict_accepts) auto
  from assms(2) have d: "distinct (map fst kvs)"
    by (simp add: v)
  have "\<exists>y. (case kx of (k, x) \<Rightarrow> map_option (Pair k) (asSection x)) = Some y"
    if "kx \<in> set kvs" for kx
  proof -
    obtain k x where kx: "kx = (k, x)" by (cases kx)
    with that have "(k, x) \<in> set kvs" by simp
    from sections_clean [OF assms(1) [unfolded v] d this]
    obtain sec where "asSection x = Some sec"
      by (auto dest: section_decodes)
    then show ?thesis by (simp add: kx)
  qed
  then have "\<exists>ss. those (map (\<lambda>(k, x). map_option (Pair k) (asSection x)) kvs) = Some ss"
    by (rule those_all_Some)
  then show ?thesis
    by (simp add: asSections_def v)
qed

lemma relationships_decode:
  assumes "issues (zArray None SemanticRelationshipSchema p (Some v)) = []"
  shows "\<exists>rs. asArray asRelationship (Some v) = Some rs"
proof -
  from assms obtain xs where v: "v = JArr xs"
      and e: "\<And>i. i < length xs \<Longrightarrow>
                issues (SemanticRelationshipSchema (p @ [showNat i]) (Some (xs ! i))) = []"
    by (elim zArray_accepts) auto
  have "\<exists>r. asRelationship x = Some r" if "x \<in> set xs" for x
  proof -
    from that obtain i where "i < length xs" "x = xs ! i"
      by (auto simp: in_set_conv_nth)
    with e [of i] show ?thesis
      by (auto dest: relationship_decodes)
  qed
  then have "\<exists>rs. those (map asRelationship xs) = Some rs"
    by (rule those_all_Some)
  then show ?thesis
    by (simp add: asArray_def v)
qed

lemma term_decodes:
  assumes "issues (GlossaryTermSchema p (Some t)) = []" and "wellFormed t"
    and "field t ''relationships'' \<noteq> None"
  shows "\<exists>trm. asTerm t = Some trm"
proof -
  from assms(1) obtain kvs where t: "t = JObj kvs"
      and f: "\<And>k s. (k, s) \<in> set
        [(''id'',
         zString [RegexCheck KEBAB_CASE_REGEX
                    (''ID must be in kebab-case format (e.g., '' @ [CHR 0x22] @ ''flight-level''
                     @ [CHR 0x22] @ '')''),
                  MinCheck 1 (Some ''ID cannot be empty''),
                  MaxCheck 100 (Some ''ID must not exceed 100 characters'')]),
        (''title'',
         zString [MinCheck 1 (Some ''Title cannot be empty''),
                  MaxCheck 200 (Some ''Title must not exceed 200 characters'')]),
        (''category'', zEnum VALID_CATEGORIES),
        (''sections'', sectionsSchema),
        (''synonyms'', zDefault (JArr []) (zArray None (zString [MinCheck 1 None, MaxCheck 100 None]))),
        (''tags'',
         zDefault (JArr [])
           (zArray None
              (zString [RegexCheck TAG_PATTERN ''Tags must be lowercase with hyphens only'',
                        MinCheck 1 None, MaxCheck 50 None]))),
        (''relationships'', zDefault (JArr []) (zArray None SemanticRelationshipSchema)),
        (''createdAt'',
         zString [RegexCheck ISO_DATE_REGEX
                    (''createdAt must be in ISO 8601 format (e.g., '' @ [CHR 0x22]
                     @ ''2024-01-01T00:00:00Z'' @ [CHR 0x22] @ '')'')]),
        (''updatedAt'',
         zString [RegexCheck ISO_DATE_REGEX
                    (''updatedAt must be in ISO 8601 format (e.g., '' @ [CHR 0x22]
                     @ ''2024-01-01T00:00:00Z'' @ [CHR 0x22] @ '')'')])]
          \<Longrightarrow> issues (s (p @ [k]) (map_of kvs k)) = []"
    unfolding GlossaryTermSchema_def by (elim zObjectStrict_accepts) auto
  obtain i where i: "map_of kvs ''id'' = Some (JStr i)"
    using f [of "''id''"] by (auto dest: zString_accepts)
  obtain ti where ti: "map_of kvs ''title'' = Some (JStr ti)"
    using f [of "''title''"] by (auto dest: zString_accepts)
  obtain c where c: "map_of kvs ''category'' = Some (JStr c)"
    using f [of "''category''"] by (auto dest: zEnum_accepts)
  obtain ca where ca: "map_of kvs ''createdAt'' = Some (JStr ca)"
    using f [of "''createdAt''"] by (auto dest: zString_accepts)
  obtain ua where ua: "map_of kvs ''updatedAt'' = Some (JStr ua)"
    using f [of "''updatedAt''"] by (auto dest: zString_accepts)
  have si: "issues (sectionsSchema (p @ [''sections'']) (map_of kvs ''sections'')) = []"
    by (rule f) simp
  then obtain sv where sv: "map_of kvs ''sections'' = Some sv"
    unfolding sectionsSchema_def by (elim zObjectStrict_accepts) auto
  then have "field t ''sections'' = Some sv"
    by (simp add: t)
  with assms(2) have "wellFormed sv"
    by (rule wellFormed_field)
  with si obtain ss where ss: "asSections (Some sv) = Some ss"
    by (auto simp: sv dest: sections_decode)
  from assms(3) obtain rv where rv: "map_of kvs ''relationships'' = Some rv"
    by (auto simp: t)
  have "issues (zDefault (JArr []) (zArray None SemanticRelationshipSchema)
                 (p @ [''relationships'']) (map_of kvs ''relationships'')) = []"
    by (rule f) simp
  then obtain rs where rs: "asArray asRelationship (Some rv) = Some rs"
    by (auto simp: rv dest: relationships_decode)
  show ?thesis
    by (simp add: asTerm_def t i ti c ca ua sv ss rv rs asString_def)
qed

lemma accepted_batch_decodes:
  assumes "validateZodSchema errorMessage data = []" and "wellFormed data"
    and "\<And>ts t. field data ''terms'' = Some (JArr ts) \<Longrightarrow> t \<in> set ts
           \<Longrightarrow> field t ''relationships'' \<noteq> None"
  shows "\<exists>batch. asGlossaryBatch data = Some batch"
proof -
  from assms(1) have z: "issues (GlossaryBatchSchema [] (Some data)) = []"
    by (simp add: validateZodSchema_empty)
  let ?arr = "zArray (Some (1, ''Batch must contain at least 1 term'')) GlossaryTermSchema"
  let ?ref = "zRefine uniqueTermIds ''All term IDs must be unique within a batch'' ?arr"
  from z obtain kvs where d: "data = JObj kvs"
      and f: "\<And>k s. (k, s) \<in> set [(''terms'', ?ref)]
                \<Longrightarrow> issues (s ([] @ [k]) (map_of kvs k)) = []"
    unfolding GlossaryBatchSchema_def by (elim zObjectStrict_accepts) auto
  have "issues (?ref ([] @ [''terms'']) (map_of kvs ''terms'')) = []"
    by (rule f) simp
  with issues_zRefine [of ?arr "[''terms'']" "map_of kvs ''terms''" uniqueTermIds
      "''All term IDs must be unique within a batch''"]
  have a: "issues (?arr [''terms''] (map_of kvs ''terms'')) = []"
    by simp
  then obtain ts where ts: "map_of kvs ''terms'' = Some (JArr ts)"
      and e: "\<And>i. i < length ts \<Longrightarrow>
                issues (GlossaryTermSchema ([''terms''] @ [showNat i]) (Some (ts ! i))) = []"
    by (elim zArray_accepts) auto
  have "\<exists>trm. asTerm t = Some trm" if "t \<in> set ts" for t
  proof -
    from that obtain i where i: "i < length ts" "t = ts ! i"
      by (auto simp: in_set_conv_nth)
    from ts have "field data ''terms'' = Some (JArr ts)"
      by (simp add: d)
    with assms(2) have "wellFormed (JArr ts)"
      by (rule wellFormed_field)
    from this that have "wellFormed t"
      by (rule wellFormed_element)
    moreover from assms(3) [of ts t] that ts have "field t ''relationships'' \<noteq> None"
      by (simp add: d)
    ultimately show ?thesis
      using e [OF i(1)] i(2) by (auto dest: term_decodes)
  qed
  then have "\<exists>trms. those (map asTerm ts) = Some trms"
    by (rule those_all_Some)
  then show ?thesis
    by (auto simp: asGlossaryBatch_def asArray_def d ts)
qed

lemma validateBatch_returns:
  assumes "batchFile w filePath = Inr data" and "wellFormed data"
    and "\<And>ts t. field data ''terms'' = Some (JArr ts) \<Longrightarrow> t \<in> set ts
           \<Longrightarrow> field t ''relationships'' \<noteq> None"
  shows "\<exists>result steps. validateBatch validateJsonSchema errorMessage w filePath = Inr (result, steps)"
proof (cases "validateJsonSchema data = [] \<and> validateZodSchema errorMessage data = []")
  case True
  with assms(2,3) obtain batch where "asGlossaryBatch data = Some batch"
    using accepted_batch_decodes [where data = data and errorMessage = errorMessage] by blast
  with True assms(1) show ?thesis
    by (simp add: validateBatch_def Let_def)
next
  case False
  with assms(1) show ?thesis
    by (auto simp: validateBatch_def Let_def)
qed


section \<open>The JSON document of a batch\<close>

lemma those_map_Some_id: "(\<And>x. x \<in> set xs \<Longrightarrow> f (g x) = Some x) \<Longrightarrow> those (map f (map g xs)) = Some xs"
  by (induction xs) auto

lemma asRelationship_relationshipJson: "asRelationship (relationshipJson r) = Some r"
  by (cases "description r") (simp_all add: asRelationship_def relationshipJson_def asString_def)

lemma asSections_json:
  "asSections (Some (JObj (map (\<lambda>(k, s). (k, JObj [(''content'', JStr (content s))])) ss))) = Some ss"
  unfolding asSections_def
  by (induction ss) (auto simp: asSection_def asString_def)

lemma stringsOrEmpty_json: "stringsOrEmpty (Some (JArr (map JStr xs))) = xs"
proof -
  have "those (map (\<lambda>x. asString (Some x)) (map JStr xs)) = Some xs"
    by (rule those_map_Some_id) (simp add: asString_def)
  then show ?thesis by (simp add: stringsOrEmpty_def asArray_def)
qed

lemma asTerm_termJson: "asTerm (termJson t) = Some t"
proof -
  have "those (map asRelationship (map relationshipJson (relationships t))) = Some (relationships t)"
    by (rule those_map_Some_id) (rule asRelationship_relationshipJson)
  then show ?thesis
    by (simp add: asTerm_def termJson_def asString_def asSections_json stringsOrEmpty_json
        asArray_def)
qed

lemma asGlossaryBatch_batchJson: "asGlossaryBatch (batchJson b) = Some b"
proof -
  have "those (map asTerm (map termJson (terms b))) = Some (terms b)"
    by (rule those_map_Some_id) (rule asTerm_termJson)
  then show ?thesis
    by (simp add: asGlossaryBatch_def batchJson_def asArray_def)
qed

lemma wellFormed_batchJson:
  "wellFormed (batchJson b) = (\<forall>t\<in>set (terms b). distinct (map fst (sections t)))"
proof -
  have r: "wellFormed (relationshipJson r)" for r
    by (cases "description r") (simp_all add: relationshipJson_def)
  have s: "fst \<circ> (\<lambda>(k, s). (k, JObj [(''content'', JStr (content s))])) = fst"
    by (auto simp: fun_eq_iff)
  have t: "wellFormed (termJson t) = distinct (map fst (sections t))" for t
    by (simp add: termJson_def list_all_iff r s split_beta)
  show ?thesis
    by (simp add: batchJson_def list_all_iff t)
qed


section \<open>Section length and the sweep for markup\<close>

lemma countIn_map: "countIn c ts = length (filter (\<lambda>x. x = c) (map category ts))"
  by (simp add: countIn_def filter_map comp_def)

lemma checkQuizRequirements_categories:
  assumes "map category (terms batch) = map category (terms batch')"
  shows "checkQuizRequirements batch existingTerms = checkQuizRequirements batch' existingTerms"
  unfolding checkQuizRequirements_eq combinedCount_def countIn_map assms ..

lemma section_accepted:
  assumes "10 \<le> length s" and "length s \<le> 2000" and "\<not> containsMarkdown s"
  shows "issues (GlossarySectionSchema p (Some (JObj [(''content'', JStr s)]))) = []"
  using assms
  by (simp add: GlossarySectionSchema_def zObject_def issues_zString plainTextRefinement_def)




lemma validateBatch_sample:
  assumes "issues (GlossaryBatchSchema [] (Some (batchJson b))) = []"
  shows "validateBatch noSchemaErrors errorMessage (sampleWorld (batchJson b) corpus) filePath =
           Inr (\<lparr> valid = (validateCrossReferences b corpus = []),
                  errors = validateCrossReferences b corpus,
                  warnings = checkForMarkdown b @ checkQuizRequirements b corpus,
                  vr_termCount = length (terms b),
                  vr_categories = newSet (map category (terms b)) \<rparr>,
                [JsonSchemaPhase, ZodPhase, MarkdownPhase, CrossRefPhase, QuizPhase])"
proof -
  let ?w = "sampleWorld (batchJson b) corpus"
  have "validateBatch noSchemaErrors errorMessage ?w filePath =
           Inr (\<lparr> valid = (validateCrossReferences b (loadExistingTerms ?w) = []),
                  errors = validateCrossReferences b (loadExistingTerms ?w),
                  warnings = checkForMarkdown b @ checkQuizRequirements b (loadExistingTerms ?w),
                  vr_termCount = length (terms b),
                  vr_categories = newSet (map category (terms b)) \<rparr>,
                [JsonSchemaPhase, ZodPhase, MarkdownPhase, CrossRefPhase, QuizPhase])"
    by (rule validateBatch_passed [where data = "batchJson b"])
       (simp_all add: sampleWorld_def noSchemaErrors_def validateZodSchema_empty assms
          asGlossaryBatch_batchJson)
  then show ?thesis
    by (simp add: loadExistingTerms_def sampleWorld_def)
qed


text \<open>
  Claim C1, as the code has it. Validation has no length advisory. For every payload that
  passes both structural passes the warnings of the report are the quiz-readiness
  warnings and nothing else (the sweep for markup finds nothing on a payload that the Zod
  pass has accepted), and these depend only on the categories of the terms: two batches
  with the same categories get the same warnings, whatever the length of their sections.
  A section content of 10 to 2000 plain characters, so also one of 241, passes the section
  schema. A section content of more than 2000 characters, so also one of 2001, under one
  of the five section keys gives the parse of the Zod pass the issue of the maximum
  length at that content; the pass reports, and validation returns an invalid report
  after the structural passes.
\<close>

theorem no_length_advisory:
  "(wellFormed data \<and> batchFile w filePath = Inr data \<and> validateJsonSchema data = []
    \<and> validateZodSchema errorMessage data = [] \<and> asGlossaryBatch data = Some batch \<longrightarrow>
      validateBatch validateJsonSchema errorMessage w filePath
        = Inr (\<lparr> valid = (validateCrossReferences batch (loadExistingTerms w) = []),
                 errors = validateCrossReferences batch (loadExistingTerms w),
                 warnings = checkQuizRequirements batch (loadExistingTerms w),
                 vr_termCount = length (terms batch),
                 vr_categories = newSet (map category (terms batch)) \<rparr>,
               [JsonSchemaPhase, ZodPhase, MarkdownPhase, CrossRefPhase, QuizPhase]))
   \<and> (map category (terms batch) = map category (terms batch') \<longrightarrow>
        checkQuizRequirements batch existingTerms = checkQuizRequirements batch' existingTerms)
   \<and> (10 \<le> length s \<and> length s \<le> 2000 \<and> \<not> containsMarkdown s \<longrightarrow>
        issues (GlossarySectionSchema p (Some (JObj [(''content'', JStr s)]))) = [])
   \<and> (field data' ''terms'' = Some (JArr ts) \<and> i < length ts
       \<and> field (ts ! i) ''sections'' = Some secs \<and> k \<in> set sectionNames
       \<and> field secs k = Some sec \<and> field sec ''content'' = Some (JStr s')
       \<and> 2000 < length s' \<and> batchFile w' filePath = Inr data' \<longrightarrow>
         ZodIssue [''terms'', showNat i, ''sections'', k, ''content'']
             ''Content must not exceed 2000 characters''
           \<in> set (issues (GlossaryBatchSchema [] (Some data')))
         \<and> validateZodSchema errorMessage data' \<noteq> []
         \<and> validateBatch validateJsonSchema errorMessage w' filePath
             = Inr (\<lparr> valid = False,
                      errors = validateJsonSchema data' @ validateZodSchema errorMessage data',
                      warnings = [], vr_termCount = 0, vr_categories = [] \<rparr>,
                    [JsonSchemaPhase, ZodPhase]))"
proof (intro conjI impI)
  assume a: "wellFormed data \<and> batchFile w filePath = Inr data \<and> validateJsonSchema data = []
    \<and> validateZodSchema errorMessage data = [] \<and> asGlossaryBatch data = Some batch"
  then have "checkForMarkdown batch = []"
    by (intro accepted_batch_clean [where data = data and errorMessage = errorMessage]) auto
  moreover from a have "validateBatch validateJsonSchema errorMessage w filePath =
           Inr (\<lparr> valid = (validateCrossReferences batch (loadExistingTerms w) = []),
                  errors = validateCrossReferences batch (loadExistingTerms w),
                  warnings = checkForMarkdown batch
                             @ checkQuizRequirements batch (loadExistingTerms w),
                  vr_termCount = length (terms batch),
                  vr_categories = newSet (map category (terms batch)) \<rparr>,
                [JsonSchemaPhase, ZodPhase, MarkdownPhase, CrossRefPhase, QuizPhase])"
    by (intro validateBatch_passed) auto
  ultimately show "validateBatch validateJsonSchema errorMessage w filePath
        = Inr (\<lparr> valid = (validateCrossReferences batch (loadExistingTerms w) = []),
                 errors = validateCrossReferences batch (loadExistingTerms w),
                 warnings = checkQuizRequirements batch (loadExistingTerms w),
                 vr_termCount = length (terms batch),
                 vr_categories = newSet (map category (terms batch)) \<rparr>,
               [JsonSchemaPhase, ZodPhase, MarkdownPhase, CrossRefPhase, QuizPhase])"
    by simp
next
  assume "map category (terms batch) = map category (terms batch')"
  then show "checkQuizRequirements batch existingTerms = checkQuizRequirements batch' existingTerms"
    by (rule checkQuizRequirements_categories)
next
  assume "10 \<le> length s \<and> length s \<le> 2000 \<and> \<not> containsMarkdown s"
  then show "issues (GlossarySectionSchema p (Some (JObj [(''content'', JStr s)]))) = []"
    by (intro section_accepted) auto
next
  assume a: "field data' ''terms'' = Some (JArr ts) \<and> i < length ts
       \<and> field (ts ! i) ''sections'' = Some secs \<and> k \<in> set sectionNames
       \<and> field secs k = Some sec \<and> field sec ''content'' = Some (JStr s')
       \<and> 2000 < length s' \<and> batchFile w' filePath = Inr data'"
  let ?p = "[''terms'', showNat i]"
  from a have "ZodIssue ((?p @ [''sections''] @ [k]) @ [''content''])
                 ''Content must not exceed 2000 characters''
           \<in> set (issues (GlossarySectionSchema (?p @ [''sections''] @ [k]) (Some sec)))"
    by (intro section_too_long [of sec s']) auto
  also from a have "\<dots> \<subseteq> set (issues (sectionsSchema (?p @ [''sections'']) (Some secs)))"
    using sections_issue_subset [of secs k sec "?p @ [''sections'']"] by simp
  also from a have "\<dots> \<subseteq> set (issues (GlossaryTermSchema ?p (Some (ts ! i))))"
    by (intro term_sections_issue_subset) auto
  also from a have "\<dots> \<subseteq> set (issues (GlossaryBatchSchema [] (Some data')))"
    by (intro term_issues_subset) auto
  finally show iss: "ZodIssue [''terms'', showNat i, ''sections'', k, ''content'']
                  ''Content must not exceed 2000 characters''
                \<in> set (issues (GlossaryBatchSchema [] (Some data')))"
    by simp
  then have "issues (GlossaryBatchSchema [] (Some data')) \<noteq> []"
    by auto
  then show ne: "validateZodSchema errorMessage data' \<noteq> []"
    by (simp add: validateZodSchema_empty)
  with a show "validateBatch validateJsonSchema errorMessage w' filePath
             = Inr (\<lparr> valid = False,
                      errors = validateJsonSchema data' @ validateZodSchema errorMessage data',
                      warnings = [], vr_termCount = 0, vr_categories = [] \<rparr>,
                    [JsonSchemaPhase, ZodPhase])"
    by (intro validateBatch_rejected) auto
qed



section \<open>Instances\<close>

text \<open>
  A batch whose only section has exactly 241 plain characters, validated against a corpus
  that already has three terms of its category: the batch is accepted and the report has
  no warning at all, so none about truncation.
\<close>

theorem length_241_accepted_without_warning:
  "length (replicate 241 CHR ''a'') = 241
   \<and> (\<forall>errorMessage.
        validateBatch noSchemaErrors errorMessage
          (sampleWorld (batchJson \<lparr> terms = [sampleTerm ''flight-level'' ''Navigation''
                                                (replicate 241 CHR ''a'') []] \<rparr>)
             [sampleTerm ''altimeter'' ''Navigation'' ''A sample definition.'' [],
              sampleTerm ''vor-receiver'' ''Navigation'' ''A sample definition.'' [],
              sampleTerm ''glide-slope'' ''Navigation'' ''A sample definition.'' []])
          ''data/batches/2025-10-30-batch-001.json''
        = Inr (\<lparr> valid = True, errors = [], warnings = [], vr_termCount = 1,
                 vr_categories = [''Navigation''] \<rparr>,
               [JsonSchemaPhase, ZodPhase, MarkdownPhase, CrossRefPhase, QuizPhase]))"
proof -
  let ?b = "\<lparr> terms = [sampleTerm ''flight-level'' ''Navigation'' (replicate 241 CHR ''a'') []] \<rparr>"
  let ?corpus = "[sampleTerm ''altimeter'' ''Navigation'' ''A sample definition.'' [],
              sampleTerm ''vor-receiver'' ''Navigation'' ''A sample definition.'' [],
              sampleTerm ''glide-slope'' ''Navigation'' ''A sample definition.'' []]"
  have z: "issues (GlossaryBatchSchema [] (Some (batchJson ?b))) = []"
    by code_simp
  have x: "validateCrossReferences ?b ?corpus = []"
    by code_simp
  have m: "checkForMarkdown ?b = []"
    by code_simp
  have q: "checkQuizRequirements ?b ?corpus = []"
    by code_simp
  have c: "newSet (map category (terms ?b)) = [''Navigation'']"
    by code_simp
  have "validateBatch noSchemaErrors errorMessage (sampleWorld (batchJson ?b) ?corpus)
          ''data/batches/2025-10-30-batch-001.json''
        = Inr (\<lparr> valid = True, errors = [], warnings = [], vr_termCount = 1,
                 vr_categories = [''Navigation''] \<rparr>,
               [JsonSchemaPhase, ZodPhase, MarkdownPhase, CrossRefPhase, QuizPhase])"
    for errorMessage
    unfolding validateBatch_sample [OF z] x m q c by simp
  then show ?thesis
    by simp
qed

text \<open>
  The same section of 241 characters gets the warnings of a short one and passes the
  section schema; a section of 2001 characters gives the parse the issue of the maximum
  length, and the batch is invalid.
\<close>

theorem no_length_advisory_witness:
  "(\<forall>errorMessage.
      warnings (fst (projr (validateBatch noSchemaErrors errorMessage
        (sampleWorld (batchJson \<lparr> terms = [sampleTerm ''flight-level'' ''Navigation''
                                              (replicate 241 CHR ''a'') []] \<rparr>) [])
        ''data/batches/2025-10-30-batch-001.json'')))
      = checkQuizRequirements \<lparr> terms = [sampleTerm ''flight-level'' ''Navigation''
                                            ''A short definition.'' []] \<rparr> [])
   \<and> issues (GlossarySectionSchema [] (Some (JObj [(''content'', JStr (replicate 241 CHR ''a''))])))
       = []
   \<and> ZodIssue [''terms'', ''0'', ''sections'', ''whatItIs'', ''content'']
         ''Content must not exceed 2000 characters''
       \<in> set (issues (GlossaryBatchSchema []
                 (Some (batchJson \<lparr> terms = [sampleTerm ''flight-level'' ''Navigation''
                                              (replicate 2001 CHR ''a'') []] \<rparr>))))
   \<and> (\<forall>errorMessage.
        \<not> valid (fst (projr (validateBatch noSchemaErrors errorMessage
          (sampleWorld (batchJson \<lparr> terms = [sampleTerm ''flight-level'' ''Navigation''
                                                (replicate 2001 CHR ''a'') []] \<rparr>) [])
          ''data/batches/2025-10-30-batch-001.json''))))"
proof -
  let ?b = "\<lparr> terms = [sampleTerm ''flight-level'' ''Navigation'' (replicate 241 CHR ''a'') []] \<rparr>"
  let ?b' = "\<lparr> terms = [sampleTerm ''flight-level'' ''Navigation'' ''A short definition.'' []] \<rparr>"
  let ?long = "\<lparr> terms = [sampleTerm ''flight-level'' ''Navigation'' (replicate 2001 CHR ''a'') []] \<rparr>"
  let ?t = "termJson (sampleTerm ''flight-level'' ''Navigation'' (replicate 2001 CHR ''a'') [])"
  let ?path = "''data/batches/2025-10-30-batch-001.json''"
  have h1: "wellFormed (batchJson ?b)"
    by (simp add: wellFormed_batchJson sampleTerm_def)
  have h2: "batchFile (sampleWorld (batchJson ?b) []) ?path = Inr (batchJson ?b)"
    by (simp add: sampleWorld_def)
  have h3: "noSchemaErrors (batchJson ?b) = []"
    by (simp add: noSchemaErrors_def)
  have z: "issues (GlossaryBatchSchema [] (Some (batchJson ?b))) = []"
    by code_simp
  have h5: "asGlossaryBatch (batchJson ?b) = Some ?b"
    by (rule asGlossaryBatch_batchJson)
  have h6: "map category (terms ?b) = map category (terms ?b')"
    by (simp add: sampleTerm_def)
  have h7: "10 \<le> length (replicate 241 CHR ''a'') \<and> length (replicate 241 CHR ''a'') \<le> 2000
            \<and> \<not> containsMarkdown (replicate 241 CHR ''a'')"
    by code_simp
  have h8: "field (batchJson ?long) ''terms'' = Some (JArr [?t]) \<and> (0::nat) < length [?t]
       \<and> field ([?t] ! 0) ''sections''
           = Some (JObj [(''whatItIs'', JObj [(''content'', JStr (replicate 2001 CHR ''a''))])])
       \<and> ''whatItIs'' \<in> set sectionNames
       \<and> field (JObj [(''whatItIs'', JObj [(''content'', JStr (replicate 2001 CHR ''a''))])])
            ''whatItIs'' = Some (JObj [(''content'', JStr (replicate 2001 CHR ''a''))])
       \<and> field (JObj [(''content'', JStr (replicate 2001 CHR ''a''))]) ''content''
           = Some (JStr (replicate 2001 CHR ''a''))
       \<and> 2000 < length (replicate 2001 CHR ''a'')
       \<and> batchFile (sampleWorld (batchJson ?long) []) ?path = Inr (batchJson ?long)"
    by (simp add: batchJson_def termJson_def sampleTerm_def sectionNames_def sampleWorld_def)
  have n0: "showNat 0 = ''0''"
    by code_simp
  note T = no_length_advisory [where data = "batchJson ?b" and w = "sampleWorld (batchJson ?b) []"
      and filePath = ?path and validateJsonSchema = noSchemaErrors and batch = ?b
      and batch' = ?b' and existingTerms = "[]" and s = "replicate 241 CHR ''a''" and p = "[]"
      and data' = "batchJson ?long" and ts = "[?t]" and i = 0
      and secs = "JObj [(''whatItIs'', JObj [(''content'', JStr (replicate 2001 CHR ''a''))])]"
      and k = "''whatItIs''" and sec = "JObj [(''content'', JStr (replicate 2001 CHR ''a''))]"
      and s' = "replicate 2001 CHR ''a''" and w' = "sampleWorld (batchJson ?long) []"]
  have c1: "warnings (fst (projr (validateBatch noSchemaErrors errorMessage
              (sampleWorld (batchJson ?b) []) ?path)))
            = checkQuizRequirements ?b' []" for errorMessage
  proof -
    from z have "validateZodSchema errorMessage (batchJson ?b) = []"
      by (simp add: validateZodSchema_empty)
    with h1 h2 h3 h5
    have "validateBatch noSchemaErrors errorMessage (sampleWorld (batchJson ?b) []) ?path
        = Inr (\<lparr> valid = (validateCrossReferences ?b
                             (loadExistingTerms (sampleWorld (batchJson ?b) [])) = []),
                 errors = validateCrossReferences ?b
                            (loadExistingTerms (sampleWorld (batchJson ?b) [])),
                 warnings = checkQuizRequirements ?b
                              (loadExistingTerms (sampleWorld (batchJson ?b) [])),
                 vr_termCount = length (terms ?b),
                 vr_categories = newSet (map category (terms ?b)) \<rparr>,
               [JsonSchemaPhase, ZodPhase, MarkdownPhase, CrossRefPhase, QuizPhase])"
      by (intro T [where errorMessage = errorMessage, THEN conjunct1, THEN mp]) simp
    moreover from T [where errorMessage = errorMessage, THEN conjunct2, THEN conjunct1, THEN mp,
        OF h6]
    have "checkQuizRequirements ?b [] = checkQuizRequirements ?b' []" .
    ultimately show ?thesis
      by (simp add: loadExistingTerms_def sampleWorld_def)
  qed
  from T [THEN conjunct2, THEN conjunct2, THEN conjunct1, THEN mp, OF h7]
  have c2: "issues (GlossarySectionSchema []
              (Some (JObj [(''content'', JStr (replicate 241 CHR ''a''))]))) = []" .
  from T [THEN conjunct2, THEN conjunct2, THEN conjunct2, THEN mp, OF h8, THEN conjunct1]
  have c3: "ZodIssue [''terms'', ''0'', ''sections'', ''whatItIs'', ''content'']
         ''Content must not exceed 2000 characters''
       \<in> set (issues (GlossaryBatchSchema [] (Some (batchJson ?long))))"
    by (simp only: n0)
  have c4: "\<not> valid (fst (projr (validateBatch noSchemaErrors errorMessage
          (sampleWorld (batchJson ?long) []) ?path)))" for errorMessage
    using T [where errorMessage = errorMessage, THEN conjunct2, THEN conjunct2, THEN conjunct2,
        THEN mp, OF h8, THEN conjunct2, THEN conjunct2]
    by simp
  from c1 c2 c3 c4 show ?thesis
    by (intro conjI allI)
qed



text \<open>
  A relationship to \<^verbatim>\<open>glide-slope\<close>, which neither the batch nor the corpus has, is
  reported with a message that names the term and the target, and makes the batch
  invalid; with the target in the corpus or in the batch there is no error.
\<close>

theorem validateCrossReferences_exact_witness:
  \<open>unresolved \<lparr> terms = [sampleTerm ''ils'' ''Navigation'' ''A sample definition.''
                            [related ''glide-slope'']] \<rparr> [] (related ''glide-slope'')
   \<and> crossRefMessage ''ils'' ''glide-slope''
       \<in> set (validateCrossReferences
                 \<lparr> terms = [sampleTerm ''ils'' ''Navigation'' ''A sample definition.''
                              [related ''glide-slope'']] \<rparr> [])
   \<and> crossRefMessage ''ils'' ''glide-slope''
       = ''Term "ils" references unknown term "glide-slope" in relationships''
   \<and> crossRefMessage ''ils'' ''glide-slope'' \<noteq> crossRefMessage ''vor'' ''glide-slope''
   \<and> validateCrossReferences
         \<lparr> terms = [sampleTerm ''ils'' ''Navigation'' ''A sample definition.''
                      [related ''glide-slope'']] \<rparr>
         [sampleTerm ''glide-slope'' ''Navigation'' ''A sample definition.'' []] = []
   \<and> validateCrossReferences
         \<lparr> terms = [sampleTerm ''ils'' ''Navigation'' ''A sample definition.''
                      [related ''glide-slope''],
                    sampleTerm ''glide-slope'' ''Navigation'' ''A sample definition.'' []] \<rparr>
         [] = []
   \<and> (\<forall>errorMessage.
        validateBatch noSchemaErrors errorMessage
          (sampleWorld (batchJson \<lparr> terms = [sampleTerm ''ils'' ''Navigation''
                          ''A sample definition.'' [related ''glide-slope'']] \<rparr>) [])
          ''data/batches/2025-10-30-batch-001.json''
        = Inr (\<lparr> valid = False,
                 errors = [''Term "ils" references unknown term "glide-slope" in relationships''],
                 warnings = [quizMessage ''Navigation'' 1, newCategoryMessage ''Navigation'' 1],
                 vr_termCount = 1, vr_categories = [''Navigation''] \<rparr>,
               [JsonSchemaPhase, ZodPhase, MarkdownPhase, CrossRefPhase, QuizPhase]))
   \<and> (\<forall>errorMessage.
        \<not> valid (fst (projr (validateBatch noSchemaErrors errorMessage
          (sampleWorld (batchJson \<lparr> terms = [sampleTerm ''ils'' ''Navigation''
                          ''A sample definition.'' [related ''glide-slope'']] \<rparr>) [])
          ''data/batches/2025-10-30-batch-001.json''))))\<close>
proof -
  let ?t = "sampleTerm ''ils'' ''Navigation'' ''A sample definition.'' [related ''glide-slope'']"
  let ?b = "\<lparr> terms = [?t] \<rparr>"
  let ?w = "sampleWorld (batchJson ?b) []"
  let ?path = "''data/batches/2025-10-30-batch-001.json''"
  have u: "unresolved ?b [] (related ''glide-slope'')"
    by (simp add: unresolved_def sampleTerm_def related_def)
  have r1: "validateCrossReferences ?b
              [sampleTerm ''glide-slope'' ''Navigation'' ''A sample definition.'' []] = []"
    by code_simp
  have r2: "validateCrossReferences
         \<lparr> terms = [?t, sampleTerm ''glide-slope'' ''Navigation'' ''A sample definition.'' []] \<rparr>
         [] = []"
    by code_simp
  have z: "issues (GlossaryBatchSchema [] (Some (batchJson ?b))) = []"
    by code_simp
  have x: \<open>validateCrossReferences ?b []
             = [''Term "ils" references unknown term "glide-slope" in relationships'']\<close>
    by code_simp
  have m: "checkForMarkdown ?b = []"
    by code_simp
  have q: "checkQuizRequirements ?b []
             = [quizMessage ''Navigation'' 1, newCategoryMessage ''Navigation'' 1]"
    by code_simp
  have c: "newSet (map category (terms ?b)) = [''Navigation'']"
    by code_simp
  have r3: \<open>validateBatch noSchemaErrors errorMessage (sampleWorld (batchJson ?b) [])
        ''data/batches/2025-10-30-batch-001.json''
       = Inr (\<lparr> valid = False,
                errors = [''Term "ils" references unknown term "glide-slope" in relationships''],
                warnings = [quizMessage ''Navigation'' 1, newCategoryMessage ''Navigation'' 1],
                vr_termCount = 1, vr_categories = [''Navigation''] \<rparr>,
              [JsonSchemaPhase, ZodPhase, MarkdownPhase, CrossRefPhase, QuizPhase])\<close>
    for errorMessage
    unfolding validateBatch_sample [OF z] x m q c by simp
  have m1: "?t \<in> set (terms ?b)" and m2: "related ''glide-slope'' \<in> set (relationships ?t)"
    by (simp_all add: sampleTerm_def)
  from validateCrossReferences_exact [of ?b "[]", THEN conjunct2, THEN conjunct1, rule_format,
      OF m1 m2 u]
  have c2: "crossRefMessage ''ils'' ''glide-slope'' \<in> set (validateCrossReferences ?b [])"
    by (simp add: sampleTerm_def related_def)
  from validateCrossReferences_exact [where tid = "''ils''" and target = "''glide-slope''",
      THEN conjunct2, THEN conjunct2, THEN conjunct2, THEN conjunct2, THEN conjunct2,
      THEN conjunct1]
  have c3: \<open>crossRefMessage ''ils'' ''glide-slope''
       = ''Term "ils" references unknown term "glide-slope" in relationships''\<close>
    by (simp add: quoted_def)
  have q: "CHR 0x22 \<notin> set ''ils'' \<and> CHR 0x22 \<notin> set ''vor''"
    by simp
  have ne: "''ils'' \<noteq> ''vor''"
    by simp
  have c7: "crossRefMessage ''ils'' ''glide-slope'' \<noteq> crossRefMessage ''vor'' ''glide-slope''"
  proof
    assume "crossRefMessage ''ils'' ''glide-slope'' = crossRefMessage ''vor'' ''glide-slope''"
    with q have "CHR 0x22 \<notin> set ''ils'' \<and> CHR 0x22 \<notin> set ''vor''
        \<and> crossRefMessage ''ils'' ''glide-slope'' = crossRefMessage ''vor'' ''glide-slope''"
      by (intro conjI) (simp_all only: simp_thms)
    from validateCrossReferences_exact [where tid = "''ils''" and tid' = "''vor''"
        and target = "''glide-slope''" and target' = "''glide-slope''",
        THEN conjunct2, THEN conjunct2, THEN conjunct2, THEN conjunct2, THEN conjunct2,
        THEN conjunct2, THEN mp, OF this, THEN conjunct1]
    have "''ils'' = ''vor''" .
    with ne show False by (rule notE)
  qed
  have c5: "\<not> valid (fst (projr (validateBatch noSchemaErrors errorMessage ?w ?path)))"
    for errorMessage
  proof -
    have h: "batchFile ?w ?path = Inr (batchJson ?b) \<and> noSchemaErrors (batchJson ?b) = []
        \<and> validateZodSchema errorMessage (batchJson ?b) = []
        \<and> asGlossaryBatch (batchJson ?b) = Some ?b
        \<and> loadExistingTerms ?w = []"
      using z by (simp add: sampleWorld_def noSchemaErrors_def validateZodSchema_empty
          asGlossaryBatch_batchJson loadExistingTerms_def)
    from validateCrossReferences_exact [where batch = ?b and existingTerms = "[]"
        and w = ?w and filePath = ?path and data = "batchJson ?b"
        and validateJsonSchema = noSchemaErrors and errorMessage = errorMessage,
        THEN conjunct2, THEN conjunct2, THEN conjunct2, THEN conjunct2, THEN conjunct1,
        THEN mp, OF h]
    obtain result steps where r:
      "validateBatch noSchemaErrors errorMessage ?w ?path = Inr (result, steps)"
      "valid result = (\<forall>term\<in>set (terms ?b). \<forall>rel\<in>set (relationships term).
                  \<not> unresolved ?b [] rel)"
      by blast
    from r(2) m1 m2 u have "\<not> valid result"
      by blast
    with r(1) show ?thesis
      by simp
  qed
  from u c2 c3 c7 r1 r2 r3 c5 show ?thesis
    by (intro conjI allI)
qed

text \<open>A term related to itself passes cross-reference resolution.\<close>

theorem self_reference_resolves_witness:
  "\<not> unresolved \<lparr> terms = [sampleTerm ''ils'' ''Navigation'' ''A sample definition.''
                              [related ''ils'']] \<rparr> [] (related ''ils'')
   \<and> validateCrossReferences
         \<lparr> terms = [sampleTerm ''ils'' ''Navigation'' ''A sample definition.''
                      [related ''ils'']] \<rparr> [] = []
   \<and> dropSelfReferences
         \<lparr> terms = [sampleTerm ''ils'' ''Navigation'' ''A sample definition.''
                      [related ''ils'', related ''glide-slope'']] \<rparr>
       = \<lparr> terms = [sampleTerm ''ils'' ''Navigation'' ''A sample definition.''
                      [related ''glide-slope'']] \<rparr>"
proof -
  let ?t = "sampleTerm ''ils'' ''Navigation'' ''A sample definition.'' [related ''ils'']"
  let ?b = "\<lparr> terms = [?t] \<rparr>"
  have h1: "?t \<in> set (terms ?b) \<and> termId (related ''ils'') = term_id ?t"
    by (simp add: sampleTerm_def related_def)
  have h2: "\<forall>t\<in>set (terms ?b). \<forall>rel\<in>set (relationships t). termId rel = term_id t"
    by (simp add: sampleTerm_def related_def)
  have d: "dropSelfReferences
         \<lparr> terms = [sampleTerm ''ils'' ''Navigation'' ''A sample definition.''
                      [related ''ils'', related ''glide-slope'']] \<rparr>
       = \<lparr> terms = [sampleTerm ''ils'' ''Navigation'' ''A sample definition.''
                      [related ''glide-slope'']] \<rparr>"
    by (simp add: dropSelfReferences_def sampleTerm_def related_def)
  note T = self_reference_resolves [of ?t ?b "related ''ils''" "[]"]
  from T [THEN conjunct1, THEN mp, OF h1]
  have c1: "\<not> unresolved ?b [] (related ''ils'')" .
  from T [THEN conjunct2, THEN conjunct2, THEN mp, OF h2]
  have c2: "validateCrossReferences ?b [] = []" .
  from c1 c2 d show ?thesis
    by (intro conjI)
qed

text \<open>
  A batch whose one term has an id that fails the pattern, a category new to the corpus
  and a relationship to a term that nobody has: the later phases would report a
  cross-reference error and two warnings, but the Zod pass rejects the batch and the
  report has the line of the Zod pass alone, after the two structural steps, with or
  without a corpus.
\<close>

theorem structural_failure_stops_validation_witness:
  "(\<forall>errorMessage.
      validateBatch noSchemaErrors errorMessage
        (sampleWorld (batchJson \<lparr> terms = [sampleTerm ''Transition_Level'' ''Weather''
                         ''A sample definition.'' [related ''transition-altitude'']] \<rparr>)
           navigationCorpus)
        ''data/batches/2025-10-30-batch-001.json''
      = Inr (\<lparr> valid = False,
               errors = validateZodSchema errorMessage
                          (batchJson \<lparr> terms = [sampleTerm ''Transition_Level'' ''Weather''
                             ''A sample definition.'' [related ''transition-altitude'']] \<rparr>),
               warnings = [], vr_termCount = 0, vr_categories = [] \<rparr>,
             [JsonSchemaPhase, ZodPhase]))
   \<and> (\<forall>errorMessage.
        length (validateZodSchema errorMessage
                  (batchJson \<lparr> terms = [sampleTerm ''Transition_Level'' ''Weather''
                     ''A sample definition.'' [related ''transition-altitude'']] \<rparr>)) = 1)
   \<and> (\<forall>errorMessage.
        validateBatch noSchemaErrors errorMessage
          (sampleWorld (batchJson \<lparr> terms = [sampleTerm ''Transition_Level'' ''Weather''
                           ''A sample definition.'' [related ''transition-altitude'']] \<rparr>)
             navigationCorpus \<lparr> glossaryData := None \<rparr>)
          ''data/batches/2025-10-30-batch-001.json''
        = validateBatch noSchemaErrors errorMessage
            (sampleWorld (batchJson \<lparr> terms = [sampleTerm ''Transition_Level'' ''Weather''
                             ''A sample definition.'' [related ''transition-altitude'']] \<rparr>)
               navigationCorpus)
            ''data/batches/2025-10-30-batch-001.json'')
   \<and> length (validateCrossReferences
               \<lparr> terms = [sampleTerm ''Transition_Level'' ''Weather''
                            ''A sample definition.'' [related ''transition-altitude'']] \<rparr>
               navigationCorpus) = 1
   \<and> length (checkQuizRequirements
               \<lparr> terms = [sampleTerm ''Transition_Level'' ''Weather''
                            ''A sample definition.'' [related ''transition-altitude'']] \<rparr>
               navigationCorpus) = 2"
proof -
  let ?b = "\<lparr> terms = [sampleTerm ''Transition_Level'' ''Weather''
                         ''A sample definition.'' [related ''transition-altitude'']] \<rparr>"
  let ?data = "batchJson ?b"
  let ?w = "sampleWorld ?data navigationCorpus"
  let ?path = "''data/batches/2025-10-30-batch-001.json''"
  have z: "issues (GlossaryBatchSchema [] (Some ?data)) \<noteq> []"
    by code_simp
  note T = structural_failure_stops_validation [where validateJsonSchema = noSchemaErrors
      and corpus = None and w = ?w and filePath = ?path and data = ?data]
  have ne: "validateZodSchema errorMessage ?data \<noteq> []" for errorMessage
    using T [where errorMessage = errorMessage, THEN conjunct2, THEN conjunct1] z
    by simp
  have h: "batchFile ?w ?path = Inr ?data
      \<and> (noSchemaErrors ?data \<noteq> [] \<or> validateZodSchema errorMessage ?data \<noteq> [])"
    for errorMessage
    using ne [of errorMessage] by (simp add: sampleWorld_def)
  have c1: "validateBatch noSchemaErrors errorMessage ?w ?path
      = Inr (\<lparr> valid = False, errors = validateZodSchema errorMessage ?data,
               warnings = [], vr_termCount = 0, vr_categories = [] \<rparr>,
             [JsonSchemaPhase, ZodPhase])" for errorMessage
    using T [where errorMessage = errorMessage, THEN conjunct1, THEN mp, OF h, THEN conjunct1]
    by (simp add: noSchemaErrors_def)
  have c2: "length (validateZodSchema errorMessage ?data) = 1" for errorMessage
    using T [where errorMessage = errorMessage, THEN conjunct2, THEN conjunct2, THEN mp, OF z]
    by auto
  have c3: "validateBatch noSchemaErrors errorMessage (?w \<lparr> glossaryData := None \<rparr>) ?path
        = validateBatch noSchemaErrors errorMessage ?w ?path" for errorMessage
    using T [where errorMessage = errorMessage, THEN conjunct1, THEN mp, OF h, THEN conjunct2] .
  have c4: "length (validateCrossReferences ?b navigationCorpus) = 1"
    by code_simp
  have c5: "length (checkQuizRequirements ?b navigationCorpus) = 2"
    by code_simp
  from c1 c2 c3 c4 c5 show ?thesis
    by (intro conjI allI)
qed

text \<open>
  The id \<^verbatim>\<open>Flight_Level\<close> fails the pattern: the parse has the kebab-case issue at the id
  and nothing else, the script exits with 1 and the file system, with its absent manifest,
  is as before.
\<close>

theorem invalid_id_rejected_manifest_unchanged_witness:
  "\<not> regexTest KEBAB_CASE_REGEX ''Flight_Level''
   \<and> issues (GlossaryBatchSchema []
        (Some (batchJson \<lparr> terms = [sampleTerm ''Flight_Level'' ''Navigation''
                                     ''A sample definition.'' []] \<rparr>)))
       = [ZodIssue [''terms'', ''0'', ''id''] kebabMessage]
   \<and> (\<forall>errorMessage.
        validateMain noSchemaErrors errorMessage fileExists
          (sampleWorld (batchJson \<lparr> terms = [sampleTerm ''Flight_Level'' ''Navigation''
                                               ''A sample definition.'' []] \<rparr>) [])
          ''data/batches/2025-10-30-batch-001.json''
        = (1, sampleWorld (batchJson \<lparr> terms = [sampleTerm ''Flight_Level'' ''Navigation''
                                               ''A sample definition.'' []] \<rparr>) []))
   \<and> (\<forall>errorMessage.
        manifestFile (snd (validateMain noSchemaErrors errorMessage fileExists
          (sampleWorld (batchJson \<lparr> terms = [sampleTerm ''Flight_Level'' ''Navigation''
                                               ''A sample definition.'' []] \<rparr>) [])
          ''data/batches/2025-10-30-batch-001.json'')) = None)"
proof -
  let ?t = "sampleTerm ''Flight_Level'' ''Navigation'' ''A sample definition.'' []"
  let ?data = "batchJson \<lparr> terms = [?t] \<rparr>"
  let ?w = "sampleWorld ?data []"
  let ?path = "''data/batches/2025-10-30-batch-001.json''"
  have k: "\<not> regexTest KEBAB_CASE_REGEX ''Flight_Level''"
    by code_simp
  have only: "issues (GlossaryBatchSchema [] (Some ?data))
                = [ZodIssue [''terms'', ''0'', ''id''] kebabMessage]"
    by code_simp
  from k have h: "field ?data ''terms'' = Some (JArr [termJson ?t]) \<and> (0::nat) < length [termJson ?t]
    \<and> field ([termJson ?t] ! 0) ''id'' = Some (JStr ''Flight_Level'')
    \<and> \<not> regexTest KEBAB_CASE_REGEX ''Flight_Level''
    \<and> batchFile ?w ?path = Inr ?data \<and> fileExists ?path"
    by (simp add: batchJson_def termJson_def sampleTerm_def sampleWorld_def fileExists_def)
  note T = invalid_id_rejected_manifest_unchanged [where validateJsonSchema = noSchemaErrors
      and existsSync = fileExists and w = ?w and filePath = ?path and data = ?data
      and ts = "[termJson ?t]" and i = 0 and s = "''Flight_Level''"]
  have c: "validateMain noSchemaErrors errorMessage fileExists ?w ?path = (1, ?w)"
    for errorMessage
    using T [where errorMessage = errorMessage, THEN conjunct1, THEN mp, OF h]
    by simp
  have m: "manifestFile (snd (validateMain noSchemaErrors errorMessage fileExists ?w ?path)) = None"
    for errorMessage
    using T [where errorMessage = errorMessage, THEN conjunct2, THEN conjunct2]
    by (simp add: sampleWorld_def)
  from k only c m show ?thesis
    by (intro conjI allI)
qed

text \<open>
  A batch without terms and a batch of two well-formed terms with the id \<^verbatim>\<open>ils\<close> are
  rejected, the second with the uniqueness issue alone, whatever the corpus holds; one of
  the two terms alone passes.
\<close>

theorem batch_needs_terms_with_unique_ids_witness:
  "ZodIssue [''terms''] ''Batch must contain at least 1 term''
     \<in> set (issues (GlossaryBatchSchema [] (Some (batchJson \<lparr> terms = [] \<rparr>))))
   \<and> issues (GlossaryBatchSchema []
        (Some (batchJson \<lparr> terms = [sampleTerm ''ils'' ''Navigation'' ''A sample definition.'' [],
                                    sampleTerm ''ils'' ''Navigation''
                                      ''Another sample definition.'' []] \<rparr>)))
      = [ZodIssue [''terms''] ''All term IDs must be unique within a batch'']
   \<and> issues (GlossaryBatchSchema []
        (Some (batchJson \<lparr> terms = [sampleTerm ''ils'' ''Navigation''
                                      ''A sample definition.'' []] \<rparr>))) = []
   \<and> (\<forall>errorMessage.
        validateBatch noSchemaErrors errorMessage
          (sampleWorld
             (batchJson \<lparr> terms = [sampleTerm ''ils'' ''Navigation'' ''A sample definition.'' [],
                                   sampleTerm ''ils'' ''Navigation''
                                     ''Another sample definition.'' []] \<rparr>)
             navigationCorpus)
          ''data/batches/2025-10-30-batch-001.json''
        = Inr (\<lparr> valid = False,
                 errors = validateZodSchema errorMessage
                   (batchJson \<lparr> terms = [sampleTerm ''ils'' ''Navigation'' ''A sample definition.'' [],
                                         sampleTerm ''ils'' ''Navigation''
                                           ''Another sample definition.'' []] \<rparr>),
                 warnings = [], vr_termCount = 0, vr_categories = [] \<rparr>,
               [JsonSchemaPhase, ZodPhase]))
   \<and> (\<forall>errorMessage.
        validateZodSchema errorMessage
          (batchJson \<lparr> terms = [sampleTerm ''ils'' ''Navigation'' ''A sample definition.'' [],
                                sampleTerm ''ils'' ''Navigation''
                                  ''Another sample definition.'' []] \<rparr>) \<noteq> [])"
proof -
  let ?t1 = "termJson (sampleTerm ''ils'' ''Navigation'' ''A sample definition.'' [])"
  let ?t2 = "termJson (sampleTerm ''ils'' ''Navigation'' ''Another sample definition.'' [])"
  let ?dup = "batchJson \<lparr> terms = [sampleTerm ''ils'' ''Navigation'' ''A sample definition.'' [],
                              sampleTerm ''ils'' ''Navigation'' ''Another sample definition.'' []] \<rparr>"
  let ?w = "sampleWorld ?dup navigationCorpus"
  let ?path = "''data/batches/2025-10-30-batch-001.json''"
  have dupj: "?dup = JObj [(''terms'', JArr [?t1, ?t2])]"
    by (simp add: batchJson_def)
  have e0: "issues (GlossaryTermSchema [''terms'', showNat 0] (Some ?t1)) = []"
    by code_simp
  have e1: "issues (GlossaryTermSchema [''terms'', showNat 1] (Some ?t2)) = []"
    by code_simp
  have each: "\<forall>i<length [?t1, ?t2].
                issues (GlossaryTermSchema [''terms'', showNat i] (Some ([?t1, ?t2] ! i))) = []"
  proof (intro allI impI)
    fix i :: nat assume "i < length [?t1, ?t2]"
    then have "i = 0 \<or> i = 1" by auto
    then show "issues (GlossaryTermSchema [''terms'', showNat i] (Some ([?t1, ?t2] ! i))) = []"
      using e0 e1 by auto
  qed
  have ids: "\<not> distinct (map (\<lambda>t. field t ''id'') [?t1, ?t2])"
    by (simp add: termJson_def sampleTerm_def)
  have h0: "field (batchJson \<lparr> terms = [] \<rparr>) ''terms'' = Some (JArr [])"
    by (simp add: batchJson_def)
  have single: "issues (GlossaryBatchSchema []
        (Some (batchJson \<lparr> terms = [sampleTerm ''ils'' ''Navigation''
                                      ''A sample definition.'' []] \<rparr>))) = []"
    by code_simp
  note T = batch_needs_terms_with_unique_ids [where validateJsonSchema = noSchemaErrors
      and ts = "[?t1, ?t2]" and w = ?w and filePath = ?path and corpus = None]
  from T [where data = "batchJson \<lparr> terms = [] \<rparr>", THEN conjunct1, THEN mp, OF h0,
      THEN conjunct1]
  have c1: "ZodIssue [''terms''] ''Batch must contain at least 1 term''
              \<in> set (issues (GlossaryBatchSchema [] (Some (batchJson \<lparr> terms = [] \<rparr>))))" .
  from ids each
  have h3: "[?t1, ?t2] \<noteq> [] \<and> \<not> distinct (map (\<lambda>t. field t ''id'') [?t1, ?t2])
            \<and> (\<forall>i<length [?t1, ?t2].
                  issues (GlossaryTermSchema [''terms'', showNat i] (Some ([?t1, ?t2] ! i))) = [])"
    by simp
  from T [where data = ?dup, THEN conjunct2, THEN conjunct2, THEN conjunct1, THEN mp, OF h3]
  have c3: "issues (GlossaryBatchSchema [] (Some ?dup))
              = [ZodIssue [''terms''] ''All term IDs must be unique within a batch'']"
    by (simp only: dupj)
  have h2: "field ?dup ''terms'' = Some (JArr [?t1, ?t2])
            \<and> \<not> distinct (map (\<lambda>t. field t ''id'') [?t1, ?t2])"
    using ids by (simp add: batchJson_def)
  have c5: "validateZodSchema errorMessage ?dup \<noteq> []" for errorMessage
    using T [where data = ?dup and errorMessage = errorMessage, THEN conjunct2, THEN conjunct1,
        THEN mp, OF h2, THEN conjunct2] .
  have c4: "validateBatch noSchemaErrors errorMessage ?w ?path
      = Inr (\<lparr> valid = False, errors = validateZodSchema errorMessage ?dup,
               warnings = [], vr_termCount = 0, vr_categories = [] \<rparr>,
             [JsonSchemaPhase, ZodPhase])" for errorMessage
  proof -
    from c5 [of errorMessage]
    have h4: "batchFile ?w ?path = Inr ?dup \<and> validateZodSchema errorMessage ?dup \<noteq> []"
      by (simp add: sampleWorld_def)
    from T [where data = ?dup and errorMessage = errorMessage, THEN conjunct2, THEN conjunct2,
        THEN conjunct2, THEN mp, OF h4, THEN conjunct1]
    show ?thesis
      by (simp add: noSchemaErrors_def)
  qed
  from c1 c3 single c4 c5 show ?thesis
    by (intro conjI allI)
qed

text \<open>
  One more term for \<^verbatim>\<open>Navigation\<close>, which has five terms in the corpus, gives a warning all
  the same when the corpus also has a single term of \<^verbatim>\<open>Weather\<close>: the audit warns about
  every category it has counted, not only about those of the batch. \<^verbatim>\<open>Safety\<close> is a valid
  category with no term at all, and gets no warning.
\<close>

theorem quiz_warning_for_category_outside_batch:
  \<open>combinedCount \<lparr> terms = [sampleTerm ''dme'' ''Navigation'' ''A sample definition.'' []] \<rparr>
     (navigationCorpus @ [sampleTerm ''metar'' ''Weather'' ''A sample definition.'' []])
     ''Navigation'' = 6
   \<and> checkQuizRequirements
       \<lparr> terms = [sampleTerm ''dme'' ''Navigation'' ''A sample definition.'' []] \<rparr>
       (navigationCorpus @ [sampleTerm ''metar'' ''Weather'' ''A sample definition.'' []])
     = [''Category "Weather" has only 1 term(s) - need 4+ for quiz generation. Add 3 more term(s).'']
   \<and> ''Safety'' \<in> set VALID_CATEGORIES
   \<and> combinedCount \<lparr> terms = [sampleTerm ''dme'' ''Navigation'' ''A sample definition.'' []] \<rparr>
       (navigationCorpus @ [sampleTerm ''metar'' ''Weather'' ''A sample definition.'' []])
       ''Safety'' = 0\<close>
  by code_simp

text \<open>
  One more term for \<^verbatim>\<open>Navigation\<close>, which has five terms in a corpus of that category
  alone, gives no warning; two terms of the new category \<^verbatim>\<open>Weather\<close> give the warning of
  a category under 4 and the different warning of a new category, each saying that two
  more terms are needed, and the batch stays valid.
\<close>

theorem checkQuizRequirements_warnings_witness:
  \<open>checkQuizRequirements
     \<lparr> terms = [sampleTerm ''dme'' ''Navigation'' ''A sample definition.'' []] \<rparr>
     navigationCorpus = []
   \<and> checkQuizRequirements
       \<lparr> terms = [sampleTerm ''metar'' ''Weather'' ''A sample definition.'' [],
                  sampleTerm ''taf'' ''Weather'' ''A sample definition.'' []] \<rparr>
       navigationCorpus
      = [''Category "Weather" has only 2 term(s) - need 4+ for quiz generation. Add 2 more term(s).'',
         ''NEW category "Weather" introduced with only 2 term(s) - add 2 more in this batch or next.'']
   \<and> quizMessage ''Weather'' 2 \<noteq> newCategoryMessage ''Weather'' 2
   \<and> quizMessage ''Weather'' 2
       = ''Category "Weather" has only 2 term(s) - need 4+ for quiz generation. Add 2 more term(s).''
   \<and> quizMessage ''Weather'' 2
       \<in> set (checkQuizRequirements
                 \<lparr> terms = [sampleTerm ''metar'' ''Weather'' ''A sample definition.'' [],
                            sampleTerm ''taf'' ''Weather'' ''A sample definition.'' []] \<rparr>
                 navigationCorpus)
   \<and> newCategoryMessage ''Weather'' 2
       \<in> set (checkQuizRequirements
                 \<lparr> terms = [sampleTerm ''metar'' ''Weather'' ''A sample definition.'' [],
                            sampleTerm ''taf'' ''Weather'' ''A sample definition.'' []] \<rparr>
                 navigationCorpus)
   \<and> (\<forall>errorMessage.
        valid (fst (projr (validateBatch noSchemaErrors errorMessage
          (sampleWorld
             (batchJson \<lparr> terms = [sampleTerm ''metar'' ''Weather'' ''A sample definition.'' [],
                                   sampleTerm ''taf'' ''Weather'' ''A sample definition.'' []] \<rparr>)
             navigationCorpus)
          ''data/batches/2025-10-30-batch-001.json''))))
   \<and> (\<forall>errorMessage.
        validateBatch noSchemaErrors errorMessage
          (sampleWorld
             (batchJson \<lparr> terms = [sampleTerm ''metar'' ''Weather'' ''A sample definition.'' [],
                                   sampleTerm ''taf'' ''Weather'' ''A sample definition.'' []] \<rparr>)
             navigationCorpus)
          ''data/batches/2025-10-30-batch-001.json''
        = Inr (\<lparr> valid = True, errors = [],
                 warnings = [quizMessage ''Weather'' 2, newCategoryMessage ''Weather'' 2],
                 vr_termCount = 2, vr_categories = [''Weather''] \<rparr>,
               [JsonSchemaPhase, ZodPhase, MarkdownPhase, CrossRefPhase, QuizPhase]))\<close>
proof -
  let ?one = "\<lparr> terms = [sampleTerm ''dme'' ''Navigation'' ''A sample definition.'' []] \<rparr>"
  let ?two = "\<lparr> terms = [sampleTerm ''metar'' ''Weather'' ''A sample definition.'' [],
                  sampleTerm ''taf'' ''Weather'' ''A sample definition.'' []] \<rparr>"
  have h: "\<forall>c\<in>set (map category navigationCorpus) \<union> set (map category (terms ?one)).
             4 \<le> combinedCount ?one navigationCorpus c"
    by (simp add: navigationCorpus_def sampleTerm_def combinedCount_def countIn_def)
  note T1 = checkQuizRequirements_warnings [of navigationCorpus ?one]
  from T1 [THEN conjunct2, THEN conjunct2, THEN conjunct2, THEN conjunct2, THEN conjunct2,
      THEN conjunct1, THEN iffD2, OF h]
  have c1: "checkQuizRequirements ?one navigationCorpus = []" .
  note T2 = checkQuizRequirements_warnings [of navigationCorpus ?two]
  from T2 [THEN conjunct2, THEN conjunct2, THEN conjunct1]
  have c3: "quizMessage ''Weather'' 2 \<noteq> newCategoryMessage ''Weather'' 2"
    by blast
  have s2: "showNat 2 = ''2''" "showNat (4 - 2) = ''2''"
    by code_simp+
  from T2 [where cat = "''Weather''" and cnt = 2, THEN conjunct2, THEN conjunct2, THEN conjunct2,
      THEN conjunct2, THEN conjunct2, THEN conjunct2, THEN conjunct2, THEN conjunct1]
  have c4: \<open>quizMessage ''Weather'' 2
       = ''Category "Weather" has only 2 term(s) - need 4+ for quiz generation. Add 2 more term(s).''\<close>
    by (simp add: s2 quoted_def)
  have c2: \<open>checkQuizRequirements ?two navigationCorpus
      = [''Category "Weather" has only 2 term(s) - need 4+ for quiz generation. Add 2 more term(s).'',
         ''NEW category "Weather" introduced with only 2 term(s) - add 2 more in this batch or next.'']\<close>
    by code_simp
  have q: "checkQuizRequirements ?two navigationCorpus
      = [quizMessage ''Weather'' 2, newCategoryMessage ''Weather'' 2]"
    by code_simp
  have z: "issues (GlossaryBatchSchema [] (Some (batchJson ?two))) = []"
    by code_simp
  have x: "validateCrossReferences ?two navigationCorpus = []"
    by code_simp
  have m: "checkForMarkdown ?two = []"
    by code_simp
  have c: "newSet (map category (terms ?two)) = [''Weather'']"
    by code_simp
  have c5: "validateBatch noSchemaErrors errorMessage (sampleWorld (batchJson ?two) navigationCorpus)
        ''data/batches/2025-10-30-batch-001.json''
      = Inr (\<lparr> valid = True, errors = [],
               warnings = [quizMessage ''Weather'' 2, newCategoryMessage ''Weather'' 2],
               vr_termCount = 2, vr_categories = [''Weather''] \<rparr>,
             [JsonSchemaPhase, ZodPhase, MarkdownPhase, CrossRefPhase, QuizPhase])"
    for errorMessage
    unfolding validateBatch_sample [OF z] x m q c by simp
  have mem: "''Weather'' \<in> set (map category navigationCorpus) \<union> set (map category (terms ?two))"
    by (simp add: sampleTerm_def)
  have cnt: "combinedCount ?two navigationCorpus ''Weather'' = 2"
    by code_simp
  from T2 [THEN conjunct1, THEN bspec, OF mem]
  have c6: "quizMessage ''Weather'' 2 \<in> set (checkQuizRequirements ?two navigationCorpus)"
    unfolding cnt by simp
  have new: "''Weather'' \<in> set (map category (terms ?two)) - set (map category navigationCorpus)"
    by (simp add: sampleTerm_def navigationCorpus_def)
  have loc: "countIn ''Weather'' (terms ?two) = 2"
    by code_simp
  from T2 [THEN conjunct2, THEN conjunct1, THEN bspec, OF new]
  have c7: "newCategoryMessage ''Weather'' 2 \<in> set (checkQuizRequirements ?two navigationCorpus)"
    unfolding loc by simp
  have c8: "valid (fst (projr (validateBatch noSchemaErrors errorMessage
              (sampleWorld (batchJson ?two) navigationCorpus)
              ''data/batches/2025-10-30-batch-001.json'')))" for errorMessage
  proof -
    let ?w = "sampleWorld (batchJson ?two) navigationCorpus"
    let ?path = "''data/batches/2025-10-30-batch-001.json''"
    have h: "batchFile ?w ?path = Inr (batchJson ?two) \<and> noSchemaErrors (batchJson ?two) = []
        \<and> validateZodSchema errorMessage (batchJson ?two) = []
        \<and> asGlossaryBatch (batchJson ?two) = Some ?two
        \<and> loadExistingTerms ?w = navigationCorpus"
      using z by (simp add: sampleWorld_def noSchemaErrors_def validateZodSchema_empty
          asGlossaryBatch_batchJson loadExistingTerms_def)
    from T2 [where w = ?w and filePath = ?path and data = "batchJson ?two"
        and validateJsonSchema = noSchemaErrors and errorMessage = errorMessage,
        THEN conjunct2, THEN conjunct2, THEN conjunct2, THEN conjunct2, THEN conjunct2,
        THEN conjunct2, THEN conjunct1, THEN mp, OF h]
    obtain result steps where r:
      "validateBatch noSchemaErrors errorMessage ?w ?path = Inr (result, steps)"
      "valid result = (validateCrossReferences ?two navigationCorpus = [])"
      by blast
    from r(2) x have "valid result"
      by simp
    with r(1) show ?thesis
      by simp
  qed
  from c1 c2 c3 c4 c6 c7 c8 c5 show ?thesis
    by (intro conjI allI)
qed

end
